(* ===== verification/Prelude.thy ===== *)
theory Prelude
  imports Main
begin

text \<open>
  Shared material of the development: the state and exception combinators that every stateful
  method is written with, Python dictionaries as association lists in insertion order, the
  optional filters of the repositories' \<open>select\<close> methods, a few string functions, and the lemma
  collections the component proofs use.

  A Python coroutine that reads and writes state and may raise is a function from the state to a
  result and a new state. The state survives an exception, as it does in Python: a method that
  has stored something before raising has stored it.
\<close>

named_theorems opdefs "definitions of stateful operations, unfolded by the functional lemmas"
named_theorems framerules "what an operation leaves unchanged"

section \<open>State and exceptions\<close>

type_synonym ('s, 'e, 'a) op = "'s \<Rightarrow> ('e + 'a) \<times> 's"

definition retE :: "'a \<Rightarrow> ('s, 'e, 'a) op" where
  "retE a = (\<lambda>s. (Inr a, s))"

definition raiseE :: "'e \<Rightarrow> ('s, 'e, 'a) op" where
  "raiseE e = (\<lambda>s. (Inl e, s))"

definition bindE :: "('s, 'e, 'a) op \<Rightarrow> ('a \<Rightarrow> ('s, 'e, 'b) op) \<Rightarrow> ('s, 'e, 'b) op" where
  "bindE m f = (\<lambda>s. case m s of (Inl e, s') \<Rightarrow> (Inl e, s') | (Inr a, s') \<Rightarrow> f a s')"

definition thenE :: "('s, 'e, 'a) op \<Rightarrow> ('s, 'e, 'b) op \<Rightarrow> ('s, 'e, 'b) op" where
  "thenE m k = bindE m (\<lambda>_. k)"

definition getsE :: "('s \<Rightarrow> 'a) \<Rightarrow> ('s, 'e, 'a) op" where
  "getsE f = (\<lambda>s. (Inr (f s), s))"

definition modifyE :: "('s \<Rightarrow> 's) \<Rightarrow> ('s, 'e, unit) op" where
  "modifyE f = (\<lambda>s. (Inr (), f s))"

definition liftE :: "'e + 'a \<Rightarrow> ('s, 'e, 'a) op" where
  "liftE r = (\<lambda>s. (r, s))"

definition whenE :: "bool \<Rightarrow> ('s, 'e, unit) op \<Rightarrow> ('s, 'e, unit) op" where
  "whenE c m = (if c then m else retE ())"

text \<open>\<open>try: m except: h\<close> where \<open>h\<close> answers \<open>None\<close> for an exception it does not catch.\<close>

definition catchE :: "('s, 'e, 'a) op \<Rightarrow> ('e \<Rightarrow> ('s, 'e, 'a) op option) \<Rightarrow> ('s, 'e, 'a) op" where
  "catchE m h = (\<lambda>s. case m s of
     (Inl e, s') \<Rightarrow> (case h e of None \<Rightarrow> (Inl e, s') | Some k \<Rightarrow> k s')
   | (Inr a, s') \<Rightarrow> (Inr a, s'))"

text \<open>\<open>try: m finally: c\<close>; an exception of \<open>c\<close> replaces the outcome of \<open>m\<close>.\<close>

definition finallyE :: "('s, 'e, 'a) op \<Rightarrow> ('s, 'e, unit) op \<Rightarrow> ('s, 'e, 'a) op" where
  "finallyE m c = (\<lambda>s. case m s of (r, s') \<Rightarrow>
     (case c s' of (Inl e, s'') \<Rightarrow> (Inl e, s'') | (Inr _, s'') \<Rightarrow> (r, s'')))"

text \<open>\<open>for x in xs: f(x)\<close>, stopping at the first exception.\<close>

fun forE :: "'a list \<Rightarrow> ('a \<Rightarrow> ('s, 'e, unit) op) \<Rightarrow> ('s, 'e, unit) op" where
  "forE [] f = retE ()"
| "forE (x # xs) f = bindE (f x) (\<lambda>_. forE xs f)"

lemma retE_apply [simp]: "retE a s = (Inr a, s)"
  by (simp add: retE_def)

lemma raiseE_apply [simp]: "raiseE e s = (Inl e, s)"
  by (simp add: raiseE_def)

lemma bindE_apply: "bindE m f s = (case m s of (Inl e, s') \<Rightarrow> (Inl e, s') | (Inr a, s') \<Rightarrow> f a s')"
  by (simp add: bindE_def)

lemma bindE_Inr [simp]: "m s = (Inr a, s') \<Longrightarrow> bindE m f s = f a s'"
  by (simp add: bindE_def)

lemma bindE_Inl [simp]: "m s = (Inl e, s') \<Longrightarrow> bindE m f s = (Inl e, s')"
  by (simp add: bindE_def)

lemma thenE_apply: "thenE m k s = (case m s of (Inl e, s') \<Rightarrow> (Inl e, s') | (Inr a, s') \<Rightarrow> k s')"
  by (simp add: thenE_def bindE_def)

lemma getsE_apply [simp]: "getsE f s = (Inr (f s), s)"
  by (simp add: getsE_def)

lemma modifyE_apply [simp]: "modifyE f s = (Inr (), f s)"
  by (simp add: modifyE_def)

lemma liftE_apply [simp]: "liftE r s = (r, s)"
  by (simp add: liftE_def)

lemma whenE_simps [simp]: "whenE True m = m" "whenE False m = retE ()"
  by (simp_all add: whenE_def)

lemma bindE_retE [simp]: "bindE (retE a) f = f a"
  by (simp add: bindE_def fun_eq_iff)

lemma bindE_raiseE [simp]: "bindE (raiseE e) f = raiseE e"
  by (simp add: bindE_def raiseE_def)

lemma bindE_retE_right [simp]: "bindE m retE = m"
  by (auto simp: bindE_def fun_eq_iff split: prod.splits sum.splits)

lemma bindE_assoc: "bindE (bindE m f) g = bindE m (\<lambda>a. bindE (f a) g)"
  by (auto simp: bindE_def fun_eq_iff split: prod.splits sum.splits)

lemma forE_append: "forE (xs @ ys) f = bindE (forE xs f) (\<lambda>_. forE ys f)"
  by (induction xs) (simp_all add: bindE_assoc)

lemmas op_apply = bindE_apply thenE_apply catchE_def finallyE_def

text \<open>
  A property of every outcome, normal or exceptional: used for invariants, which an exception
  must keep too.
\<close>

definition keeps :: "('s \<Rightarrow> bool) \<Rightarrow> ('s, 'e, 'a) op \<Rightarrow> bool" where
  "keeps P m \<longleftrightarrow> (\<forall>s. P s \<longrightarrow> P (snd (m s)))"

named_theorems keeprules "an operation keeps a property of the state"

lemma keepsI [intro?]: "(\<And>s. P s \<Longrightarrow> P (snd (m s))) \<Longrightarrow> keeps P m"
  by (simp add: keeps_def)

lemma keepsD: "keeps P m \<Longrightarrow> P s \<Longrightarrow> P (snd (m s))"
  by (simp add: keeps_def)

lemma keepsD_eq: "keeps P m \<Longrightarrow> m s = (r, s') \<Longrightarrow> P s \<Longrightarrow> P s'"
  using keepsD [of P m s] by simp

lemma keeps_retE [keeprules, simp]: "keeps P (retE a)"
  by (simp add: keeps_def)

lemma keeps_raiseE [keeprules, simp]: "keeps P (raiseE e)"
  by (simp add: keeps_def)

lemma keeps_getsE [keeprules, simp]: "keeps P (getsE f)"
  by (simp add: keeps_def)

lemma keeps_liftE [keeprules, simp]: "keeps P (liftE r)"
  by (simp add: keeps_def)

lemma keeps_modifyE: "(\<And>s. P s \<Longrightarrow> P (f s)) \<Longrightarrow> keeps P (modifyE f)"
  by (simp add: keeps_def)

lemma keeps_bindE [keeprules]: "keeps P m \<Longrightarrow> (\<And>a. keeps P (f a)) \<Longrightarrow> keeps P (bindE m f)"
  unfolding keeps_def bindE_def
  by (fastforce split: prod.splits sum.splits)

lemma keeps_bindE_result:
  "keeps P m \<Longrightarrow> (\<And>s a s'. m s = (Inr a, s') \<Longrightarrow> keeps P (f a)) \<Longrightarrow> keeps P (bindE m f)"
  unfolding keeps_def bindE_def
  by (fastforce split: prod.splits sum.splits)

lemma keeps_thenE [keeprules]: "keeps P m \<Longrightarrow> keeps P k \<Longrightarrow> keeps P (thenE m k)"
  unfolding thenE_def by (rule keeps_bindE)

lemma keeps_whenE [keeprules]: "(c \<Longrightarrow> keeps P m) \<Longrightarrow> keeps P (whenE c m)"
  by (cases c) simp_all

lemma keeps_if [keeprules]: "(c \<Longrightarrow> keeps P m) \<Longrightarrow> (\<not> c \<Longrightarrow> keeps P k) \<Longrightarrow> keeps P (if c then m else k)"
  by simp

lemma keeps_option [keeprules]:
  "(x = None \<Longrightarrow> keeps P m) \<Longrightarrow> (\<And>y. x = Some y \<Longrightarrow> keeps P (f y))
   \<Longrightarrow> keeps P (case x of None \<Rightarrow> m | Some y \<Rightarrow> f y)"
  by (cases x) simp_all

lemma keeps_catchE [keeprules]:
  "keeps P m \<Longrightarrow> (\<And>e k. h e = Some k \<Longrightarrow> keeps P k) \<Longrightarrow> keeps P (catchE m h)"
  unfolding keeps_def catchE_def
  by (fastforce split: prod.splits sum.splits option.splits)

lemma keeps_forE [keeprules]: "(\<And>x. x \<in> set xs \<Longrightarrow> keeps P (f x)) \<Longrightarrow> keeps P (forE xs f)"
  by (induction xs) (auto intro!: keeps_bindE)

section \<open>Dictionaries in insertion order\<close>

text \<open>
  Assigning to a present key replaces its value in place; a new key goes to the end. Iterating a
  dictionary follows the list.
\<close>

type_synonym ('k, 'v) dict = "('k \<times> 'v) list"

fun dict_set :: "'k \<Rightarrow> 'v \<Rightarrow> ('k, 'v) dict \<Rightarrow> ('k, 'v) dict" where
  "dict_set k v [] = [(k, v)]"
| "dict_set k v ((k', v') # d) = (if k' = k then (k, v) # d else (k', v') # dict_set k v d)"

abbreviation dict_get :: "('k, 'v) dict \<Rightarrow> 'k \<Rightarrow> 'v option" where
  "dict_get \<equiv> map_of"

definition dict_del :: "'k \<Rightarrow> ('k, 'v) dict \<Rightarrow> ('k, 'v) dict" where
  "dict_del k d = filter (\<lambda>(k', _). k' \<noteq> k) d"

abbreviation dict_keys :: "('k, 'v) dict \<Rightarrow> 'k list" where
  "dict_keys \<equiv> map fst"

abbreviation dict_values :: "('k, 'v) dict \<Rightarrow> 'v list" where
  "dict_values \<equiv> map snd"

lemma dict_get_set [simp]: "dict_get (dict_set k v d) = (dict_get d)(k \<mapsto> v)"
  by (induction d) auto

lemma keys_dict_set: "fst ` set (dict_set k v d) = insert k (fst ` set d)"
  by (induction k v d rule: dict_set.induct) auto

lemma distinct_dict_set: "distinct (dict_keys d) \<Longrightarrow> distinct (dict_keys (dict_set k v d))"
  by (induction d) (auto simp: keys_dict_set)

lemma dict_set_new: "dict_get d k = None \<Longrightarrow> dict_set k v d = d @ [(k, v)]"
  by (induction d) (auto split: if_splits)

lemma dict_set_upd: "dict_get d k = Some v' \<Longrightarrow> distinct (dict_keys d) \<Longrightarrow>
  dict_set k v d = map (\<lambda>(k', w). if k' = k then (k', v) else (k', w)) d"
  by (induction d) (force intro!: map_idI [symmetric])+

lemma dict_get_del [simp]: "dict_get (dict_del k d) = (dict_get d)(k := None)"
  by (induction d) (auto simp: dict_del_def fun_eq_iff)

lemma distinct_dict_del: "distinct (dict_keys d) \<Longrightarrow> distinct (dict_keys (dict_del k d))"
  by (induction d) (auto simp: dict_del_def)

lemma in_set_dict_iff: "distinct (dict_keys d) \<Longrightarrow> (k, v) \<in> set d \<longleftrightarrow> dict_get d k = Some v"
  by simp

lemma values_dict_iff:
  "distinct (dict_keys d) \<Longrightarrow> v \<in> set (dict_values d) \<longleftrightarrow> (\<exists>k. dict_get d k = Some v)"
  by force

section \<open>First occurrences\<close>

text \<open>The distinct elements of a list in the order in which they first occur (the key order of a
  dictionary filled from the list).\<close>

fun uniq :: "'a list \<Rightarrow> 'a list" where
  "uniq [] = []"
| "uniq (x # xs) = x # filter (\<lambda>y. y \<noteq> x) (uniq xs)"

lemma set_uniq [simp]: "set (uniq xs) = set xs"
  by (induction xs) auto

lemma distinct_uniq [simp]: "distinct (uniq xs)"
  by (induction xs) auto

lemma uniq_distinct: "distinct xs \<Longrightarrow> uniq xs = xs"
  by (induction xs) (auto simp: filter_id_conv)

lemma uniq_snoc: "uniq (xs @ [x]) = (if x \<in> set xs then uniq xs else uniq xs @ [x])"
  by (induction xs) (auto simp: filter_id_conv)

lemma filter_eq_single: "distinct (map f xs) \<Longrightarrow> x \<in> set xs \<Longrightarrow> filter (\<lambda>y. f y = f x) xs = [x]"
proof (induction xs)
  case (Cons a xs)
  show ?case
  proof (cases "x = a")
    case True
    with Cons.prems have "f x \<notin> f ` set xs" by simp
    then have "\<forall>y \<in> set xs. f y \<noteq> f x" by (metis imageI)
    with True show ?thesis by (simp add: filter_empty_conv)
  next
    case False
    with Cons.prems have "x \<in> set xs" "f a \<noteq> f x" by auto
    with Cons show ?thesis by simp
  qed
qed simp

text \<open>Grouping by a key that is injective on the list gives the list back.\<close>

lemma concat_groups_distinct:
  assumes "distinct (map f xs)"
  shows "concat (map (\<lambda>k. filter (\<lambda>y. f y = k) xs) (uniq (map f xs))) = xs"
proof -
  have "map (\<lambda>x. filter (\<lambda>y. f y = f x) xs) xs = map (\<lambda>x. [x]) xs"
    using filter_eq_single [OF assms] by simp
  then have "concat (map (\<lambda>x. filter (\<lambda>y. f y = f x) xs) xs) = xs"
    by (simp only: concat_map_singleton list.map_ident)
  then show ?thesis
    by (simp add: uniq_distinct [OF assms] comp_def)
qed

section \<open>Optional filters\<close>

text \<open>
  \<open>if x is not None and not p(x): return False\<close>, the shape of every clause of the repositories'
  filter functions.
\<close>

definition clause :: "'a option \<Rightarrow> ('a \<Rightarrow> bool) \<Rightarrow> bool" where
  "clause x p = (case x of None \<Rightarrow> True | Some a \<Rightarrow> p a)"

lemma clause_simps [simp]: "clause None p" "clause (Some a) p = p a"
  by (simp_all add: clause_def)

section \<open>Strings\<close>

text \<open>\<open>s.rsplit(c, 1)[-1]\<close>: what follows the last \<open>c\<close>, or the whole string.\<close>

definition after_last :: "char \<Rightarrow> string \<Rightarrow> string" where
  "after_last c s = rev (takeWhile (\<lambda>x. x \<noteq> c) (rev s))"

text \<open>\<open>s.split(c)\<close>: never empty, \<open>''.split(c)\<close> is the list of the empty string.\<close>

fun split_on :: "char \<Rightarrow> string \<Rightarrow> string list" where
  "split_on c [] = [[]]"
| "split_on c (x # xs) =
     (if x = c then [] # split_on c xs
      else (case split_on c xs of [] \<Rightarrow> [[x]] | w # ws \<Rightarrow> (x # w) # ws))"

text \<open>\<open>c.join(ws)\<close>.\<close>

fun join_with :: "char \<Rightarrow> string list \<Rightarrow> string" where
  "join_with c [] = []"
| "join_with c [w] = w"
| "join_with c (w # v # ws) = w @ c # join_with c (v # ws)"

lemma split_on_not_Nil [simp]: "split_on c s \<noteq> []"
  by (cases s) (auto split: list.splits)

lemma split_on_no_sep: "c \<notin> set s \<Longrightarrow> split_on c s = [s]"
  by (induction s) auto

lemma split_on_append_sep: "c \<notin> set w \<Longrightarrow> split_on c (w @ c # s) = w # split_on c s"
  by (induction w) auto

lemma split_join:
  "ws \<noteq> [] \<Longrightarrow> \<forall>w \<in> set ws. c \<notin> set w \<Longrightarrow> split_on c (join_with c ws) = ws"
  by (induction c ws rule: join_with.induct) (auto simp: split_on_no_sep split_on_append_sep)

lemma join_split [simp]: "join_with c (split_on c s) = s"
proof (induction s)
  case (Cons x xs)
  then show ?case
    by (cases "split_on c xs"; cases "tl (split_on c xs)") (auto split: list.splits)
qed simp

lemma after_last_no_sep: "c \<notin> set s \<Longrightarrow> after_last c s = s"
  unfolding after_last_def by (subst takeWhile_eq_all_conv [THEN iffD2]) auto

lemma after_last_append: "c \<notin> set s \<Longrightarrow> after_last c (p @ c # s) = s"
  unfolding after_last_def by (simp, subst takeWhile_append2) auto

end
