(* ===== verification/Agg_Base.thy ===== *)
theory Agg_Base
  imports Prelude
begin

text \<open>
  Basic data of the aggregate package: identifiers, times, the \<open>Action\<close> and \<open>TransactionStatus\<close>
  enumerations with their text forms (\<open>actions.py\<close>, \<open>transactions/entries.py\<close>), and the
  exceptions of \<open>exceptions.py\<close> together with the built-in ones the code raises.

  A \<open>UUID\<close> is its 128-bit integer value; the code compares, stores and masks it. A \<open>datetime\<close> is
  a number of microseconds; the code compares it and subtracts a duration.
\<close>

type_synonym uuid = nat
type_synonym datetime = int
type_synonym bytes = "nat list"

definition NULL_UUID :: uuid where
  "NULL_UUID = 0"

text \<open>\<open>datetime.max\<close> in UTC.\<close>

definition NULL_DATETIME :: datetime where
  "NULL_DATETIME = 253402300799999999"

section \<open>Exceptions\<close>

text \<open>\<open>NonTermination\<close> is not an exception of the program: it is the outcome of a loop whose fuel ran
  out, used for the one loop that may run for ever.\<close>

datatype agg_error =
    ValueError
  | TypeError
  | KeyError
  | IndexError
  | AttributeError
  | NotProvidedException
  | MinosReqAttributeException
  | EventRepositoryException
  | EventRepositoryConflictException int
  | TransactionRepositoryConflictException
  | TransactionNotFoundException
  | SnapshotRepositoryConflictException
  | NotFoundException
  | AlreadyDeletedException
  | ResponseException
  | ProgrammingException
  | IntegrityException
  | NonTermination

section \<open>Action\<close>

datatype Action = CREATE | UPDATE | DELETE

definition Action_members :: "Action list" where
  "Action_members = [CREATE, UPDATE, DELETE]"

fun Action_value :: "Action \<Rightarrow> string" where
  "Action_value CREATE = ''create''"
| "Action_value UPDATE = ''update''"
| "Action_value DELETE = ''delete''"

fun first_with :: "('a \<Rightarrow> string) \<Rightarrow> string \<Rightarrow> 'a list \<Rightarrow> agg_error + 'a" where
  "first_with f v [] = Inl ValueError"
| "first_with f v (x # xs) = (if f x = v then Inr x else first_with f v xs)"

definition Action_value_of :: "string \<Rightarrow> agg_error + Action" where
  "Action_value_of v = first_with Action_value v Action_members"

definition is_create :: "Action \<Rightarrow> bool" where
  "is_create a \<longleftrightarrow> a = CREATE"

definition is_update :: "Action \<Rightarrow> bool" where
  "is_update a \<longleftrightarrow> a = UPDATE"

definition is_delete :: "Action \<Rightarrow> bool" where
  "is_delete a \<longleftrightarrow> a = DELETE"

section \<open>TransactionStatus\<close>

datatype TransactionStatus =
  PENDING | RESERVING | RESERVED | COMMITTING | COMMITTED | REJECTED

definition TransactionStatus_members :: "TransactionStatus list" where
  "TransactionStatus_members = [PENDING, RESERVING, RESERVED, COMMITTING, COMMITTED, REJECTED]"

fun TransactionStatus_value :: "TransactionStatus \<Rightarrow> string" where
  "TransactionStatus_value PENDING = ''pending''"
| "TransactionStatus_value RESERVING = ''reserving''"
| "TransactionStatus_value RESERVED = ''reserved''"
| "TransactionStatus_value COMMITTING = ''committing''"
| "TransactionStatus_value COMMITTED = ''committed''"
| "TransactionStatus_value REJECTED = ''rejected''"

definition TransactionStatus_value_of :: "string \<Rightarrow> agg_error + TransactionStatus" where
  "TransactionStatus_value_of v = first_with TransactionStatus_value v TransactionStatus_members"

lemma first_with_Inr: "first_with f v xs = Inr x \<Longrightarrow> x \<in> set xs \<and> f x = v"
  by (induction xs) (auto split: if_splits)

lemma first_with_Inl: "first_with f v xs = Inl e \<Longrightarrow> e = ValueError \<and> v \<notin> f ` set xs"
  by (induction xs) (auto split: if_splits)

lemma first_with_complete: "inj_on f (set xs) \<Longrightarrow> x \<in> set xs \<Longrightarrow> first_with f (f x) xs = Inr x"
  by (induction xs) (auto simp: inj_on_def)

lemma Action_value_of_value: "Action_value_of (Action_value a) = Inr a"
  by (cases a) (simp_all add: Action_value_of_def Action_members_def)

lemma TransactionStatus_value_of_value:
  "TransactionStatus_value_of (TransactionStatus_value st) = Inr st"
  by (cases st) (simp_all add: TransactionStatus_value_of_def TransactionStatus_members_def)

end
