(* ===== verification/Field_Diffs.thy ===== *)
theory Field_Diffs
  imports Agg_Base
begin

text \<open>
  Field values, incremental collections and field differences (\<open>collections.py\<close>,
  \<open>entities/collections.py\<close>, \<open>events/fields.py\<close>).

  A model field holds a plain value, an \<open>IncrementalSet\<close> of items, or an \<open>EntitySet\<close>, which is a
  dictionary of entities by identifier. A Python \<open>set\<close> is a list without repetitions (its
  iteration order); two such lists are the same set when they have the same elements, and two
  entity sets are equal when they are equal as dictionaries.
\<close>

section \<open>Values\<close>

datatype "value" =
    VNone
  | VBool bool
  | VInt int
  | VStr string
  | VUuid uuid
  | VTime datetime
  | VList "value list"

text \<open>An item of an incremental collection: a value object, or an entity with its identifier.\<close>

datatype item =
    ValueObject "value"
  | Entity (entity_uuid: uuid) (entity_fields: "(string, value) dict")

type_synonym pytype = string

datatype field_value =
    Plain "value"
  | ISet pytype "item list"
  | ESet pytype "(uuid, item) dict"

record field =
  f_type :: pytype
  f_value :: field_value

fun is_incremental_set :: "field_value \<Rightarrow> bool" where
  "is_incremental_set (Plain _) = False"
| "is_incremental_set (ISet _ _) = True"
| "is_incremental_set (ESet _ _) = True"

section \<open>IncrementalSet and EntitySet\<close>

text \<open>\<open>entity.uuid\<close>; a value object has no such attribute.\<close>

fun item_uuid :: "item \<Rightarrow> agg_error + uuid" where
  "item_uuid (ValueObject _) = Inl AttributeError"
| "item_uuid (Entity u _) = Inr u"

fun add :: "item \<Rightarrow> field_value \<Rightarrow> agg_error + field_value" where
  "add x (ISet t xs) = Inr (ISet t (if x \<in> set xs then xs else xs @ [x]))"
| "add x (ESet t d) = (case item_uuid x of Inl e \<Rightarrow> Inl e | Inr u \<Rightarrow> Inr (ESet t (dict_set u x d)))"
| "add x (Plain _) = Inl AttributeError"

fun discard :: "item \<Rightarrow> field_value \<Rightarrow> agg_error + field_value" where
  "discard x (ISet t xs) = Inr (ISet t (filter (\<lambda>y. y \<noteq> x) xs))"
| "discard x (ESet t d) = (case item_uuid x of Inl e \<Rightarrow> Inl e | Inr u \<Rightarrow> Inr (ESet t (dict_del u d)))"
| "discard x (Plain _) = Inl AttributeError"

definition entity_set_get :: "(uuid, item) dict \<Rightarrow> uuid \<Rightarrow> agg_error + item" where
  "entity_set_get d u = (case dict_get d u of None \<Rightarrow> Inl KeyError | Some x \<Rightarrow> Inr x)"

text \<open>\<open>EntitySet.__contains__\<close> of an item: an object without identifier is not contained.\<close>

fun entity_set_contains :: "(uuid, item) dict \<Rightarrow> item \<Rightarrow> bool" where
  "entity_set_contains d (ValueObject _) = False"
| "entity_set_contains d (Entity u _) = (dict_get d u \<noteq> None)"

text \<open>\<open>data_cls\<close>, the class of the items.\<close>

fun data_cls :: "field_value \<Rightarrow> pytype" where
  "data_cls (Plain _) = []"
| "data_cls (ISet t _) = t"
| "data_cls (ESet t _) = t"

type_synonym set_diff_entry = "Action \<times> item"

text \<open>
  \<open>IncrementalSetDiff._diff\<close>. \<open>new - old\<close> and \<open>old - new\<close> are the members of the first that the
  second does not contain, in the first's order; \<open>old & new\<close> are the members of \<open>new\<close> that \<open>old\<close>
  contains, and those whose value changed become updates (only with a \<open>get_fn\<close>, that is for an
  \<open>EntitySet\<close>).
\<close>

fun set_diff :: "field_value \<Rightarrow> field_value \<Rightarrow> agg_error + set_diff_entry list" where
  "set_diff (ISet _ new) (ISet _ old) = Inr (
     map (Pair CREATE) (filter (\<lambda>x. x \<notin> set old) new) @
     map (Pair DELETE) (filter (\<lambda>x. x \<notin> set new) old))"
| "set_diff (ESet _ new) (ESet _ old) = Inr (
     map (Pair CREATE) (filter (\<lambda>x. \<not> entity_set_contains old x) (dict_values new)) @
     map (Pair DELETE) (filter (\<lambda>x. \<not> entity_set_contains new x) (dict_values old)) @
     map (Pair UPDATE) (filter (\<lambda>x. entity_set_get old (entity_uuid x) \<noteq> Inr x)
       (filter (entity_set_contains old) (dict_values new))))"
| "set_diff _ _ = Inl TypeError"

section \<open>FieldDiff and FieldDiffContainer\<close>

datatype FieldDiff =
    FieldDiff (diff_name: string) (diff_type: pytype) (diff_value: field_value)
  | IncrementalFieldDiff (diff_name: string) (diff_type: pytype) (diff_item: item) (diff_action: Action)

fun is_incremental :: "FieldDiff \<Rightarrow> bool" where
  "is_incremental (FieldDiff _ _ _) = False"
| "is_incremental (IncrementalFieldDiff _ _ _ _) = True"

text \<open>
  The container is a bucket of differences under fresh random keys, in insertion order, so the
  list of differences is its content.
\<close>

type_synonym FieldDiffContainer = "FieldDiff list"

definition diff_group :: "FieldDiff list \<Rightarrow> string \<Rightarrow> FieldDiff list" where
  "diff_group ds k = filter (\<lambda>d. diff_name d = k) ds"

definition mapper_keys :: "FieldDiff list \<Rightarrow> string list" where
  "mapper_keys ds = uniq (map diff_name ds)"

definition mapper_ok :: "FieldDiff list \<Rightarrow> string \<Rightarrow> bool" where
  "mapper_ok ds k =
     (let g = diff_group ds k; types = uniq (map is_incremental g) in
      length types \<le> 1 \<and> \<not> (length g > 1 \<and> types = [False]))"

text \<open>\<open>_build_mapper\<close>: for each name, the type of its differences and the differences themselves.\<close>

definition build_mapper ::
  "FieldDiff list \<Rightarrow> agg_error + (string, bool \<times> FieldDiff list) dict" where
  "build_mapper ds =
     (if \<forall>k \<in> set (mapper_keys ds). mapper_ok ds k
      then Inr (map (\<lambda>k. (k, (\<forall>d \<in> set (diff_group ds k). is_incremental d), diff_group ds k)) (mapper_keys ds))
      else Inl ValueError)"

text \<open>\<open>FieldDiffContainer(diffs)\<close>: the constructor builds the mapper, which may refuse.\<close>

definition container :: "FieldDiff list \<Rightarrow> agg_error + FieldDiffContainer" where
  "container ds = (case build_mapper ds of Inl e \<Rightarrow> Inl e | Inr _ \<Rightarrow> Inr ds)"

definition container_empty :: FieldDiffContainer where
  "container_empty = []"

datatype 'a one_or_many = One 'a | Many "'a list"

text \<open>\<open>get_one(name)\<close>: one difference, or the list of them for an incremental field.\<close>

definition get_one :: "FieldDiffContainer \<Rightarrow> string \<Rightarrow> agg_error + FieldDiff one_or_many" where
  "get_one c name =
     (case build_mapper c of Inl e \<Rightarrow> Inl e
      | Inr m \<Rightarrow> (case dict_get m name of
           None \<Rightarrow> Inl KeyError
         | Some (inc, g) \<Rightarrow> (if inc then Inr (Many g)
             else (case g of [] \<Rightarrow> Inl IndexError | d # _ \<Rightarrow> Inr (One d)))))"

text \<open>\<open>get_all()\<close>: every name with what \<open>get_one\<close> answers for it.\<close>

definition get_all :: "FieldDiffContainer \<Rightarrow> (string \<times> (agg_error + FieldDiff one_or_many)) list" where
  "get_all c = map (\<lambda>k. (k, get_one c k)) (mapper_keys c)"

text \<open>\<open>flatten_values()\<close>: the differences grouped by name, names in order of first occurrence.\<close>

definition flatten_values :: "FieldDiffContainer \<Rightarrow> FieldDiff list" where
  "flatten_values c = concat (map (diff_group c) (mapper_keys c))"

definition flatten_items :: "FieldDiffContainer \<Rightarrow> (string \<times> FieldDiff) list" where
  "flatten_items c = map (\<lambda>d. (diff_name d, d)) (flatten_values c)"

text \<open>
  \<open>Field.__eq__\<close> on the fields of two entities: same value, same type. Values of set type compare
  as sets, entity sets as dictionaries.
\<close>

fun field_value_eq :: "field_value \<Rightarrow> field_value \<Rightarrow> bool" where
  "field_value_eq (Plain a) (Plain b) = (a = b)"
| "field_value_eq (ISet s xs) (ISet t ys) = (s = t \<and> set xs = set ys)"
| "field_value_eq (ESet s xs) (ESet t ys) = (s = t \<and> (\<forall>u \<in> set (dict_keys xs) \<union> set (dict_keys ys). dict_get xs u = dict_get ys u))"
| "field_value_eq _ _ = False"

definition field_eq :: "field \<Rightarrow> field \<Rightarrow> bool" where
  "field_eq a b \<longleftrightarrow> f_type a = f_type b \<and> field_value_eq (f_value a) (f_value b)"

text \<open>\<open>FieldDiffContainer._diff\<close>, one field and all of them.\<close>

definition diff_field :: "(string, field) dict \<Rightarrow> string \<times> field \<Rightarrow> agg_error + FieldDiff list" where
  "diff_field b nf = (case nf of (a_name, a_field) \<Rightarrow>
     (if (case dict_get b a_name of None \<Rightarrow> True | Some b_field \<Rightarrow> \<not> field_eq a_field b_field)
      then (if is_incremental_set (f_value a_field)
            then (case dict_get b a_name of
                    None \<Rightarrow> Inl KeyError
                  | Some b_field \<Rightarrow>
                      (case set_diff (f_value a_field) (f_value b_field) of
                         Inl e \<Rightarrow> Inl e
                       | Inr es \<Rightarrow> Inr (map (\<lambda>(act, x).
                           IncrementalFieldDiff a_name (data_cls (f_value a_field)) x act) es)))
            else Inr [FieldDiff a_name (f_type a_field) (f_value a_field)])
      else Inr []))"

fun diff_fields :: "(string, field) dict \<Rightarrow> (string, field) dict \<Rightarrow> agg_error + FieldDiff list" where
  "diff_fields [] b = Inr []"
| "diff_fields (nf # a) b =
     (case diff_field b nf of Inl e \<Rightarrow> Inl e
      | Inr ds \<Rightarrow> (case diff_fields a b of Inl e \<Rightarrow> Inl e | Inr ds' \<Rightarrow> Inr (ds @ ds')))"

definition from_difference ::
  "(string, field) dict \<Rightarrow> (string, field) dict \<Rightarrow> string set \<Rightarrow> agg_error + FieldDiffContainer" where
  "from_difference a b ignore =
     (case diff_fields a b of Inl e \<Rightarrow> Inl e
      | Inr ds \<Rightarrow> container (filter (\<lambda>d. diff_name d \<notin> ignore) ds))"

text \<open>\<open>from_model\<close>: every field as a plain difference.\<close>

definition from_model :: "(string, field) dict \<Rightarrow> string set \<Rightarrow> agg_error + FieldDiffContainer" where
  "from_model a ignore =
     container (filter (\<lambda>d. diff_name d \<notin> ignore)
       (map (\<lambda>(n, f). FieldDiff n (f_type f) (f_value f)) a))"

section \<open>Lemmas\<close>

lemma uniq_constant: "\<forall>x \<in> set xs. f x = c \<Longrightarrow> uniq (map f xs) = (if xs = [] then [] else [c])"
  by (induction xs) (simp_all split: if_splits)

lemma flatten_values_distinct: "distinct (map diff_name c) \<Longrightarrow> flatten_values c = c"
  unfolding flatten_values_def mapper_keys_def diff_group_def by (rule concat_groups_distinct)

lemma set_flatten_values [simp]: "set (flatten_values c) = set c"
  by (auto simp: flatten_values_def mapper_keys_def diff_group_def)

lemma flatten_values_Nil [simp]: "flatten_values [] = []"
  by (simp add: flatten_values_def mapper_keys_def)

lemma flatten_values_single [simp]: "flatten_values [d] = [d]"
  by (simp add: flatten_values_def mapper_keys_def diff_group_def)

lemma container_single [simp]: "container [d] = Inr [d]"
  by (simp add: container_def build_mapper_def mapper_keys_def mapper_ok_def diff_group_def)

text \<open>
  A list of differences is accepted when a name that occurs more than once has incremental
  differences only.
\<close>

lemma container_okI:
  assumes "\<And>d d'. d \<in> set ds \<Longrightarrow> d' \<in> set ds \<Longrightarrow> diff_name d = diff_name d' \<Longrightarrow>
      is_incremental d = is_incremental d'"
    and "\<And>k. length (filter (\<lambda>d. diff_name d = k \<and> \<not> is_incremental d) ds) \<le> 1"
  shows "container ds = Inr ds"
proof -
  have "mapper_ok ds k" if k: "k \<in> set (mapper_keys ds)" for k
  proof -
    let ?g = "diff_group ds k"
    from k obtain d where d: "d \<in> set ds" "diff_name d = k"
      by (auto simp: mapper_keys_def)
    have all: "\<forall>d' \<in> set ?g. is_incremental d' = is_incremental d"
    proof
      fix d' assume "d' \<in> set ?g"
      then have "d' \<in> set ds" "diff_name d' = diff_name d"
        by (simp_all add: diff_group_def d)
      with d(1) show "is_incremental d' = is_incremental d" by (intro assms(1))
    qed
    then have types: "uniq (map is_incremental ?g) = (if ?g = [] then [] else [is_incremental d])"
      by (rule uniq_constant)
    show ?thesis
    proof (cases "is_incremental d")
      case True
      with types show ?thesis by (simp add: mapper_ok_def Let_def)
    next
      case False
      with all have "?g = filter (\<lambda>d. diff_name d = k \<and> \<not> is_incremental d) ds"
        unfolding diff_group_def by (intro filter_cong refl) auto
      with assms(2) [of k] have "length ?g \<le> 1" by simp
      with types show ?thesis by (simp add: mapper_ok_def Let_def)
    qed
  qed
  then show ?thesis by (simp add: container_def build_mapper_def)
qed

end
