(* ===== verification/Event_Model.thy ===== *)
theory Event_Model
  imports Field_Diffs
begin

text \<open>
  The \<open>Event\<close> model (\<open>events/models.py\<close>) and the \<open>EventEntry\<close> row of the event repository
  (\<open>events/entries.py\<close>).

  An entry stores the field differences as Avro bytes. The binary encoding is the work of the
  Avro library, so the two conversions \<open>avro_bytes\<close> and \<open>from_avro_bytes\<close> are a parameter, the
  record \<open>codec\<close>; a theorem that depends on them assumes that decoding undoes encoding and that
  an encoded container is not the empty byte string.
\<close>

section \<open>Event\<close>

record Event =
  ev_uuid :: uuid
  ev_name :: string
  ev_version :: int
  ev_action :: Action
  ev_created_at :: datetime
  ev_fields_diff :: FieldDiffContainer

definition simplified_name :: "Event \<Rightarrow> string" where
  "simplified_name e = after_last (CHR ''.'') (ev_name e)"

definition event_lt :: "Event \<Rightarrow> Event \<Rightarrow> bool" where
  "event_lt a b \<longleftrightarrow> ev_version a < ev_version b"

text \<open>\<open>get_field(name, return_diff=False)\<close>: the value of the difference, or the list of items.\<close>

datatype field_arg = FieldValue field_value | FieldItems "item list"

definition get_field :: "Event \<Rightarrow> string \<Rightarrow> agg_error + field_arg" where
  "get_field e name =
     (case get_one (ev_fields_diff e) name of
        Inl x \<Rightarrow> Inl x
      | Inr (One d) \<Rightarrow> Inr (FieldValue (diff_value d))
      | Inr (Many ds) \<Rightarrow> Inr (FieldItems (map diff_item ds)))"

definition get_fields :: "Event \<Rightarrow> (string \<times> (agg_error + field_arg)) list" where
  "get_fields e = map (\<lambda>k. (k, get_field e k)) (mapper_keys (ev_fields_diff e))"

text \<open>\<open>decompose()\<close>: one event per difference.\<close>

definition decompose :: "Event \<Rightarrow> Event list" where
  "decompose e = map (\<lambda>d. e\<lparr>ev_fields_diff := [d]\<rparr>) (flatten_values (ev_fields_diff e))"

section \<open>EventEntry\<close>

record EventEntry =
  ee_uuid :: uuid
  ee_name :: string
  ee_version :: "int option"
  ee_data :: bytes
  ee_id :: "int option"
  ee_action :: "Action option"
  ee_created_at :: "datetime option"
  ee_transaction_uuid :: uuid

text \<open>The constructor takes the action as an \<open>Action\<close>, as its text, or not at all.\<close>

datatype action_arg = ActionNone | ActionStr string | ActionVal Action

definition EventEntry_init ::
  "uuid \<Rightarrow> string \<Rightarrow> int option \<Rightarrow> bytes \<Rightarrow> int option \<Rightarrow> action_arg \<Rightarrow> datetime option \<Rightarrow> uuid
   \<Rightarrow> agg_error + EventEntry" where
  "EventEntry_init u n v d i a c t =
     (case (case a of ActionNone \<Rightarrow> Inr None
            | ActionVal x \<Rightarrow> Inr (Some x)
            | ActionStr s \<Rightarrow> (case Action_value_of s of Inl e \<Rightarrow> Inl e | Inr x \<Rightarrow> Inr (Some x))) of
        Inl e \<Rightarrow> Inl e
      | Inr x \<Rightarrow> Inr \<lparr>ee_uuid = u, ee_name = n, ee_version = v, ee_data = d, ee_id = i,
                      ee_action = x, ee_created_at = c, ee_transaction_uuid = t\<rparr>)"

text \<open>\<open>as_raw()\<close> reads \<open>self.action.value\<close>, which an entry without action does not have.\<close>

definition as_raw :: "EventEntry \<Rightarrow> agg_error +
    (uuid \<times> string \<times> int option \<times> bytes \<times> int option \<times> string \<times> datetime option \<times> uuid)" where
  "as_raw e = (case ee_action e of
     None \<Rightarrow> Inl AttributeError
   | Some a \<Rightarrow> Inr (ee_uuid e, ee_name e, ee_version e, ee_data e, ee_id e, Action_value a,
                    ee_created_at e, ee_transaction_uuid e))"

text \<open>\<open>from_another(entry, transaction_uuid=...)\<close>: the raw form with the transaction replaced and
  the identifier cleared.\<close>

definition from_another :: "EventEntry \<Rightarrow> uuid \<Rightarrow> agg_error + EventEntry" where
  "from_another e tx = (case as_raw e of
     Inl x \<Rightarrow> Inl x
   | Inr (u, n, v, d, i, a, c, t) \<Rightarrow> EventEntry_init u n v d None (ActionStr a) c tx)"

record codec =
  avro_bytes :: "FieldDiffContainer \<Rightarrow> bytes"
  from_avro_bytes :: "bytes \<Rightarrow> FieldDiffContainer"

text \<open>\<open>from_event(event, transaction=...)\<close>: the version and the creation time are left to the
  repository.\<close>

definition from_event :: "codec \<Rightarrow> Event \<Rightarrow> uuid option \<Rightarrow> EventEntry" where
  "from_event c e tx =
     \<lparr>ee_uuid = ev_uuid e, ee_name = ev_name e, ee_version = None,
      ee_data = avro_bytes c (ev_fields_diff e), ee_id = None, ee_action = Some (ev_action e),
      ee_created_at = None,
      ee_transaction_uuid = (case tx of None \<Rightarrow> NULL_UUID | Some u \<Rightarrow> u)\<rparr>"

definition field_diff_container :: "codec \<Rightarrow> EventEntry \<Rightarrow> FieldDiffContainer" where
  "field_diff_container c e =
     (if ee_data e = [] then container_empty else from_avro_bytes c (ee_data e))"

text \<open>\<open>entry.event\<close>: the fields of \<open>Event\<close> are required ones.\<close>

definition entry_event :: "codec \<Rightarrow> EventEntry \<Rightarrow> agg_error + Event" where
  "entry_event c e =
     (case (ee_version e, ee_action e, ee_created_at e) of
        (Some v, Some a, Some t) \<Rightarrow>
          Inr \<lparr>ev_uuid = ee_uuid e, ev_name = ee_name e, ev_version = v, ev_action = a,
               ev_created_at = t, ev_fields_diff = field_diff_container c e\<rparr>
      | _ \<Rightarrow> Inl MinosReqAttributeException)"

section \<open>Lemmas\<close>

text \<open>What the code relies on of the Avro conversions.\<close>

definition codec_ok :: "codec \<Rightarrow> bool" where
  "codec_ok c \<longleftrightarrow> (\<forall>d. from_avro_bytes c (avro_bytes c d) = d) \<and> (\<forall>d. avro_bytes c d \<noteq> [])"

lemma from_another_eq:
  "ee_action e = Some a \<Longrightarrow> from_another e tx = Inr (e\<lparr>ee_id := None, ee_transaction_uuid := tx\<rparr>)"
  by (simp add: from_another_def as_raw_def EventEntry_init_def Action_value_of_value)

lemma from_another_None: "ee_action e = None \<Longrightarrow> from_another e tx = Inl AttributeError"
  by (simp add: from_another_def as_raw_def)

lemma field_diff_container_from_event:
  "codec_ok c \<Longrightarrow> field_diff_container c (from_event c e tx) = ev_fields_diff e"
  by (simp add: field_diff_container_def from_event_def codec_ok_def)

lemma event_roundtrip:
  assumes "codec_ok c"
  shows "entry_event c ((from_event c e tx)\<lparr>ee_version := Some (ev_version e),
           ee_created_at := Some (ev_created_at e), ee_id := i\<rparr>) = Inr e"
  using assms by (simp add: entry_event_def from_event_def field_diff_container_def codec_ok_def)

text \<open>The events of a decomposition carry the same differences, each one alone.\<close>

lemma decompose_diffs: "concat (map ev_fields_diff (decompose e)) = flatten_values (ev_fields_diff e)"
  by (simp add: decompose_def comp_def concat_map_singleton [where f = id, simplified])

lemma decompose_frame: "d \<in> set (decompose e) \<Longrightarrow> ev_uuid d = ev_uuid e \<and> ev_name d = ev_name e
    \<and> ev_version d = ev_version e \<and> ev_action d = ev_action e \<and> ev_created_at d = ev_created_at e"
  by (auto simp: decompose_def)

end
