(* ===== verification/Transaction_Store.thy ===== *)
theory Transaction_Store
  imports Agg_Base
begin

text \<open>
  Transaction entries and the two transaction repositories: \<open>InMemoryTransactionRepository\<close>
  (\<open>transactions/repositories/memory.py\<close>) and \<open>DatabaseTransactionRepository\<close>
  (\<open>transactions/repositories/database/impl.py\<close>) over the PostgreSQL statements of
  \<open>AiopgTransactionDatabaseOperationFactory\<close> (\<open>plugins/aiopg/factories/aggregate/transactions.py\<close>).

  The database statements are read as operations on the table, with SQL's meaning of \<open>NULL\<close> in a
  comparison (the row is not selected) where Python raises a \<open>TypeError\<close>. The locale
  \<open>transaction_store\<close> is the contract both repositories meet; the transaction protocol is proved
  against it.
\<close>

section \<open>TransactionEntry\<close>

text \<open>
  The value the database returns for \<open>updated_at\<close> is the fetched row, not its only column:
  \<open>DatabaseTransactionRepository._submit\<close> stores the result of \<open>execute_on_database_and_fetch_one\<close>
  as it is.
\<close>

datatype timestamp = At datetime | AtRow datetime

record tx_core =
  te_uuid :: uuid
  te_status :: TransactionStatus
  te_event_offset :: "int option"
  te_destination_uuid :: uuid
  te_updated_at :: "timestamp option"

text \<open>
  The entry object adds the autocommit flag, its context token and whether it is the very object
  the repository stores. A token is the stack of the entries that were active when the entry
  became the current one: \<open>token.old_value\<close> is its head, and the head's own token holds the
  rest. An in-memory \<open>select\<close> hands out the stored objects themselves, so assigning to their
  attributes changes the storage; \<open>te_shared\<close> marks such an entry.
\<close>

record TransactionEntry = tx_core +
  te_autocommit :: bool
  te_token :: "tx_core list option"
  te_shared :: bool

definition core_of :: "TransactionEntry \<Rightarrow> tx_core" where
  "core_of e = tx_core.truncate e"

definition entry_of :: "bool \<Rightarrow> tx_core \<Rightarrow> TransactionEntry" where
  "entry_of sh c = tx_core.extend c \<lparr>te_autocommit = True, te_token = None, te_shared = sh\<rparr>"

section \<open>Queries\<close>

record tx_query =
  tq_uuid :: "uuid option"
  tq_uuid_ne :: "uuid option"
  tq_uuid_in :: "uuid list option"
  tq_destination_uuid :: "uuid option"
  tq_status :: "TransactionStatus option"
  tq_status_in :: "TransactionStatus list option"
  tq_event_offset :: "int option"
  tq_event_offset_lt :: "int option"
  tq_event_offset_gt :: "int option"
  tq_event_offset_le :: "int option"
  tq_event_offset_ge :: "int option"
  tq_updated_at :: "datetime option"
  tq_updated_at_lt :: "datetime option"
  tq_updated_at_gt :: "datetime option"
  tq_updated_at_le :: "datetime option"
  tq_updated_at_ge :: "datetime option"

definition tx_all :: tx_query where
  "tx_all = \<lparr>tq_uuid = None, tq_uuid_ne = None, tq_uuid_in = None, tq_destination_uuid = None,
     tq_status = None, tq_status_in = None, tq_event_offset = None, tq_event_offset_lt = None,
     tq_event_offset_gt = None, tq_event_offset_le = None, tq_event_offset_ge = None,
     tq_updated_at = None, tq_updated_at_lt = None, tq_updated_at_gt = None,
     tq_updated_at_le = None, tq_updated_at_ge = None\<rparr>"

section \<open>Status transitions\<close>

text \<open>
  The transitions the repositories accept for a stored transaction. This is the specification;
  the two implementations below are translated from their own code.
\<close>

fun transition :: "TransactionStatus \<Rightarrow> TransactionStatus \<Rightarrow> bool" where
  "transition PENDING st = (st \<in> {PENDING, RESERVING, REJECTED})"
| "transition RESERVING st = (st \<in> {RESERVED, REJECTED})"
| "transition RESERVED st = (st \<in> {COMMITTING, REJECTED})"
| "transition COMMITTING st = (st = COMMITTED)"
| "transition COMMITTED st = False"
| "transition REJECTED st = False"

section \<open>InMemoryTransactionRepository\<close>

type_synonym mem_tx = "(uuid, tx_core) dict"

definition mem_tx_conflict :: "TransactionStatus \<Rightarrow> TransactionStatus \<Rightarrow> bool" where
  "mem_tx_conflict status new \<longleftrightarrow>
     (status = PENDING \<and> new \<notin> {PENDING, RESERVING, REJECTED})
     \<or> (status = RESERVING \<and> new \<notin> {RESERVED, REJECTED})
     \<or> (status = RESERVED \<and> new \<notin> {COMMITTING, REJECTED})
     \<or> (status = COMMITTING \<and> new \<notin> {COMMITTED})
     \<or> status = COMMITTED
     \<or> status = REJECTED"

text \<open>
  Assigning an attribute of a shared entry, as \<open>save\<close> and \<open>_submit\<close> do, is visible in the storage
  at once.
\<close>

definition mem_tx_assign :: "TransactionEntry \<Rightarrow> mem_tx \<Rightarrow> mem_tx" where
  "mem_tx_assign e d =
     (if te_shared e \<and> dict_get d (te_uuid e) \<noteq> None then dict_set (te_uuid e) (core_of e) d else d)"

definition mem_tx_submit ::
  "datetime \<Rightarrow> TransactionEntry \<Rightarrow> mem_tx \<Rightarrow> (agg_error + TransactionEntry) \<times> mem_tx" where
  "mem_tx_submit now e d =
     (let e = e\<lparr>te_updated_at := Some (At now)\<rparr>; d = mem_tx_assign e d in
      if (case dict_get d (te_uuid e) of
            None \<Rightarrow> False
          | Some old \<Rightarrow> mem_tx_conflict (te_status old) (te_status e))
      then (Inl TransactionRepositoryConflictException, d)
      else (Inr (e\<lparr>te_shared := False\<rparr>), dict_set (te_uuid e) (core_of e) d))"

text \<open>The filter function, clause by clause; comparing with a missing attribute raises.\<close>

fun all_clauses :: "(agg_error + bool) list \<Rightarrow> agg_error + bool" where
  "all_clauses [] = Inr True"
| "all_clauses (c # cs) =
     (case c of Inl e \<Rightarrow> Inl e | Inr False \<Rightarrow> Inr False | Inr True \<Rightarrow> all_clauses cs)"

definition py_cmp :: "'a option \<Rightarrow> ('a \<Rightarrow> 'b \<Rightarrow> bool) \<Rightarrow> 'b option \<Rightarrow> agg_error + bool" where
  "py_cmp q p x = (case q of None \<Rightarrow> Inr True
     | Some a \<Rightarrow> (case x of None \<Rightarrow> Inl TypeError | Some b \<Rightarrow> Inr (\<not> p a b)))"

definition time_of :: "timestamp option \<Rightarrow> datetime option" where
  "time_of t = (case t of Some (At x) \<Rightarrow> Some x | _ \<Rightarrow> None)"

definition mem_tx_filter :: "tx_query \<Rightarrow> tx_core \<Rightarrow> agg_error + bool" where
  "mem_tx_filter q t = all_clauses
     [Inr (clause (tq_uuid q) (\<lambda>u. u = te_uuid t)),
      Inr (clause (tq_uuid_ne q) (\<lambda>u. u \<noteq> te_uuid t)),
      Inr (clause (tq_uuid_in q) (\<lambda>us. te_uuid t \<in> set us)),
      Inr (clause (tq_destination_uuid q) (\<lambda>u. u = te_destination_uuid t)),
      Inr (clause (tq_status q) (\<lambda>x. x = te_status t)),
      Inr (clause (tq_status_in q) (\<lambda>xs. te_status t \<in> set xs)),
      Inr (clause (tq_event_offset q) (\<lambda>x. Some x = te_event_offset t)),
      py_cmp (tq_event_offset_lt q) (\<lambda>a b. a \<le> b) (te_event_offset t),
      py_cmp (tq_event_offset_gt q) (\<lambda>a b. a \<ge> b) (te_event_offset t),
      py_cmp (tq_event_offset_le q) (\<lambda>a b. a < b) (te_event_offset t),
      py_cmp (tq_event_offset_ge q) (\<lambda>a b. a > b) (te_event_offset t),
      Inr (clause (tq_updated_at q) (\<lambda>x. Some x = time_of (te_updated_at t))),
      py_cmp (tq_updated_at_lt q) (\<lambda>a b. a \<le> b) (time_of (te_updated_at t)),
      py_cmp (tq_updated_at_gt q) (\<lambda>a b. a \<ge> b) (time_of (te_updated_at t)),
      py_cmp (tq_updated_at_le q) (\<lambda>a b. a < b) (time_of (te_updated_at t)),
      py_cmp (tq_updated_at_ge q) (\<lambda>a b. a > b) (time_of (te_updated_at t))]"

fun filterE :: "('a \<Rightarrow> 'e + bool) \<Rightarrow> 'a list \<Rightarrow> 'e + 'a list" where
  "filterE p [] = Inr []"
| "filterE p (x # xs) =
     (case p x of Inl e \<Rightarrow> Inl e
      | Inr b \<Rightarrow> (case filterE p xs of Inl e \<Rightarrow> Inl e
          | Inr ys \<Rightarrow> Inr (if b then x # ys else ys)))"

definition mem_tx_select :: "tx_query \<Rightarrow> mem_tx \<Rightarrow> agg_error + TransactionEntry list" where
  "mem_tx_select q d = map_sum id (map (entry_of True)) (filterE (mem_tx_filter q) (dict_values d))"

section \<open>DatabaseTransactionRepository over PostgreSQL\<close>

type_synonym db_tx = "(uuid, tx_core) dict"

text \<open>\<open>build_submit\<close>: the condition of the \<open>DO UPDATE\<close>.\<close>

definition db_tx_where :: "tx_core \<Rightarrow> TransactionEntry \<Rightarrow> bool" where
  "db_tx_where t e \<longleftrightarrow>
     te_destination_uuid t = te_destination_uuid e
     \<and> \<not> (te_status t = PENDING \<and> te_status e \<notin> {PENDING, RESERVING, REJECTED})
     \<and> \<not> (te_status t = RESERVING \<and> te_status e \<notin> {RESERVED, REJECTED})
     \<and> \<not> (te_status t = RESERVED \<and> te_status e \<notin> {COMMITTING, REJECTED})
     \<and> \<not> (te_status t = COMMITTING \<and> te_status e \<notin> {COMMITTED})
     \<and> \<not> te_status t = COMMITTED
     \<and> \<not> te_status t = REJECTED"

text \<open>
  \<open>_submit\<close>: a new row, or the update of status, offset and time of the present one, or no row at
  all, for which \<open>fetch_one\<close> raises a \<open>ProgrammingException\<close>.
\<close>

definition db_tx_submit ::
  "datetime \<Rightarrow> TransactionEntry \<Rightarrow> db_tx \<Rightarrow> (agg_error + TransactionEntry) \<times> db_tx" where
  "db_tx_submit now e d =
     (case dict_get d (te_uuid e) of
        None \<Rightarrow>
          (Inr (e\<lparr>te_updated_at := Some (AtRow now)\<rparr>),
           dict_set (te_uuid e) ((core_of e)\<lparr>te_updated_at := Some (At now)\<rparr>) d)
      | Some t \<Rightarrow>
          (if db_tx_where t e
           then (Inr (e\<lparr>te_updated_at := Some (AtRow now)\<rparr>),
                 dict_set (te_uuid e) (t\<lparr>te_status := te_status e, te_event_offset := te_event_offset e,
                   te_updated_at := Some (At now)\<rparr>) d)
           else (Inl TransactionRepositoryConflictException, d)))"

definition sql_cmp :: "'a option \<Rightarrow> ('b \<Rightarrow> 'a \<Rightarrow> bool) \<Rightarrow> 'b option \<Rightarrow> bool" where
  "sql_cmp q p x = clause q (\<lambda>a. case x of None \<Rightarrow> False | Some b \<Rightarrow> p b a)"

text \<open>\<open>build_query\<close>: the conjunction of the conditions.\<close>

definition db_tx_filter :: "tx_query \<Rightarrow> tx_core \<Rightarrow> bool" where
  "db_tx_filter q t \<longleftrightarrow>
     clause (tq_uuid q) (\<lambda>u. u = te_uuid t)
     \<and> clause (tq_uuid_ne q) (\<lambda>u. u \<noteq> te_uuid t)
     \<and> clause (tq_uuid_in q) (\<lambda>us. te_uuid t \<in> set us)
     \<and> clause (tq_destination_uuid q) (\<lambda>u. u = te_destination_uuid t)
     \<and> clause (tq_status q) (\<lambda>x. x = te_status t)
     \<and> clause (tq_status_in q) (\<lambda>xs. te_status t \<in> set xs)
     \<and> sql_cmp (tq_event_offset q) (\<lambda>b a. b = a) (te_event_offset t)
     \<and> sql_cmp (tq_event_offset_lt q) (\<lambda>b a. b < a) (te_event_offset t)
     \<and> sql_cmp (tq_event_offset_gt q) (\<lambda>b a. b > a) (te_event_offset t)
     \<and> sql_cmp (tq_event_offset_le q) (\<lambda>b a. b \<le> a) (te_event_offset t)
     \<and> sql_cmp (tq_event_offset_ge q) (\<lambda>b a. b \<ge> a) (te_event_offset t)
     \<and> sql_cmp (tq_updated_at q) (\<lambda>b a. b = a) (time_of (te_updated_at t))
     \<and> sql_cmp (tq_updated_at_lt q) (\<lambda>b a. b < a) (time_of (te_updated_at t))
     \<and> sql_cmp (tq_updated_at_gt q) (\<lambda>b a. b > a) (time_of (te_updated_at t))
     \<and> sql_cmp (tq_updated_at_le q) (\<lambda>b a. b \<le> a) (time_of (te_updated_at t))
     \<and> sql_cmp (tq_updated_at_ge q) (\<lambda>b a. b \<ge> a) (time_of (te_updated_at t))"

text \<open>\<open>ORDER BY event_offset\<close>: ascending, rows without offset last, rows with equal offsets in
  table order.\<close>

definition order_by_offset :: "tx_core list \<Rightarrow> tx_core list" where
  "order_by_offset ts =
     sort_key (\<lambda>t. the (te_event_offset t)) (filter (\<lambda>t. te_event_offset t \<noteq> None) ts)
     @ filter (\<lambda>t. te_event_offset t = None) ts"

definition db_tx_select :: "tx_query \<Rightarrow> db_tx \<Rightarrow> agg_error + TransactionEntry list" where
  "db_tx_select q d = Inr (map (entry_of False) (order_by_offset (filter (db_tx_filter q) (dict_values d))))"

section \<open>The contract\<close>

text \<open>
  What the transaction protocol needs of a repository: a successful submission stores exactly the
  submitted entry and only along an admissible transition; a refused one changes nothing and is
  the conflict exception; a refusal only happens for an inadmissible transition or a changed
  destination; a selection by identifiers, destination and statuses returns the stored entries
  that match, each once.
\<close>

definition simple_query :: "tx_query \<Rightarrow> bool" where
  "simple_query q \<longleftrightarrow> tq_event_offset_lt q = None \<and> tq_event_offset_gt q = None
     \<and> tq_event_offset_le q = None \<and> tq_event_offset_ge q = None
     \<and> tq_updated_at_lt q = None \<and> tq_updated_at_gt q = None
     \<and> tq_updated_at_le q = None \<and> tq_updated_at_ge q = None"

locale transaction_store =
  fixes submit :: "datetime \<Rightarrow> TransactionEntry \<Rightarrow> 't \<Rightarrow> (agg_error + TransactionEntry) \<times> 't"
    and select :: "tx_query \<Rightarrow> 't \<Rightarrow> agg_error + TransactionEntry list"
    and lookup :: "'t \<Rightarrow> uuid \<Rightarrow> tx_core option"
    and inv :: "'t \<Rightarrow> bool"
  assumes submit_ok: "\<lbrakk>inv d; \<not> te_shared e; submit now e d = (Inr e', d')\<rbrakk> \<Longrightarrow>
      inv d' \<and> lookup d' = (lookup d)(te_uuid e \<mapsto> (core_of e)\<lparr>te_updated_at := Some (At now)\<rparr>)
      \<and> (\<forall>t. lookup d (te_uuid e) = Some t \<longrightarrow> transition (te_status t) (te_status e))
      \<and> te_uuid e' = te_uuid e \<and> te_status e' = te_status e \<and> te_event_offset e' = te_event_offset e
      \<and> te_destination_uuid e' = te_destination_uuid e \<and> te_autocommit e' = te_autocommit e
      \<and> te_token e' = te_token e \<and> \<not> te_shared e'"
    and submit_refused: "\<lbrakk>inv d; \<not> te_shared e; submit now e d = (Inl x, d')\<rbrakk> \<Longrightarrow>
      d' = d \<and> x = TransactionRepositoryConflictException \<and>
      (\<exists>t. lookup d (te_uuid e) = Some t \<and>
        \<not> (transition (te_status t) (te_status e) \<and> te_destination_uuid t = te_destination_uuid e))"
    and lookup_key: "inv d \<Longrightarrow> lookup d u = Some t \<Longrightarrow> te_uuid t = u"
    and select_ok: "\<lbrakk>inv d; simple_query q\<rbrakk> \<Longrightarrow> \<exists>es. select q d = Inr es \<and>
      core_of ` set es = {t. lookup d (te_uuid t) = Some t \<and> db_tx_filter q t}
      \<and> (\<forall>e \<in> set es. te_token e = None)"
begin

text \<open>A transition to a terminal status is final: no submission changes the entry again.\<close>

lemma terminal_stays:
  assumes "inv d" and "lookup d u = Some t" and "te_status t \<in> {COMMITTED, REJECTED}"
    and "\<not> te_shared e" and "te_uuid e = u"
  shows "submit now e d = (Inl TransactionRepositoryConflictException, d)"
proof (cases "submit now e d")
  case (Pair r d')
  show ?thesis
  proof (cases r)
    case (Inl x)
    with Pair submit_refused [OF assms(1,4)] show ?thesis by auto
  next
    case (Inr e')
    with Pair submit_ok [OF assms(1,4)] assms(2,5)
    have "transition (te_status t) (te_status e)" by auto
    with assms(3) show ?thesis by auto
  qed
qed

lemma submit_admissible:
  assumes "inv d" and "\<not> te_shared e"
    and "\<And>t. lookup d (te_uuid e) = Some t \<Longrightarrow>
       transition (te_status t) (te_status e) \<and> te_destination_uuid t = te_destination_uuid e"
  shows "\<exists>e' d'. submit now e d = (Inr e', d')"
proof (cases "submit now e d")
  case (Pair r d')
  show ?thesis
  proof (cases r)
    case (Inl x)
    with Pair submit_refused [OF assms(1,2)] assms(3) show ?thesis by blast
  next
    case (Inr e')
    with Pair show ?thesis by blast
  qed
qed

lemma submit_keeps_others:
  assumes "inv d" and "\<not> te_shared e" and "submit now e d = (r, d')" and "u \<noteq> te_uuid e"
  shows "lookup d' u = lookup d u"
proof (cases r)
  case (Inl x)
  with submit_refused assms(1-3) have "d' = d" by blast
  then show ?thesis by simp
next
  case (Inr e')
  with submit_ok assms(1-3)
  have "lookup d' = (lookup d)(te_uuid e \<mapsto> (core_of e)\<lparr>te_updated_at := Some (At now)\<rparr>)" by blast
  with assms(4) show ?thesis by simp
qed

lemma submit_inv:
  assumes "inv d" and "\<not> te_shared e" and "submit now e d = (r, d')"
  shows "inv d'"
  using assms submit_ok submit_refused by (cases r) blast+

text \<open>\<open>get\<close> is the first of a selection by identifier.\<close>

lemma select_uuid:
  assumes "inv d"
  shows "\<exists>es. select (tx_all\<lparr>tq_uuid := Some u\<rparr>) d = Inr es \<and>
    (case lookup d u of None \<Rightarrow> es = []
     | Some t \<Rightarrow> es \<noteq> [] \<and> core_of (hd es) = t \<and> te_token (hd es) = None)"
proof -
  let ?q = "tx_all\<lparr>tq_uuid := Some u\<rparr>"
  have "simple_query ?q" by (simp add: simple_query_def tx_all_def)
  then obtain es where es: "select ?q d = Inr es"
    "core_of ` set es = {t. lookup d (te_uuid t) = Some t \<and> db_tx_filter ?q t}"
    "\<forall>e \<in> set es. te_token e = None"
    using select_ok [OF assms] by blast
  have filt: "db_tx_filter ?q t \<longleftrightarrow> te_uuid t = u" for t
    by (auto simp: db_tx_filter_def tx_all_def sql_cmp_def)
  show ?thesis
  proof (cases "lookup d u")
    case None
    with es filt have "core_of ` set es = {}" by auto
    with es None show ?thesis by simp
  next
    case (Some t)
    have "{t. lookup d (te_uuid t) = Some t \<and> te_uuid t = u} = {t}"
      using Some lookup_key [OF assms Some] by auto
    with es(2) filt have all: "core_of ` set es = {t}" by simp
    then obtain x xs where "es = x # xs" by (cases es) auto
    with all es(3) have "es \<noteq> []" "core_of (hd es) = t" "te_token (hd es) = None" by auto
    with es(1) Some show ?thesis by simp
  qed
qed

end

section \<open>Both repositories meet the contract\<close>

definition tx_inv :: "(uuid, tx_core) dict \<Rightarrow> bool" where
  "tx_inv d \<longleftrightarrow> distinct (dict_keys d) \<and> (\<forall>(u, t) \<in> set d. te_uuid t = u)"

lemma mem_tx_conflict_iff: "mem_tx_conflict a b \<longleftrightarrow> \<not> transition a b"
  by (cases a; cases b) (simp_all add: mem_tx_conflict_def)

lemma db_tx_where_iff:
  "db_tx_where t e \<longleftrightarrow> te_destination_uuid t = te_destination_uuid e \<and> transition (te_status t) (te_status e)"
  by (cases "te_status t"; cases "te_status e") (simp_all add: db_tx_where_def)

lemma core_of_simps [simp]:
  "te_uuid (core_of e) = te_uuid e" "te_status (core_of e) = te_status e"
  "te_event_offset (core_of e) = te_event_offset e"
  "te_destination_uuid (core_of e) = te_destination_uuid e"
  "te_updated_at (core_of e) = te_updated_at e"
  by (simp_all add: core_of_def tx_core.truncate_def)

lemma core_of_updated_at [simp]:
  "core_of (e\<lparr>te_updated_at := x\<rparr>) = (core_of e)\<lparr>te_updated_at := x\<rparr>"
  "core_of (e\<lparr>te_shared := b\<rparr>) = core_of e"
  by (simp_all add: core_of_def tx_core.truncate_def)

lemma entry_of_simps [simp]:
  "te_uuid (entry_of b c) = te_uuid c" "te_status (entry_of b c) = te_status c"
  "te_event_offset (entry_of b c) = te_event_offset c"
  "te_destination_uuid (entry_of b c) = te_destination_uuid c"
  "te_updated_at (entry_of b c) = te_updated_at c"
  "te_shared (entry_of b c) = b" "te_autocommit (entry_of b c)" "te_token (entry_of b c) = None"
  "core_of (entry_of b c) = c"
  by (simp_all add: entry_of_def core_of_def tx_core.truncate_def tx_core.extend_def)

lemma tx_inv_set: "tx_inv d \<Longrightarrow> te_uuid t = u \<Longrightarrow> tx_inv (dict_set u t d)"
  unfolding tx_inv_def
  by (auto simp: distinct_dict_set)
     (induction d, auto split: if_splits)

lemma tx_inv_key: "tx_inv d \<Longrightarrow> dict_get d u = Some t \<Longrightarrow> te_uuid t = u"
  by (auto simp: tx_inv_def dest!: map_of_SomeD)

lemma tx_inv_values: "tx_inv d \<Longrightarrow> set (dict_values d) = {t. dict_get d (te_uuid t) = Some t}"
  by (force simp: tx_inv_def)

lemma tx_row_update:
  "te_uuid t = te_uuid e \<Longrightarrow> te_destination_uuid t = te_destination_uuid e \<Longrightarrow>
   m(u \<mapsto> t\<lparr>te_status := te_status e, te_event_offset := te_event_offset e, te_updated_at := x\<rparr>)
   = m(u \<mapsto> (core_of e)\<lparr>te_updated_at := x\<rparr>)"
  by (cases t) (simp add: core_of_def tx_core.truncate_def)

lemma filterE_total: "(\<And>x. x \<in> set xs \<Longrightarrow> p x = Inr (q x)) \<Longrightarrow> filterE p xs = Inr (filter q xs)"
  by (induction xs) auto

lemma all_clauses_True: "all_clauses cs = Inr True \<longleftrightarrow> (\<forall>c \<in> set cs. c = Inr True)"
  by (induction cs) (auto split: sum.splits bool.splits)

lemma all_clauses_total: "\<forall>c \<in> set cs. \<exists>b. c = Inr b \<Longrightarrow> \<exists>b. all_clauses cs = Inr b"
  by (induction cs) (auto split: bool.splits)

lemma clause_iff: "clause q p \<longleftrightarrow> (\<forall>a. q = Some a \<longrightarrow> p a)"
  by (cases q) auto

lemma py_sql_cmp:
  "py_cmp q (\<lambda>a b. a \<le> b) x = Inr True \<longleftrightarrow> sql_cmp q (\<lambda>b a. b < a) (x :: int option)"
  "py_cmp q (\<lambda>a b. a \<ge> b) x = Inr True \<longleftrightarrow> sql_cmp q (\<lambda>b a. b > a) x"
  "py_cmp q (\<lambda>a b. a < b) x = Inr True \<longleftrightarrow> sql_cmp q (\<lambda>b a. b \<le> a) x"
  "py_cmp q (\<lambda>a b. a > b) x = Inr True \<longleftrightarrow> sql_cmp q (\<lambda>b a. b \<ge> a) x"
  "clause q (\<lambda>a. Some a = x) \<longleftrightarrow> sql_cmp q (\<lambda>b a. b = a) x"
  by (cases q; cases x; auto simp: py_cmp_def sql_cmp_def)+

text \<open>Where Python's filter answers, it selects exactly the rows of the SQL condition.\<close>

lemma mem_tx_filter_True: "mem_tx_filter q t = Inr True \<longleftrightarrow> db_tx_filter q t"
  unfolding mem_tx_filter_def db_tx_filter_def all_clauses_True
  by (simp only: list.set ball_simps py_sql_cmp sum.inject eq_True simp_thms)

lemma py_cmp_None [simp]: "py_cmp None p x = Inr True"
  by (simp add: py_cmp_def)

lemma mem_tx_filter_simple:
  assumes "simple_query q"
  shows "mem_tx_filter q t = Inr (db_tx_filter q t)"
proof -
  have "\<exists>b. mem_tx_filter q t = Inr b"
    unfolding mem_tx_filter_def
    by (rule all_clauses_total) (use assms in \<open>auto simp: simple_query_def\<close>)
  then show ?thesis
    using mem_tx_filter_True [of q t] by auto
qed

lemma set_order_by_offset [simp]: "set (order_by_offset ts) = set ts"
  by (auto simp: order_by_offset_def)

interpretation mem_tx: transaction_store mem_tx_submit mem_tx_select dict_get tx_inv
proof (unfold_locales, goal_cases)
  case (1 d e now e' d')
  then show ?case
    by (auto simp: mem_tx_submit_def mem_tx_assign_def Let_def mem_tx_conflict_iff tx_inv_set
        split: if_splits option.splits)
next
  case (2 d e now x d')
  then show ?case
    by (auto simp: mem_tx_submit_def mem_tx_assign_def Let_def mem_tx_conflict_iff
        split: if_splits option.splits)
next
  case (3 d u t)
  then show ?case by (rule tx_inv_key)
next
  case (4 d q)
  then have "filterE (mem_tx_filter q) (dict_values d) = Inr (filter (db_tx_filter q) (dict_values d))"
    by (intro filterE_total mem_tx_filter_simple)
  with tx_inv_values [OF 4(1)] show ?case
    by (auto simp: mem_tx_select_def image_image)
qed

interpretation db_tx: transaction_store db_tx_submit db_tx_select dict_get tx_inv
proof (unfold_locales, goal_cases)
  case (1 d e now e' d')
  then show ?case
    by (auto simp: db_tx_submit_def db_tx_where_iff tx_inv_set dest: tx_inv_key
        intro!: tx_row_update tx_inv_set split: if_splits option.splits)
next
  case (2 d e now x d')
  then show ?case
    by (auto simp: db_tx_submit_def db_tx_where_iff split: if_splits option.splits)
next
  case (3 d u t)
  then show ?case by (rule tx_inv_key)
next
  case (4 d q)
  with tx_inv_values [OF 4(1)] show ?case
    by (auto simp: db_tx_select_def image_image)
qed

end
