(* ===== verification/Event_Store.thy ===== *)
theory Event_Store
  imports Event_Model Transaction_Store
begin

text \<open>
  The two event repositories below \<open>EventRepository\<close>: \<open>InMemoryEventRepository\<close>
  (\<open>events/repositories/memory.py\<close>) and \<open>DatabaseEventRepository\<close>
  (\<open>events/repositories/database/impl.py\<close>) over the PostgreSQL statements of
  \<open>AiopgEventDatabaseOperationFactory\<close> (\<open>plugins/aiopg/factories/aggregate/events.py\<close>).

  \<open>_submit\<close> takes the current time, the identifier a random generator would return next and, for
  the database, the function that gives the chain of transactions around an entry
  (\<open>transaction.uuids\<close>). The locale \<open>event_store\<close> is the contract of an append-only log that both
  meet; \<open>keyed_event_store\<close> adds the uniqueness of (uuid, version, transaction), which only the
  database keeps.
\<close>

section \<open>Queries\<close>

record event_query =
  eq_uuid :: "uuid option"
  eq_name :: "string option"
  eq_version :: "int option"
  eq_version_lt :: "int option"
  eq_version_gt :: "int option"
  eq_version_le :: "int option"
  eq_version_ge :: "int option"
  eq_id :: "int option"
  eq_id_lt :: "int option"
  eq_id_gt :: "int option"
  eq_id_le :: "int option"
  eq_id_ge :: "int option"
  eq_transaction_uuid :: "uuid option"
  eq_transaction_uuid_ne :: "uuid option"
  eq_transaction_uuid_in :: "uuid list option"

definition ev_all :: event_query where
  "ev_all = \<lparr>eq_uuid = None, eq_name = None, eq_version = None, eq_version_lt = None,
     eq_version_gt = None, eq_version_le = None, eq_version_ge = None, eq_id = None,
     eq_id_lt = None, eq_id_gt = None, eq_id_le = None, eq_id_ge = None,
     eq_transaction_uuid = None, eq_transaction_uuid_ne = None, eq_transaction_uuid_in = None\<rparr>"

type_synonym event_key = "string \<times> uuid \<times> uuid"

section \<open>InMemoryEventRepository\<close>

record mem_events =
  me_storage :: "EventEntry list"
  me_id_generator :: int
  me_next_versions :: "(event_key, int) dict"

definition mem_events_init :: mem_events where
  "mem_events_init = \<lparr>me_storage = [], me_id_generator = 0, me_next_versions = []\<rparr>"

definition get_next_version_id :: "EventEntry \<Rightarrow> mem_events \<Rightarrow> int \<times> mem_events" where
  "get_next_version_id e s =
     (let key = (ee_name e, ee_uuid e, ee_transaction_uuid e);
          n = (case dict_get (me_next_versions s) key of None \<Rightarrow> 0 | Some n \<Rightarrow> n) + 1
      in (n, s\<lparr>me_next_versions := dict_set key n (me_next_versions s)\<rparr>))"

definition generate_next_id :: "mem_events \<Rightarrow> int \<times> mem_events" where
  "generate_next_id s = (me_id_generator s + 1, s\<lparr>me_id_generator := me_id_generator s + 1\<rparr>)"

definition mem_ev_offset :: "mem_events \<Rightarrow> int" where
  "mem_ev_offset s = int (length (me_storage s))"

definition mem_ev_submit ::
  "datetime \<Rightarrow> uuid \<Rightarrow> (uuid \<Rightarrow> agg_error + uuid list) \<Rightarrow> EventEntry \<Rightarrow> mem_events
   \<Rightarrow> (agg_error + EventEntry) \<times> mem_events" where
  "mem_ev_submit now fresh chain e s =
     (let e = (if ee_uuid e = NULL_UUID then e\<lparr>ee_uuid := fresh\<rparr> else e);
          (next_version, s) = get_next_version_id e s;
          e = (if ee_version e = None then e\<lparr>ee_version := Some next_version\<rparr> else e)
      in if the (ee_version e) < next_version
         then (Inl (EventRepositoryConflictException (mem_ev_offset s)), s)
         else
           let e = (if ee_created_at e = None then e\<lparr>ee_created_at := Some now\<rparr> else e);
               (i, s) = generate_next_id s;
               e = e\<lparr>ee_id := Some i\<rparr>
           in (Inr e, s\<lparr>me_storage := me_storage s @ [e]\<rparr>))"

definition mem_ev_filter :: "event_query \<Rightarrow> EventEntry \<Rightarrow> agg_error + bool" where
  "mem_ev_filter q e = all_clauses
     [Inr (clause (eq_uuid q) (\<lambda>u. u = ee_uuid e)),
      Inr (clause (eq_name q) (\<lambda>n. n = ee_name e)),
      Inr (clause (eq_version q) (\<lambda>v. Some v = ee_version e)),
      py_cmp (eq_version_lt q) (\<lambda>a b. a \<le> b) (ee_version e),
      py_cmp (eq_version_gt q) (\<lambda>a b. a \<ge> b) (ee_version e),
      py_cmp (eq_version_le q) (\<lambda>a b. a < b) (ee_version e),
      py_cmp (eq_version_ge q) (\<lambda>a b. a > b) (ee_version e),
      Inr (clause (eq_id q) (\<lambda>i. Some i = ee_id e)),
      py_cmp (eq_id_lt q) (\<lambda>a b. a \<le> b) (ee_id e),
      py_cmp (eq_id_gt q) (\<lambda>a b. a \<ge> b) (ee_id e),
      py_cmp (eq_id_le q) (\<lambda>a b. a < b) (ee_id e),
      py_cmp (eq_id_ge q) (\<lambda>a b. a > b) (ee_id e),
      Inr (clause (eq_transaction_uuid q) (\<lambda>u. u = ee_transaction_uuid e)),
      Inr (clause (eq_transaction_uuid_ne q) (\<lambda>u. u \<noteq> ee_transaction_uuid e)),
      Inr (clause (eq_transaction_uuid_in q) (\<lambda>us. ee_transaction_uuid e \<in> set us))]"

definition mem_ev_select :: "event_query \<Rightarrow> mem_events \<Rightarrow> agg_error + EventEntry list" where
  "mem_ev_select q s = filterE (mem_ev_filter q) (me_storage s)"

section \<open>DatabaseEventRepository over PostgreSQL\<close>

text \<open>The table and the sequence behind \<open>BIGSERIAL\<close>, which a failed insertion advances too.\<close>

record db_events =
  de_rows :: "EventEntry list"
  de_sequence :: int

definition db_events_init :: db_events where
  "db_events_init = \<lparr>de_rows = [], de_sequence = 0\<rparr>"

text \<open>The advisory lock of an entity: the low 32 bits of its identifier.\<close>

definition submit_lock :: "uuid \<Rightarrow> nat option" where
  "submit_lock u = (if u \<noteq> NULL_UUID then Some (u mod 2 ^ 32) else None)"

text \<open>
  \<open>_build_submit_from\<close>: per transaction of the chain, the greatest version of the entity there, with
  the position of the transaction; no row for a transaction without events of the entity.
\<close>

definition submit_from :: "uuid \<Rightarrow> uuid list \<Rightarrow> EventEntry list \<Rightarrow> (nat \<times> int) list" where
  "submit_from u txs rows =
     concat (map (\<lambda>(i, t).
       (let vs = map (\<lambda>r. the (ee_version r))
                   (filter (\<lambda>r. ee_uuid r = u \<and> ee_transaction_uuid r = t) rows)
        in if vs = [] then [] else [(i, Max (set vs))])) (zip [1..<Suc (length txs)] txs))"

text \<open>\<open>DISTINCT ON ... ORDER BY transaction_index DESC\<close> keeps the last part.\<close>

definition next_version_sql :: "uuid \<Rightarrow> uuid list \<Rightarrow> EventEntry list \<Rightarrow> int" where
  "next_version_sql u txs rows =
     1 + (case rev (submit_from u txs rows) of [] \<Rightarrow> 0 | (_, v) # _ \<Rightarrow> v)"

definition same_key :: "EventEntry \<Rightarrow> EventEntry \<Rightarrow> bool" where
  "same_key a b \<longleftrightarrow> ee_uuid a = ee_uuid b \<and> ee_version a = ee_version b
     \<and> ee_transaction_uuid a = ee_transaction_uuid b"

definition build_submit ::
  "datetime \<Rightarrow> uuid \<Rightarrow> uuid list \<Rightarrow> EventEntry \<Rightarrow> db_events \<Rightarrow> EventEntry" where
  "build_submit now fresh txs e s = e\<lparr>
     ee_id := Some (de_sequence s + 1),
     ee_uuid := (if ee_uuid e = NULL_UUID then fresh else ee_uuid e),
     ee_version := Some (case ee_version e of
        None \<Rightarrow> next_version_sql (ee_uuid e) txs (de_rows s) | Some v \<Rightarrow> v),
     ee_created_at := Some (case ee_created_at e of None \<Rightarrow> now | Some t \<Rightarrow> t)\<rparr>"

definition db_ev_offset :: "db_events \<Rightarrow> int" where
  "db_ev_offset s = (if de_rows s = [] then 0 else Max (set (map (\<lambda>r. the (ee_id r)) (de_rows s))))"

text \<open>The chain is looked up before the statement runs; a statement that violates
  \<open>UNIQUE (uuid, version, transaction_uuid)\<close> is the conflict exception.\<close>

definition db_ev_submit ::
  "datetime \<Rightarrow> uuid \<Rightarrow> (uuid \<Rightarrow> agg_error + uuid list) \<Rightarrow> EventEntry \<Rightarrow> db_events
   \<Rightarrow> (agg_error + EventEntry) \<times> db_events" where
  "db_ev_submit now fresh chain e s =
     (case (if ee_transaction_uuid e \<noteq> NULL_UUID then chain (ee_transaction_uuid e)
            else Inr [NULL_UUID]) of
        Inl x \<Rightarrow> (Inl x, s)
      | Inr txs \<Rightarrow>
          (case as_raw e of
             Inl x \<Rightarrow> (Inl x, s)
           | Inr _ \<Rightarrow>
              (let row = build_submit now fresh txs e s;
                   s = s\<lparr>de_sequence := de_sequence s + 1\<rparr>
               in if \<exists>r \<in> set (de_rows s). same_key r row
                  then (Inl (EventRepositoryConflictException (db_ev_offset s)), s)
                  else (Inr row, s\<lparr>de_rows := de_rows s @ [row]\<rparr>))))"

definition db_ev_filter :: "event_query \<Rightarrow> EventEntry \<Rightarrow> bool" where
  "db_ev_filter q e \<longleftrightarrow>
     clause (eq_uuid q) (\<lambda>u. ee_uuid e = u)
     \<and> clause (eq_name q) (\<lambda>n. ee_name e = n)
     \<and> sql_cmp (eq_version q) (\<lambda>b a. b = a) (ee_version e)
     \<and> sql_cmp (eq_version_lt q) (\<lambda>b a. b < a) (ee_version e)
     \<and> sql_cmp (eq_version_gt q) (\<lambda>b a. b > a) (ee_version e)
     \<and> sql_cmp (eq_version_le q) (\<lambda>b a. b \<le> a) (ee_version e)
     \<and> sql_cmp (eq_version_ge q) (\<lambda>b a. b \<ge> a) (ee_version e)
     \<and> sql_cmp (eq_id q) (\<lambda>b a. b = a) (ee_id e)
     \<and> sql_cmp (eq_id_lt q) (\<lambda>b a. b < a) (ee_id e)
     \<and> sql_cmp (eq_id_gt q) (\<lambda>b a. b > a) (ee_id e)
     \<and> sql_cmp (eq_id_le q) (\<lambda>b a. b \<le> a) (ee_id e)
     \<and> sql_cmp (eq_id_ge q) (\<lambda>b a. b \<ge> a) (ee_id e)
     \<and> clause (eq_transaction_uuid q) (\<lambda>u. ee_transaction_uuid e = u)
     \<and> clause (eq_transaction_uuid_ne q) (\<lambda>u. ee_transaction_uuid e \<noteq> u)
     \<and> clause (eq_transaction_uuid_in q) (\<lambda>us. ee_transaction_uuid e \<in> set us)"

text \<open>\<open>ORDER BY id\<close>.\<close>

definition db_ev_select :: "event_query \<Rightarrow> db_events \<Rightarrow> agg_error + EventEntry list" where
  "db_ev_select q s = Inr (sort_key (\<lambda>r. the (ee_id r)) (filter (db_ev_filter q) (de_rows s)))"

section \<open>The contract\<close>

text \<open>
  A stored entry is complete; identifiers grow along the log; the offset is the identifier of the
  newest entry.
\<close>

definition stored :: "EventEntry \<Rightarrow> bool" where
  "stored e \<longleftrightarrow> ee_id e \<noteq> None \<and> ee_version e \<noteq> None \<and> ee_created_at e \<noteq> None"

definition log_ok :: "EventEntry list \<Rightarrow> bool" where
  "log_ok rows \<longleftrightarrow> (\<forall>e \<in> set rows. stored e) \<and> sorted_wrt (<) (0 # map (\<lambda>e. the (ee_id e)) rows)"

definition log_offset :: "EventEntry list \<Rightarrow> int" where
  "log_offset rows = (if rows = [] then 0 else the (ee_id (last rows)))"

lemma log_ok_offset: "log_ok rows \<Longrightarrow> x \<in> set rows \<Longrightarrow> the (ee_id x) \<le> log_offset rows"
  by (cases rows rule: rev_cases) (auto simp: log_ok_def log_offset_def sorted_wrt_append)

lemma log_ok_append: "log_ok (rows @ [r]) \<longleftrightarrow> log_ok rows \<and> stored r \<and> log_offset rows < the (ee_id r)"
proof (cases rows rule: rev_cases)
  case (snoc ys y)
  then show ?thesis
    by (auto simp: log_ok_def log_offset_def sorted_wrt_append)
qed (auto simp: log_ok_def log_offset_def)

text \<open>What a successful submission stores for the entry it was given.\<close>

definition completes :: "datetime \<Rightarrow> uuid \<Rightarrow> EventEntry \<Rightarrow> EventEntry \<Rightarrow> bool" where
  "completes now fresh e r \<longleftrightarrow>
     ee_uuid r = (if ee_uuid e = NULL_UUID then fresh else ee_uuid e)
     \<and> ee_name r = ee_name e \<and> ee_data r = ee_data e \<and> ee_action r = ee_action e
     \<and> ee_transaction_uuid r = ee_transaction_uuid e
     \<and> ee_created_at r = Some (case ee_created_at e of None \<Rightarrow> now | Some t \<Rightarrow> t)
     \<and> stored r \<and> (ee_version e \<noteq> None \<longrightarrow> ee_version r = ee_version e)"

locale event_store =
  fixes ev_sub :: "datetime \<Rightarrow> uuid \<Rightarrow> (uuid \<Rightarrow> agg_error + uuid list) \<Rightarrow> EventEntry \<Rightarrow> 'e
      \<Rightarrow> (agg_error + EventEntry) \<times> 'e"
    and ev_sel :: "event_query \<Rightarrow> 'e \<Rightarrow> agg_error + EventEntry list"
    and ev_off :: "'e \<Rightarrow> int"
    and log_of :: "'e \<Rightarrow> EventEntry list"
    and einv :: "'e \<Rightarrow> bool"
  assumes einv_log: "einv s \<Longrightarrow> log_ok (log_of s)"
    and ev_submit_ok: "\<lbrakk>einv s; ev_sub now fresh chain e s = (Inr r, s')\<rbrakk> \<Longrightarrow>
      einv s' \<and> log_of s' = log_of s @ [r] \<and> completes now fresh e r"
    and ev_submit_refused: "\<lbrakk>einv s; ev_sub now fresh chain e s = (Inl x, s')\<rbrakk> \<Longrightarrow>
      einv s' \<and> log_of s' = log_of s"
    and ev_select_ok: "einv s \<Longrightarrow> ev_sel q s = Inr (filter (db_ev_filter q) (log_of s))"
    and ev_offset_ok: "einv s \<Longrightarrow> ev_off s = log_offset (log_of s)"
begin

text \<open>An accepted entry gets an identifier above every earlier one, and becomes the offset.\<close>

lemma ev_submit_newest:
  assumes "einv s" "ev_sub now fresh chain e s = (Inr r, s')"
  shows "ev_off s' = the (ee_id r)" "ev_off s < ev_off s'" "\<And>x. x \<in> set (log_of s) \<Longrightarrow> the (ee_id x) \<le> ev_off s"
proof -
  note ok = ev_submit_ok [OF assms]
  have log: "log_ok (log_of s @ [r])"
    using ok einv_log [of s'] by simp
  show "ev_off s' = the (ee_id r)"
    using ok by (simp add: ev_offset_ok log_offset_def)
  then show "ev_off s < ev_off s'"
    using log by (simp add: ev_offset_ok [OF assms(1)] log_ok_append)
  show "the (ee_id x) \<le> ev_off s" if "x \<in> set (log_of s)" for x
    using log_ok_offset [OF einv_log [OF assms(1)] that] by (simp add: ev_offset_ok [OF assms(1)])
qed

text \<open>The offset never moves back, whatever the outcome.\<close>

lemma ev_offset_mono:
  assumes "einv s" "ev_sub now fresh chain e s = (res, s')"
  shows "ev_off s \<le> ev_off s'"
proof (cases res)
  case (Inl x)
  with assms show ?thesis
    using ev_submit_refused [of s now fresh chain e x s'] by (simp add: ev_offset_ok)
next
  case (Inr r)
  with ev_submit_newest(2) [OF assms(1), of now fresh chain e r s'] assms show ?thesis by simp
qed

end

locale keyed_event_store = event_store +
  assumes einv_keys: "einv s \<Longrightarrow> distinct (map (\<lambda>e. (ee_uuid e, ee_version e, ee_transaction_uuid e)) (log_of s))"
    and ev_submit_accepts: "\<lbrakk>einv s; ee_action e \<noteq> None; ee_version e \<noteq> None; ee_uuid e \<noteq> NULL_UUID;
      ee_transaction_uuid e = NULL_UUID \<or> (\<exists>us. chain (ee_transaction_uuid e) = Inr us);
      \<forall>x \<in> set (log_of s). \<not> same_key x e\<rbrakk> \<Longrightarrow> \<exists>r s'. ev_sub now fresh chain e s = (Inr r, s')"

section \<open>Both repositories meet the contract\<close>

definition mem_ev_inv :: "mem_events \<Rightarrow> bool" where
  "mem_ev_inv s \<longleftrightarrow> log_ok (me_storage s)
     \<and> me_id_generator s = int (length (me_storage s)) \<and> log_offset (me_storage s) = me_id_generator s"

definition db_ev_inv :: "db_events \<Rightarrow> bool" where
  "db_ev_inv s \<longleftrightarrow> log_ok (de_rows s) \<and> log_offset (de_rows s) \<le> de_sequence s
     \<and> distinct (map (\<lambda>e. (ee_uuid e, ee_version e, ee_transaction_uuid e)) (de_rows s))"

lemma mem_ev_filter_True: "mem_ev_filter q e = Inr True \<longleftrightarrow> db_ev_filter q e"
proof -
  have swap: "clause x (\<lambda>u. u = a) = clause x (\<lambda>u. a = u)" "clause x (\<lambda>u. u \<noteq> a) = clause x (\<lambda>u. a \<noteq> u)"
    for a :: 'b and x
    by (simp_all add: eq_commute)
  show ?thesis
    unfolding mem_ev_filter_def db_ev_filter_def all_clauses_True
    by (simp only: list.set ball_simps py_sql_cmp sum.inject eq_True simp_thms swap)
qed

lemma py_cmp_Some: "\<exists>b. py_cmp q p (Some x) = Inr b"
  by (cases q) (auto simp: py_cmp_def)

lemma mem_ev_filter_stored:
  assumes "stored e"
  shows "mem_ev_filter q e = Inr (db_ev_filter q e)"
proof -
  obtain i v where iv: "ee_id e = Some i" "ee_version e = Some v"
    using assms by (auto simp: stored_def)
  have "\<exists>b. mem_ev_filter q e = Inr b"
    unfolding mem_ev_filter_def iv
    by (rule all_clauses_total) (simp add: py_cmp_Some)
  then show ?thesis
    using mem_ev_filter_True [of q e] by auto
qed

lemma log_offset_append [simp]: "log_offset (rows @ [r]) = the (ee_id r)"
  by (simp add: log_offset_def)

lemma mem_ev_submit_cases:
  "mem_ev_submit now fresh chain e s =
     (let n = (case dict_get (me_next_versions s) (ee_name e, if ee_uuid e = NULL_UUID then fresh else ee_uuid e,
                 ee_transaction_uuid e) of None \<Rightarrow> 0 | Some n \<Rightarrow> n) + 1;
          u = (if ee_uuid e = NULL_UUID then fresh else ee_uuid e);
          s1 = s\<lparr>me_next_versions := dict_set (ee_name e, u, ee_transaction_uuid e) n (me_next_versions s)\<rparr>;
          v = (case ee_version e of None \<Rightarrow> n | Some v \<Rightarrow> v);
          r = e\<lparr>ee_uuid := u, ee_version := Some v, ee_id := Some (me_id_generator s + 1),
                ee_created_at := Some (case ee_created_at e of None \<Rightarrow> now | Some t \<Rightarrow> t)\<rparr>
      in if v < n then (Inl (EventRepositoryConflictException (mem_ev_offset s)), s1)
         else (Inr r, s1\<lparr>me_id_generator := me_id_generator s + 1, me_storage := me_storage s @ [r]\<rparr>))"
  by (cases e)
     (auto simp: mem_ev_submit_def get_next_version_id_def generate_next_id_def mem_ev_offset_def Let_def
       split: option.splits)

interpretation mem_ev: event_store mem_ev_submit mem_ev_select mem_ev_offset me_storage mem_ev_inv
proof (unfold_locales, goal_cases)
  case (1 s)
  then show ?case by (simp add: mem_ev_inv_def)
next
  case (2 s now fresh chain e r s')
  then show ?case
    by (auto simp: mem_ev_submit_cases Let_def mem_ev_inv_def log_ok_append stored_def completes_def
        split: if_splits option.splits)
next
  case (3 s now fresh chain e x s')
  then show ?case
    by (auto simp: mem_ev_submit_cases Let_def mem_ev_inv_def split: if_splits)
next
  case (4 s q)
  then show ?case
    by (auto simp: mem_ev_select_def mem_ev_inv_def log_ok_def intro!: filterE_total mem_ev_filter_stored)
next
  case (5 s)
  then show ?case by (simp add: mem_ev_offset_def mem_ev_inv_def)
qed

lemma db_ev_submit_ok:
  "db_ev_submit now fresh chain e s = (Inr r, s') \<Longrightarrow>
     (\<exists>txs. (if ee_transaction_uuid e \<noteq> NULL_UUID then chain (ee_transaction_uuid e)
              else Inr [NULL_UUID]) = Inr txs \<and> r = build_submit now fresh txs e s)
     \<and> s' = \<lparr>de_rows = de_rows s @ [r], de_sequence = de_sequence s + 1\<rparr>
     \<and> (\<forall>x \<in> set (de_rows s). \<not> same_key x r)"
  by (auto simp: db_ev_submit_def Let_def split: sum.splits if_splits)

lemma db_ev_submit_refused:
  "db_ev_submit now fresh chain e s = (Inl x, s') \<Longrightarrow>
     de_rows s' = de_rows s \<and> de_sequence s \<le> de_sequence s'"
  by (auto simp: db_ev_submit_def Let_def split: sum.splits if_splits)

lemma Max_log: "log_ok rows \<Longrightarrow> rows \<noteq> [] \<Longrightarrow> Max ((\<lambda>r. the (ee_id r)) ` set rows) = log_offset rows"
  by (rule Max_eqI) (auto dest: log_ok_offset simp: log_offset_def)

lemma sort_log: "log_ok rows \<Longrightarrow> sort_key (\<lambda>r. the (ee_id r)) (filter p rows) = filter p rows"
proof -
  assume "log_ok rows"
  then have "sorted (map (\<lambda>r. the (ee_id r)) rows)"
    by (simp add: log_ok_def strict_sorted_iff)
  then show ?thesis
    by (intro sort_key_id_if_sorted sorted_filter)
qed

interpretation db_ev: keyed_event_store db_ev_submit db_ev_select db_ev_offset de_rows db_ev_inv
proof (unfold_locales, goal_cases)
  case (1 s)
  then show ?case by (simp add: db_ev_inv_def)
next
  case (2 s now fresh chain e r s')
  from db_ev_submit_ok [OF 2(2)] 2(1) show ?case
    by (auto simp: db_ev_inv_def log_ok_append build_submit_def stored_def completes_def same_key_def
        split: option.splits)
next
  case (3 s now fresh chain e x s')
  from db_ev_submit_refused [OF 3(2)] 3(1) show ?case
    by (simp add: db_ev_inv_def)
next
  case (4 s q)
  then show ?case by (simp add: db_ev_select_def sort_log db_ev_inv_def)
next
  case (5 s)
  then show ?case by (auto simp: db_ev_offset_def db_ev_inv_def Max_log log_offset_def)
next
  case (6 s)
  then show ?case by (simp add: db_ev_inv_def)
next
  case (7 s e chain now fresh)
  then obtain a v where "ee_action e = Some a" "ee_version e = Some v" by blast
  with 7 show ?case
    by (auto simp: db_ev_submit_def as_raw_def build_submit_def same_key_def Let_def)
qed

end
