(* ===== verification/Transactions.thy ===== *)
theory Transactions
  imports Event_Store
begin

text \<open>
  The transaction protocol: \<open>EventRepository\<close> (\<open>events/repositories/abc.py\<close>), the methods of
  \<open>TransactionEntry\<close> (\<open>transactions/entries.py\<close>), \<open>TransactionRepository.get\<close> and the message
  handlers of \<open>TransactionService\<close> (\<open>transactions/services.py\<close>).

  The record \<open>repos\<close> holds the methods of the two repositories in use, as the injected objects of
  the program do; the protocol is defined once over it. The record \<open>world\<close> is what those methods
  read and write: the two stores, the messages handed to the broker publisher, the stack of active
  transactions (\<open>TRANSACTION_CONTEXT_VAR\<close>), the serialization flag, the clock and the state of the
  identifier generator.

  Code under a write lock runs without another holder of the lock in between, so the body of
  \<open>submit\<close> and of \<open>reserve\<close> is one step. An asynchronous iteration over a selection is a loop over
  the list selected at its start.
\<close>

section \<open>The world\<close>

record message =
  msg_topic :: string
  msg_content :: Event

record ('e, 't) repos =
  r_ev_submit :: "datetime \<Rightarrow> uuid \<Rightarrow> (uuid \<Rightarrow> agg_error + uuid list) \<Rightarrow> EventEntry \<Rightarrow> 'e
    \<Rightarrow> (agg_error + EventEntry) \<times> 'e"
  r_ev_select :: "event_query \<Rightarrow> 'e \<Rightarrow> agg_error + EventEntry list"
  r_ev_offset :: "'e \<Rightarrow> int"
  r_tx_submit :: "datetime \<Rightarrow> TransactionEntry \<Rightarrow> 't \<Rightarrow> (agg_error + TransactionEntry) \<times> 't"
  r_tx_select :: "tx_query \<Rightarrow> 't \<Rightarrow> agg_error + TransactionEntry list"
  r_tx_assign :: "TransactionEntry \<Rightarrow> 't \<Rightarrow> 't"
  r_codec :: codec
  r_uuid4 :: "nat \<Rightarrow> uuid"

record ('e, 't) world =
  w_events :: 'e
  w_txs :: 't
  w_sent :: "message list"
  w_ctx :: "tx_core list"
  w_serializing :: bool
  w_now :: datetime
  w_uuid4 :: nat

type_synonym ('e, 't, 'a) wop = "(('e, 't) world, agg_error, 'a) op"

text \<open>A method of a transaction entry also changes the entry itself.\<close>

type_synonym ('e, 't, 'a) txop = "(TransactionEntry \<times> ('e, 't) world, agg_error, 'a) op"

definition worldE :: "('e, 't, 'a) wop \<Rightarrow> ('e, 't, 'a) txop" where
  "worldE m = (\<lambda>(e, w). case m w of (r, w') \<Rightarrow> (r, (e, w')))"

definition selfE :: "(TransactionEntry \<Rightarrow> 'a) \<Rightarrow> ('e, 't, 'a) txop" where
  "selfE f = getsE (\<lambda>(e, w). f e)"

definition on_entry :: "TransactionEntry \<Rightarrow> ('e, 't, 'a) txop \<Rightarrow> ('e, 't, 'a) wop" where
  "on_entry e m = (\<lambda>w. case m (e, w) of (r, (_, w')) \<Rightarrow> (r, w'))"

section \<open>TransactionRepository\<close>

definition tx_select :: "('e, 't) repos \<Rightarrow> tx_query \<Rightarrow> ('e, 't, TransactionEntry list) wop" where
  "tx_select R q = (\<lambda>w. (r_tx_select R q (w_txs w), w))"

definition get_in :: "('e, 't) repos \<Rightarrow> 't \<Rightarrow> uuid \<Rightarrow> agg_error + TransactionEntry" where
  "get_in R t u = (case r_tx_select R (tx_all\<lparr>tq_uuid := Some u\<rparr>) t of
     Inl x \<Rightarrow> Inl x
   | Inr [] \<Rightarrow> Inl TransactionNotFoundException
   | Inr (e # _) \<Rightarrow> Inr e)"

definition tx_get :: "('e, 't) repos \<Rightarrow> uuid \<Rightarrow> ('e, 't, TransactionEntry) wop" where
  "tx_get R u = (\<lambda>w. (get_in R (w_txs w) u, w))"

section \<open>The chain of transactions\<close>

text \<open>\<open>destination\<close>: the entry that was current when this one was entered, or the stored one.\<close>

definition destination ::
  "('e, 't) repos \<Rightarrow> 't \<Rightarrow> TransactionEntry \<Rightarrow> agg_error + TransactionEntry option" where
  "destination R t e =
     (if te_destination_uuid e = NULL_UUID then Inr None
      else (case te_token e of
         Some (outer # rest) \<Rightarrow> Inr (Some ((entry_of False outer)\<lparr>te_token := Some rest\<rparr>))
       | _ \<Rightarrow> (case get_in R t (te_destination_uuid e) of Inl x \<Rightarrow> Inl x | Inr d \<Rightarrow> Inr (Some d))))"

text \<open>
  The loop of \<open>uuids\<close>. Stored transactions whose destinations form a cycle make it run for ever; the
  fuel is the number of active entries and of stored transactions, which is enough for every
  chain without a cycle (\<open>uuids_terminates\<close> below).
\<close>

fun uuids_loop :: "('e, 't) repos \<Rightarrow> 't \<Rightarrow> nat \<Rightarrow> TransactionEntry \<Rightarrow> agg_error + uuid list" where
  "uuids_loop R t 0 current = Inl NonTermination"
| "uuids_loop R t (Suc n) current =
     (case destination R t current of
        Inl x \<Rightarrow> Inl x
      | Inr None \<Rightarrow> Inr [te_uuid current]
      | Inr (Some d) \<Rightarrow> (case uuids_loop R t n d of
            Inl x \<Rightarrow> Inl x
          | Inr us \<Rightarrow> Inr (te_uuid current # us)))"

definition tx_count :: "('e, 't) repos \<Rightarrow> 't \<Rightarrow> nat" where
  "tx_count R t = (case r_tx_select R tx_all t of Inl _ \<Rightarrow> 0 | Inr es \<Rightarrow> length es)"

definition uuids_fuel :: "('e, 't) repos \<Rightarrow> 't \<Rightarrow> TransactionEntry \<Rightarrow> nat" where
  "uuids_fuel R t e = Suc (Suc (tx_count R t + (case te_token e of None \<Rightarrow> 0 | Some st \<Rightarrow> length st)))"

definition uuids :: "('e, 't) repos \<Rightarrow> 't \<Rightarrow> TransactionEntry \<Rightarrow> agg_error + uuid list" where
  "uuids R t e = (case uuids_loop R t (uuids_fuel R t e) e of
     Inl x \<Rightarrow> Inl x | Inr us \<Rightarrow> Inr (NULL_UUID # rev us))"

text \<open>The chain the database repository asks for: from the stored transaction.\<close>

definition stored_chain :: "('e, 't) repos \<Rightarrow> 't \<Rightarrow> uuid \<Rightarrow> agg_error + uuid list" where
  "stored_chain R t u = (case get_in R t u of Inl x \<Rightarrow> Inl x | Inr e \<Rightarrow> uuids R t e)"

section \<open>EventRepository\<close>

definition ev_select :: "('e, 't) repos \<Rightarrow> event_query \<Rightarrow> ('e, 't, EventEntry list) wop" where
  "ev_select R q = (\<lambda>w. (r_ev_select R q (w_events w), w))"

definition ev_offset :: "('e, 't) repos \<Rightarrow> ('e, 't, int) wop" where
  "ev_offset R = getsE (\<lambda>w. r_ev_offset R (w_events w))"

text \<open>\<open>_submit\<close> of the repository in use; a fresh identifier is drawn for an entry without one.\<close>

definition ev_store :: "('e, 't) repos \<Rightarrow> EventEntry \<Rightarrow> ('e, 't, EventEntry) wop" where
  "ev_store R e = (\<lambda>w.
     case r_ev_submit R (w_now w) (r_uuid4 R (w_uuid4 w)) (stored_chain R (w_txs w)) e (w_events w) of
       (r, s) \<Rightarrow> (r, w\<lparr>w_events := s,
                  w_uuid4 := (if ee_uuid e = NULL_UUID then Suc (w_uuid4 w) else w_uuid4 w)\<rparr>))"

definition blocking :: "TransactionStatus list" where
  "blocking = [RESERVING, RESERVED, COMMITTING]"

definition ev_validate :: "('e, 't) repos \<Rightarrow> EventEntry \<Rightarrow> uuid option \<Rightarrow> ('e, 't, bool) wop" where
  "ev_validate R e transaction_uuid_ne =
     bindE (tx_select R (tx_all\<lparr>tq_destination_uuid := Some (ee_transaction_uuid e),
                               tq_uuid_ne := transaction_uuid_ne, tq_status_in := Some blocking\<rparr>))
       (\<lambda>ts. if ts \<noteq> [] then
           bindE (ev_select R (ev_all\<lparr>eq_uuid := Some (ee_uuid e),
                               eq_transaction_uuid_in := Some (map te_uuid ts)\<rparr>))
             (\<lambda>es. retE (es = []))
         else retE True)"

fun suffix_mapper :: "Action \<Rightarrow> string" where
  "suffix_mapper CREATE = ''Created''"
| "suffix_mapper UPDATE = ''Updated''"
| "suffix_mapper DELETE = ''Deleted''"

definition diff_topic :: "string \<Rightarrow> FieldDiff \<Rightarrow> string" where
  "diff_topic topic d = topic @ ''.'' @ diff_name d @
     (case d of IncrementalFieldDiff _ _ _ a \<Rightarrow> ''.'' @ Action_value a | _ \<Rightarrow> [])"

definition event_messages :: "Event \<Rightarrow> message list" where
  "event_messages e =
     (let topic = simplified_name e @ suffix_mapper (ev_action e) in
      \<lparr>msg_topic = topic, msg_content = e\<rparr> #
      (if ev_action e = UPDATE
       then map (\<lambda>d. \<lparr>msg_topic = diff_topic topic (hd (flatten_values (ev_fields_diff d))), msg_content = d\<rparr>)
              (decompose e)
       else []))"

definition send_events :: "('e, 't) repos \<Rightarrow> Event \<Rightarrow> ('e, 't, unit) wop" where
  "send_events R e = modifyE (\<lambda>w. w\<lparr>w_sent := w_sent w @ event_messages e\<rparr>)"

text \<open>\<open>submit\<close> takes an \<open>Event\<close> or an \<open>EventEntry\<close>.\<close>

datatype event_arg = AnEvent Event | AnEntry EventEntry

definition to_entry :: "codec \<Rightarrow> uuid option \<Rightarrow> event_arg \<Rightarrow> EventEntry" where
  "to_entry c tx a = (case a of AnEvent e \<Rightarrow> from_event c e tx | AnEntry e \<Rightarrow> e)"

definition current_tx :: "('e, 't) world \<Rightarrow> uuid option" where
  "current_tx w = (case w_ctx w of [] \<Rightarrow> None | t # _ \<Rightarrow> Some (te_uuid t))"

definition submit_entry :: "('e, 't) repos \<Rightarrow> EventEntry \<Rightarrow> uuid option \<Rightarrow> ('e, 't, EventEntry) wop" where
  "submit_entry R entry transaction_uuid_ne =
     (if ee_action entry = None then raiseE EventRepositoryException else
      bindE
        (bindE (ev_validate R entry transaction_uuid_ne) (\<lambda>ok.
           if \<not> ok
           then bindE (ev_offset R) (\<lambda>n. raiseE (EventRepositoryConflictException n))
           else ev_store R entry))
        (\<lambda>entry. bindE
           (whenE (ee_transaction_uuid entry = NULL_UUID)
              (bindE (liftE (entry_event (r_codec R) entry)) (send_events R)))
           (\<lambda>_. retE entry)))"

definition submit :: "('e, 't) repos \<Rightarrow> event_arg \<Rightarrow> uuid option \<Rightarrow> ('e, 't, EventEntry) wop" where
  "submit R a transaction_uuid_ne =
     bindE (getsE w_serializing) (\<lambda>token.
     finallyE
       (bindE (modifyE (\<lambda>w. w\<lparr>w_serializing := True\<rparr>)) (\<lambda>_.
        bindE (getsE current_tx) (\<lambda>tx.
        submit_entry R (to_entry (r_codec R) tx a) transaction_uuid_ne)))
       (modifyE (\<lambda>w. w\<lparr>w_serializing := token\<rparr>)))"

definition with_action :: "Action \<Rightarrow> event_arg \<Rightarrow> event_arg" where
  "with_action x a = (case a of AnEvent e \<Rightarrow> AnEvent (e\<lparr>ev_action := x\<rparr>)
     | AnEntry e \<Rightarrow> AnEntry (e\<lparr>ee_action := Some x\<rparr>))"

definition ev_create :: "('e, 't) repos \<Rightarrow> event_arg \<Rightarrow> ('e, 't, EventEntry) wop" where
  "ev_create R a = submit R (with_action CREATE a) None"

definition ev_update :: "('e, 't) repos \<Rightarrow> event_arg \<Rightarrow> ('e, 't, EventEntry) wop" where
  "ev_update R a = submit R (with_action UPDATE a) None"

definition ev_delete :: "('e, 't) repos \<Rightarrow> event_arg \<Rightarrow> ('e, 't, EventEntry) wop" where
  "ev_delete R a = submit R (with_action DELETE a) None"

section \<open>TransactionEntry\<close>

text \<open>The constructor; the status comes as a \<open>TransactionStatus\<close>, as text or not at all.\<close>

datatype status_arg = StatusNone | StatusStr string | StatusVal TransactionStatus

definition status_of_arg :: "status_arg \<Rightarrow> agg_error + TransactionStatus" where
  "status_of_arg a = (case a of StatusNone \<Rightarrow> Inr PENDING | StatusVal x \<Rightarrow> Inr x
     | StatusStr x \<Rightarrow> TransactionStatus_value_of x)"

definition TransactionEntry_init ::
  "('e, 't) repos \<Rightarrow> uuid option \<Rightarrow> status_arg \<Rightarrow> int option \<Rightarrow> uuid option \<Rightarrow> timestamp option \<Rightarrow> bool
   \<Rightarrow> ('e, 't, TransactionEntry) wop" where
  "TransactionEntry_init R u st off dest upd auto =
     bindE (case u of Some x \<Rightarrow> retE x
        | None \<Rightarrow> bindE (getsE (\<lambda>w. r_uuid4 R (w_uuid4 w)))
                  (\<lambda>x. bindE (modifyE (\<lambda>w. w\<lparr>w_uuid4 := Suc (w_uuid4 w)\<rparr>)) (\<lambda>_. retE x))) (\<lambda>x.
     bindE (liftE (status_of_arg st)) (\<lambda>s.
     bindE (getsE current_tx) (\<lambda>outer.
     retE \<lparr>te_uuid = x, te_status = s, te_event_offset = off,
           te_destination_uuid = (case dest of Some d \<Rightarrow> d
              | None \<Rightarrow> (case outer of None \<Rightarrow> NULL_UUID | Some o' \<Rightarrow> o')),
           te_updated_at = upd, te_autocommit = auto, te_token = None, te_shared = False\<rparr>)))"

text \<open>
  \<open>save\<close> assigns the attributes and submits. The assignments stay when the submission is refused,
  and they reach the storage when the entry is the stored object itself.
\<close>

definition save :: "('e, 't) repos \<Rightarrow> int option \<Rightarrow> TransactionStatus option \<Rightarrow> ('e, 't, unit) txop" where
  "save R off st = (\<lambda>(e, w).
     let e = (case off of None \<Rightarrow> e | Some n \<Rightarrow> e\<lparr>te_event_offset := Some n\<rparr>);
         e = (case st of None \<Rightarrow> e | Some x \<Rightarrow> e\<lparr>te_status := x\<rparr>)
     in (case r_tx_submit R (w_now w) e (r_tx_assign R e (w_txs w)) of
           (Inl x, t) \<Rightarrow> (Inl x, (e, w\<lparr>w_txs := t\<rparr>))
         | (Inr e', t) \<Rightarrow> (Inr (), (e', w\<lparr>w_txs := t\<rparr>))))"

text \<open>The greatest version of every entity of the transaction, in order of first occurrence.\<close>

fun last_versions :: "EventEntry list \<Rightarrow> (uuid, int) dict \<Rightarrow> (uuid, int) dict" where
  "last_versions [] d = d"
| "last_versions (e # es) d =
     last_versions es
       (case dict_get d (ee_uuid e) of
          Some v \<Rightarrow> (if the (ee_version e) < v then d else dict_set (ee_uuid e) (the (ee_version e)) d)
        | None \<Rightarrow> dict_set (ee_uuid e) (the (ee_version e)) d)"

text \<open>The loop over the events that share an entity and a version: \<open>None\<close> when one of them is
  already in the destination, otherwise the other transactions met.\<close>

fun rivals_of :: "uuid \<Rightarrow> uuid \<Rightarrow> EventEntry list \<Rightarrow> uuid list option" where
  "rivals_of dest self [] = Some []"
| "rivals_of dest self (e # es) =
     (if ee_transaction_uuid e = dest then None
      else case rivals_of dest self es of
          None \<Rightarrow> None
        | Some us \<Rightarrow> Some (if ee_transaction_uuid e \<noteq> self then ee_transaction_uuid e # us else us))"

fun rivals_loop :: "('e, 't) repos \<Rightarrow> uuid \<Rightarrow> uuid \<Rightarrow> (uuid \<times> int) list \<Rightarrow> ('e, 't, uuid list option) wop" where
  "rivals_loop R dest self [] = retE (Some [])"
| "rivals_loop R dest self ((u, v) # kvs) =
     bindE (ev_select R (ev_all\<lparr>eq_uuid := Some u, eq_version := Some v\<rparr>)) (\<lambda>es.
       case rivals_of dest self es of
         None \<Rightarrow> retE None
       | Some us \<Rightarrow> bindE (rivals_loop R dest self kvs) (\<lambda>r. retE (map_option (\<lambda>vs. us @ vs) r)))"

definition closed_statuses :: "TransactionStatus list" where
  "closed_statuses = [RESERVING, RESERVED, COMMITTING, COMMITTED, REJECTED]"

definition winning :: "TransactionStatus list" where
  "winning = [RESERVING, RESERVED, COMMITTING, COMMITTED]"

definition tx_validate :: "('e, 't) repos \<Rightarrow> TransactionEntry \<Rightarrow> ('e, 't, bool) wop" where
  "tx_validate R self =
     bindE (tx_select R (tx_all\<lparr>tq_uuid := Some (te_destination_uuid self),
                               tq_status_in := Some closed_statuses\<rparr>)) (\<lambda>ds.
     if ds \<noteq> [] then retE False else
     bindE (ev_select R (ev_all\<lparr>eq_transaction_uuid := Some (te_uuid self)\<rparr>)) (\<lambda>es.
     bindE (rivals_loop R (te_destination_uuid self) (te_uuid self) (last_versions es [])) (\<lambda>r.
     case r of
       None \<Rightarrow> retE False
     | Some transaction_uuids \<Rightarrow>
         if transaction_uuids \<noteq> [] then
           bindE (tx_select R (tx_all\<lparr>tq_destination_uuid := Some (te_destination_uuid self),
                    tq_uuid_in := Some transaction_uuids, tq_status_in := Some winning\<rparr>))
             (\<lambda>ts. retE (ts = []))
         else retE True)))"

definition reserve :: "('e, 't) repos \<Rightarrow> ('e, 't, unit) txop" where
  "reserve R =
     bindE (selfE te_status) (\<lambda>st.
     if st \<noteq> PENDING then raiseE ValueError else
     bindE (save R None (Some RESERVING)) (\<lambda>_.
     bindE (selfE id) (\<lambda>self.
     bindE (worldE (tx_validate R self)) (\<lambda>committable.
     bindE (worldE (ev_offset R)) (\<lambda>off.
     bindE (save R (Some (1 + off)) (Some (if committable then RESERVED else REJECTED))) (\<lambda>_.
     whenE (\<not> committable) (raiseE (EventRepositoryConflictException (1 + off)))))))))"

text \<open>\<open>_commit\<close>: the events of the transaction, submitted again for its destination.\<close>

definition commit_events :: "('e, 't) repos \<Rightarrow> TransactionEntry \<Rightarrow> ('e, 't, unit) wop" where
  "commit_events R self =
     bindE (ev_select R (ev_all\<lparr>eq_transaction_uuid := Some (te_uuid self)\<rparr>)) (\<lambda>es.
     forE es (\<lambda>entry.
       bindE (liftE (from_another entry (te_destination_uuid self))) (\<lambda>new.
       bindE (submit R (AnEntry new) (Some (te_uuid self))) (\<lambda>_. retE ()))))"

definition commit :: "('e, 't) repos \<Rightarrow> ('e, 't, unit) txop" where
  "commit R =
     bindE (selfE te_status) (\<lambda>st.
     bindE (whenE (st = PENDING) (reserve R)) (\<lambda>_.
     bindE (selfE te_status) (\<lambda>st.
     if st \<noteq> RESERVED then raiseE ValueError else
     bindE (save R None (Some COMMITTING)) (\<lambda>_.
     bindE (selfE id) (\<lambda>self.
     bindE (worldE (commit_events R self)) (\<lambda>_.
     bindE (worldE (ev_offset R)) (\<lambda>off.
     save R (Some (1 + off)) (Some COMMITTED))))))))"

definition reject :: "('e, 't) repos \<Rightarrow> ('e, 't, unit) txop" where
  "reject R =
     bindE (selfE te_status) (\<lambda>st.
     if st \<notin> {PENDING, RESERVED} then raiseE ValueError else
     bindE (worldE (ev_offset R)) (\<lambda>off.
     save R (Some (1 + off)) (Some REJECTED)))"

text \<open>\<open>async with transaction\<close>: entering pushes the entry on the stack and remembers the stack.\<close>

definition aenter :: "('e, 't) repos \<Rightarrow> ('e, 't, unit) txop" where
  "aenter R =
     bindE (selfE id) (\<lambda>self.
     if te_status self \<noteq> PENDING then raiseE ValueError else
     bindE (worldE (getsE current_tx)) (\<lambda>outer.
     if (case outer of None \<Rightarrow> NULL_UUID | Some u \<Rightarrow> u) \<noteq> te_destination_uuid self then raiseE ValueError else
     bindE (modifyE (\<lambda>(e, w). (e\<lparr>te_token := Some (w_ctx w)\<rparr>, w\<lparr>w_ctx := core_of e # w_ctx w\<rparr>))) (\<lambda>_.
     save R None None)))"

text \<open>Leaving restores the stack; resetting with no token is a \<open>TypeError\<close>. The exception that ended
  the block is not looked at.\<close>

definition aexit :: "('e, 't) repos \<Rightarrow> ('e, 't, unit) txop" where
  "aexit R =
     bindE (selfE id) (\<lambda>self.
     bindE (case te_token self of
         None \<Rightarrow> raiseE TypeError
       | Some st \<Rightarrow> worldE (modifyE (\<lambda>w. w\<lparr>w_ctx := st\<rparr>))) (\<lambda>_.
     whenE (te_autocommit self \<and> te_status self = PENDING) (commit R)))"

section \<open>TransactionService\<close>

fun is_event_conflict :: "agg_error \<Rightarrow> bool" where
  "is_event_conflict (EventRepositoryConflictException _) = True"
| "is_event_conflict _ = False"

definition as_response :: "bool \<Rightarrow> ('e, 't, 'a) wop option" where
  "as_response caught = (if caught then Some (raiseE ResponseException) else None)"

definition service_get :: "('e, 't) repos \<Rightarrow> uuid \<Rightarrow> ('e, 't, TransactionEntry) wop" where
  "service_get R u = catchE (tx_get R u) (\<lambda>x. as_response (x = TransactionNotFoundException))"

definition service_reserve :: "('e, 't) repos \<Rightarrow> uuid \<Rightarrow> ('e, 't, unit) wop" where
  "service_reserve R u =
     bindE (service_get R u) (\<lambda>e.
     catchE (on_entry e (reserve R)) (\<lambda>x. as_response (is_event_conflict x)))"

definition service_reject :: "('e, 't) repos \<Rightarrow> uuid \<Rightarrow> ('e, 't, unit) wop" where
  "service_reject R u =
     bindE (service_get R u) (\<lambda>e.
     if te_status e = REJECTED then retE () else
     catchE (on_entry e (reject R)) (\<lambda>x. as_response (x = TransactionRepositoryConflictException)))"

definition service_commit :: "('e, 't) repos \<Rightarrow> uuid \<Rightarrow> ('e, 't, unit) wop" where
  "service_commit R u =
     bindE (service_get R u) (\<lambda>e.
     catchE (on_entry e (commit R)) (\<lambda>x. as_response (x = TransactionRepositoryConflictException)))"

definition one_minute :: int where
  "one_minute = 60 * 1000000"

definition service_reject_blocked :: "('e, 't) repos \<Rightarrow> ('e, 't, unit) wop" where
  "service_reject_blocked R =
     bindE (getsE (\<lambda>w. w_now w - one_minute)) (\<lambda>limit.
     bindE (tx_select R (tx_all\<lparr>tq_status_in := Some [RESERVED], tq_updated_at_lt := Some limit\<rparr>)) (\<lambda>es.
     forE es (\<lambda>e. catchE (on_entry e (reject R))
       (\<lambda>x. if x = TransactionRepositoryConflictException then Some (retE ()) else None))))"

end
