(* ===== verification/Protocol.thy ===== *)
theory Protocol
  imports Transactions
begin

text \<open>
  What the transaction protocol does, proved once for every pair of repositories that meet the
  contracts \<open>transaction_store\<close> and \<open>event_store\<close>, in the locale \<open>repositories\<close>, and then
  interpreted for the in-memory pair and for the database pair.

  The specification speaks of the stored transactions as a map and of the event log as a list:
  \<open>blocked\<close> says when an entry may not be submitted, \<open>committable\<close> when a transaction may be
  reserved.
\<close>

section \<open>Specification\<close>

definition blockers :: "(uuid \<Rightarrow> tx_core option) \<Rightarrow> uuid \<Rightarrow> uuid option \<Rightarrow> uuid set" where
  "blockers lk dest ne =
     {u. \<exists>t. lk u = Some t \<and> te_destination_uuid t = dest \<and> ne \<noteq> Some u \<and> te_status t \<in> set blocking}"

definition blocked :: "(uuid \<Rightarrow> tx_core option) \<Rightarrow> EventEntry list \<Rightarrow> uuid \<Rightarrow> uuid \<Rightarrow> uuid option \<Rightarrow> bool" where
  "blocked lk rows u dest ne \<longleftrightarrow>
     (\<exists>r \<in> set rows. ee_uuid r = u \<and> ee_transaction_uuid r \<in> blockers lk dest ne)"

definition events_of :: "EventEntry list \<Rightarrow> uuid \<Rightarrow> EventEntry list" where
  "events_of rows tx = filter (\<lambda>r. ee_transaction_uuid r = tx) rows"

definition top_version :: "EventEntry list \<Rightarrow> uuid \<Rightarrow> int \<Rightarrow> bool" where
  "top_version es u v \<longleftrightarrow>
     (\<exists>e \<in> set es. ee_uuid e = u \<and> the (ee_version e) = v)
     \<and> (\<forall>e \<in> set es. ee_uuid e = u \<longrightarrow> the (ee_version e) \<le> v)"

definition committable :: "(uuid \<Rightarrow> tx_core option) \<Rightarrow> EventEntry list \<Rightarrow> uuid \<Rightarrow> uuid \<Rightarrow> bool" where
  "committable lk rows dest self \<longleftrightarrow>
     (\<forall>t. lk dest = Some t \<longrightarrow> te_status t = PENDING)
     \<and> (\<forall>u v. top_version (events_of rows self) u v \<longrightarrow>
         (\<forall>r \<in> set rows. ee_uuid r = u \<and> ee_version r = Some v \<longrightarrow>
            ee_transaction_uuid r \<noteq> dest
            \<and> (ee_transaction_uuid r \<noteq> self \<longrightarrow>
                (\<forall>t. lk (ee_transaction_uuid r) = Some t \<and> te_destination_uuid t = dest
                   \<longrightarrow> te_status t \<notin> set winning))))"

text \<open>An entry after the assignments of \<open>save\<close>.\<close>

definition assigned :: "int option \<Rightarrow> TransactionStatus option \<Rightarrow> TransactionEntry \<Rightarrow> TransactionEntry" where
  "assigned off st e =
     e\<lparr>te_event_offset := (case off of None \<Rightarrow> te_event_offset e | Some n \<Rightarrow> Some n),
       te_status := (case st of None \<Rightarrow> te_status e | Some x \<Rightarrow> x)\<rparr>"

text \<open>Equal but for the time of the last update.\<close>

definition same_entry :: "TransactionEntry \<Rightarrow> TransactionEntry \<Rightarrow> bool" where
  "same_entry e e' \<longleftrightarrow> e' = e\<lparr>te_updated_at := te_updated_at e'\<rparr>"

text \<open>The repository takes the entry: it is new, or the stored one allows the status.\<close>

definition accepts :: "(uuid \<Rightarrow> tx_core option) \<Rightarrow> TransactionEntry \<Rightarrow> TransactionStatus \<Rightarrow> bool" where
  "accepts lk e st \<longleftrightarrow> (\<forall>t. lk (te_uuid e) = Some t \<longrightarrow>
     transition (te_status t) st \<and> te_destination_uuid t = te_destination_uuid e)"

text \<open>What is sent for a stored entry: the messages of its event, unless it belongs to a transaction.\<close>

definition published :: "codec \<Rightarrow> EventEntry \<Rightarrow> message list" where
  "published c r = (if ee_transaction_uuid r = NULL_UUID
     then (case entry_event c r of Inl _ \<Rightarrow> [] | Inr ev \<Rightarrow> event_messages ev) else [])"

text \<open>The copy of an event in another transaction, under a new identifier.\<close>

definition copy_of :: "uuid \<Rightarrow> EventEntry \<Rightarrow> EventEntry \<Rightarrow> bool" where
  "copy_of dest x r \<longleftrightarrow> r = x\<lparr>ee_id := ee_id r, ee_transaction_uuid := dest\<rparr>"

definition world_ok :: "('t \<Rightarrow> bool) \<Rightarrow> ('e \<Rightarrow> bool) \<Rightarrow> ('e, 't) world \<Rightarrow> bool" where
  "world_ok tinv einv w \<longleftrightarrow> tinv (w_txs w) \<and> einv (w_events w)"

section \<open>Chains of stored transactions\<close>

text \<open>The transactions from \<open>u\<close> outwards, each stored, ending with one whose destination is the
  null identifier.\<close>

inductive tx_path :: "(uuid \<Rightarrow> tx_core option) \<Rightarrow> uuid \<Rightarrow> uuid list \<Rightarrow> bool" for lk where
  outermost: "lk u = Some t \<Longrightarrow> te_destination_uuid t = NULL_UUID \<Longrightarrow> tx_path lk u [u]"
| nested: "lk u = Some t \<Longrightarrow> te_destination_uuid t \<noteq> NULL_UUID \<Longrightarrow> tx_path lk (te_destination_uuid t) us
    \<Longrightarrow> tx_path lk u (u # us)"

lemma tx_path_head: "tx_path lk u us \<Longrightarrow> \<exists>t. lk u = Some t"
  by (erule tx_path.cases) auto

lemma tx_path_unique: "tx_path lk u us \<Longrightarrow> tx_path lk u vs \<Longrightarrow> us = vs"
proof (induction arbitrary: vs rule: tx_path.induct)
  case (outermost u t)
  from outermost.prems outermost.hyps show ?case by cases auto
next
  case (nested u t us)
  from nested.prems show ?case
  proof cases
    case (nested t' us')
    with nested.hyps nested.IH [of us'] show ?thesis by simp
  qed (use nested.hyps in simp)
qed

lemma tx_path_stored: "tx_path lk u us \<Longrightarrow> set us \<subseteq> dom lk"
  by (induction rule: tx_path.induct) auto

lemma tx_path_suffix: "tx_path lk u us \<Longrightarrow> v \<in> set us \<Longrightarrow> \<exists>vs. tx_path lk v vs \<and> length vs \<le> length us"
proof (induction rule: tx_path.induct)
  case (outermost u t)
  then show ?case by (auto intro: tx_path.outermost)
next
  case (nested u t us)
  show ?case
  proof (cases "v = u")
    case True
    with nested.hyps show ?thesis by (auto intro: tx_path.nested)
  next
    case False
    with nested show ?thesis by force
  qed
qed

lemma tx_path_distinct: "tx_path lk u us \<Longrightarrow> distinct us"
proof (induction rule: tx_path.induct)
  case (nested u t us)
  have "u \<notin> set us"
  proof
    assume "u \<in> set us"
    from tx_path_suffix [OF nested.hyps(3) this] obtain vs where "tx_path lk u vs" "length vs \<le> length us" by blast
    with tx_path_unique [OF tx_path.nested [OF nested.hyps], of vs] show False by auto
  qed
  with nested.IH show ?case by simp
qed simp

text \<open>Only the destinations matter.\<close>

lemma tx_path_cong:
  "tx_path lk u us \<Longrightarrow> (\<And>v. map_option te_destination_uuid (lk v) = map_option te_destination_uuid (lk' v))
   \<Longrightarrow> tx_path lk' u us"
proof (induction rule: tx_path.induct)
  case (outermost u t)
  then obtain t' where "lk' u = Some t'" "te_destination_uuid t' = NULL_UUID"
    by (metis (no_types, lifting) map_option_eq_Some)
  then show ?case by (rule tx_path.outermost)
next
  case (nested u t us)
  then obtain t' where t': "lk' u = Some t'" "te_destination_uuid t' = te_destination_uuid t"
    by (metis (no_types, lifting) map_option_eq_Some)
  with nested show ?case by (metis tx_path.nested)
qed

text \<open>A ranking of the stored transactions that decreases towards the destination gives every
  transaction its chain.\<close>

lemma tx_path_exists:
  assumes "\<And>u t. lk u = Some t \<Longrightarrow> te_destination_uuid t \<noteq> NULL_UUID \<Longrightarrow>
      te_destination_uuid t \<in> dom lk \<and> (rank (te_destination_uuid t) :: nat) < rank u"
  shows "u \<in> dom lk \<Longrightarrow> \<exists>us. tx_path lk u us"
proof (induction "rank u" arbitrary: u rule: less_induct)
  case less
  then obtain t where t: "lk u = Some t" by blast
  show ?case
  proof (cases "te_destination_uuid t = NULL_UUID")
    case True
    with t show ?thesis by (blast intro: tx_path.outermost)
  next
    case False
    with assms [OF t] less.hyps obtain us where "tx_path lk (te_destination_uuid t) us" by blast
    with t False show ?thesis by (blast intro: tx_path.nested)
  qed
qed

section \<open>The greatest versions\<close>

lemma ball_image_minus: "(\<forall>u \<in> f ` A - {s}. Q u) \<longleftrightarrow> (\<forall>e \<in> A. f e \<noteq> s \<longrightarrow> Q (f e))"
  by auto

lemma last_versions_keys:
  "distinct (dict_keys d) \<Longrightarrow> distinct (dict_keys (last_versions es d))"
  by (induction es arbitrary: d) (auto simp: distinct_dict_set split: option.splits)

lemma last_versions_get:
  "dict_get (last_versions es d) u =
     (let vs = (case dict_get d u of None \<Rightarrow> [] | Some v \<Rightarrow> [v])
               @ map (\<lambda>e. the (ee_version e)) (filter (\<lambda>e. ee_uuid e = u) es)
      in if vs = [] then None else Some (Max (set vs)))"
proof (induction es arbitrary: d)
  case Nil
  then show ?case by (simp split: option.splits)
next
  case (Cons e es)
  have Max2: "Max (insert a (insert b A)) = (if b < a then Max (insert a A) else Max (insert b A))"
    if "finite A" for a b :: int and A
    using that by (cases "A = {}") (auto simp: max_def)
  show ?case
    by (cases "ee_uuid e = u"; cases "dict_get d (ee_uuid e)") (simp_all add: Cons Let_def Max2 del: Max_insert)
qed

lemma last_versions_top:
  "(u, v) \<in> set (last_versions es []) \<longleftrightarrow> top_version es u v"
proof -
  let ?vs = "map (\<lambda>e. the (ee_version e)) (filter (\<lambda>e. ee_uuid e = u) es)"
  have "(u, v) \<in> set (last_versions es []) \<longleftrightarrow> dict_get (last_versions es []) u = Some v"
    by (simp add: last_versions_keys)
  also have "\<dots> \<longleftrightarrow> ?vs \<noteq> [] \<and> Max (set ?vs) = v"
    by (simp add: last_versions_get Let_def)
  also have "\<dots> \<longleftrightarrow> v \<in> set ?vs \<and> (\<forall>x \<in> set ?vs. x \<le> v)"
    by (metis List.finite_set Max_eqI Max_ge Max_in empty_iff set_empty)
  also have "\<dots> \<longleftrightarrow> top_version es u v"
    by (auto simp: top_version_def)
  finally show ?thesis .
qed

lemma rivals_of_None: "rivals_of dest self es = None \<longleftrightarrow> (\<exists>e \<in> set es. ee_transaction_uuid e = dest)"
  by (induction es) (auto split: option.splits)

lemma rivals_of_Some: "rivals_of dest self es = Some us \<Longrightarrow> set us = ee_transaction_uuid ` set es - {self}"
  by (induction es arbitrary: us) (auto split: if_splits option.splits)

text \<open>The queries of the protocol, read as conditions.\<close>

lemma tx_filter_siblings [simp]:
  "db_tx_filter (tx_all\<lparr>tq_destination_uuid := Some d, tq_uuid_ne := ne, tq_status_in := Some sts\<rparr>) t
   \<longleftrightarrow> te_destination_uuid t = d \<and> ne \<noteq> Some (te_uuid t) \<and> te_status t \<in> set sts"
  by (cases ne) (auto simp: db_tx_filter_def tx_all_def sql_cmp_def)

lemma tx_filter_among [simp]:
  "db_tx_filter (tx_all\<lparr>tq_destination_uuid := Some d, tq_uuid_in := Some us, tq_status_in := Some sts\<rparr>) t
   \<longleftrightarrow> te_destination_uuid t = d \<and> te_uuid t \<in> set us \<and> te_status t \<in> set sts"
  by (auto simp: db_tx_filter_def tx_all_def sql_cmp_def)

lemma tx_filter_one [simp]:
  "db_tx_filter (tx_all\<lparr>tq_uuid := Some u, tq_status_in := Some sts\<rparr>) t
   \<longleftrightarrow> te_uuid t = u \<and> te_status t \<in> set sts"
  by (auto simp: db_tx_filter_def tx_all_def sql_cmp_def)

lemma tx_filter_all [simp]: "db_tx_filter tx_all t"
  by (simp add: db_tx_filter_def tx_all_def sql_cmp_def)

lemma ev_filter_entity [simp]:
  "db_ev_filter (ev_all\<lparr>eq_uuid := Some u, eq_transaction_uuid_in := Some us\<rparr>)
   = (\<lambda>e. ee_uuid e = u \<and> ee_transaction_uuid e \<in> set us)"
  by (simp add: fun_eq_iff db_ev_filter_def ev_all_def sql_cmp_def)

lemma ev_filter_version [simp]:
  "db_ev_filter (ev_all\<lparr>eq_uuid := Some u, eq_version := Some v\<rparr>)
   = (\<lambda>e. ee_uuid e = u \<and> ee_version e = Some v)"
  by (simp add: fun_eq_iff db_ev_filter_def ev_all_def sql_cmp_def split: option.splits)

lemma ev_filter_tx [simp]:
  "db_ev_filter (ev_all\<lparr>eq_transaction_uuid := Some u\<rparr>) = (\<lambda>e. ee_transaction_uuid e = u)"
  by (simp add: fun_eq_iff db_ev_filter_def ev_all_def sql_cmp_def)

lemma simple_queries [simp]:
  "simple_query (tx_all\<lparr>tq_destination_uuid := a, tq_uuid_ne := b, tq_status_in := c\<rparr>)"
  "simple_query (tx_all\<lparr>tq_destination_uuid := a, tq_uuid_in := d, tq_status_in := c\<rparr>)"
  "simple_query (tx_all\<lparr>tq_uuid := a, tq_status_in := c\<rparr>)"
  "simple_query tx_all"
  by (simp_all add: simple_query_def tx_all_def)

lemma save_apply:
  "save R off st (e, w) =
     (case r_tx_submit R (w_now w) (assigned off st e) (r_tx_assign R (assigned off st e) (w_txs w)) of
        (Inl x, t) \<Rightarrow> (Inl x, (assigned off st e, w\<lparr>w_txs := t\<rparr>))
      | (Inr e', t) \<Rightarrow> (Inr (), (e', w\<lparr>w_txs := t\<rparr>)))"
proof -
  have "assigned off st e = (case st of
      None \<Rightarrow> (case off of None \<Rightarrow> e | Some n \<Rightarrow> e\<lparr>te_event_offset := Some n\<rparr>)
    | Some x \<Rightarrow> (case off of None \<Rightarrow> e | Some n \<Rightarrow> e\<lparr>te_event_offset := Some n\<rparr>)\<lparr>te_status := x\<rparr>)"
    by (cases e) (simp add: assigned_def split: option.splits)
  then show ?thesis
    by (simp only: save_def Let_def prod.case)
qed

lemma committable_upd:
  "dest \<noteq> self \<Longrightarrow> committable (lk(self \<mapsto> t)) rows dest self = committable lk rows dest self"
  by (simp add: committable_def)

lemma same_entry_simps:
  assumes "same_entry e e'"
  shows "te_uuid e' = te_uuid e" "te_destination_uuid e' = te_destination_uuid e"
    "te_status e' = te_status e" "te_event_offset e' = te_event_offset e"
    "te_autocommit e' = te_autocommit e" "te_token e' = te_token e" "te_shared e' = te_shared e"
  using assms unfolding same_entry_def by (cases e; cases e'; simp)+

text \<open>Saving twice is saving the last values.\<close>

lemma same_entry_assigned:
  "same_entry (assigned None (Some st) e) e1 \<Longrightarrow> same_entry (assigned (Some off) (Some st') e1) e2
   \<Longrightarrow> same_entry (assigned (Some off) (Some st') e) e2"
  by (cases e; cases e1; cases e2) (simp add: same_entry_def assigned_def)

lemma assigned_core:
  "same_entry (assigned None (Some st) e) e1 \<Longrightarrow>
   (core_of (assigned (Some off) (Some st') e1))\<lparr>te_updated_at := x\<rparr>
   = (core_of e)\<lparr>te_status := st', te_event_offset := Some off, te_updated_at := x\<rparr>"
  by (cases e; cases e1) (simp add: same_entry_def assigned_def core_of_def tx_core.truncate_def)

text \<open>The serialization flag is set during \<open>submit\<close> only.\<close>

lemma submit_apply:
  "submit R a ne w =
     (case submit_entry R (to_entry (r_codec R) (current_tx w) a) ne (w\<lparr>w_serializing := True\<rparr>) of
        (r, w') \<Rightarrow> (r, w'\<lparr>w_serializing := w_serializing w\<rparr>))"
  by (simp add: submit_def bindE_apply finallyE_def current_tx_def split: prod.splits)

lemma entry_event_stored:
  "stored r \<Longrightarrow> ee_action r \<noteq> None \<Longrightarrow> \<exists>ev. entry_event c r = Inr ev"
  by (auto simp: stored_def entry_event_def)

text \<open>The body of the loop of \<open>_commit\<close>.\<close>

definition copy_event :: "('e, 't) repos \<Rightarrow> uuid \<Rightarrow> uuid option \<Rightarrow> EventEntry \<Rightarrow> ('e, 't, unit) wop" where
  "copy_event R dest ne entry =
     bindE (liftE (from_another entry dest)) (\<lambda>new. bindE (submit R (AnEntry new) ne) (\<lambda>_. retE ()))"

lemma copy_event_apply:
  "ee_action x \<noteq> None \<Longrightarrow> copy_event R dest ne x w =
     (case submit R (AnEntry (x\<lparr>ee_id := None, ee_transaction_uuid := dest\<rparr>)) ne w of
        (Inl err, w') \<Rightarrow> (Inl err, w') | (Inr r, w') \<Rightarrow> (Inr (), w'))"
  by (auto simp: copy_event_def bindE_apply from_another_eq retE_def)

lemma commit_events_eq:
  "commit_events R self =
     bindE (ev_select R (ev_all\<lparr>eq_transaction_uuid := Some (te_uuid self)\<rparr>)) (\<lambda>es.
       forE es (copy_event R (te_destination_uuid self) (Some (te_uuid self))))"
  by (simp add: commit_events_def copy_event_def [abs_def])

lemma distinct_keys_of_tx:
  "distinct (map (\<lambda>e. (ee_uuid e, ee_version e, ee_transaction_uuid e)) rows) \<Longrightarrow>
   distinct (map (\<lambda>x. (ee_uuid x, ee_version x)) (filter (\<lambda>r. ee_transaction_uuid r = tx) rows))"
  by (induction rows) auto

section \<open>The protocol over any repositories\<close>

locale repositories =
  transaction_store "r_tx_submit R" "r_tx_select R" lookup tinv +
  event_store "r_ev_submit R" "r_ev_select R" "r_ev_offset R" log_of einv
  for R :: "('e, 't) repos" and lookup tinv log_of einv +
  assumes assign_unshared: "\<not> te_shared e \<Longrightarrow> r_tx_assign R e t = t"
begin

abbreviation winv :: "('e, 't) world \<Rightarrow> bool" where
  "winv \<equiv> world_ok tinv einv"

abbreviation lk :: "('e, 't) world \<Rightarrow> uuid \<Rightarrow> tx_core option" where
  "lk w \<equiv> lookup (w_txs w)"

abbreviation rows :: "('e, 't) world \<Rightarrow> EventEntry list" where
  "rows w \<equiv> log_of (w_events w)"

lemma tx_select_simple:
  assumes "winv w" "simple_query q"
  shows "\<exists>es. tx_select R q w = (Inr es, w) \<and> core_of ` set es = {t. lk w (te_uuid t) = Some t \<and> db_tx_filter q t}"
  using select_ok [of "w_txs w" q] assms unfolding tx_select_def world_ok_def by blast

lemma ev_select_filter: "winv w \<Longrightarrow> ev_select R q w = (Inr (filter (db_ev_filter q) (rows w)), w)"
  by (simp add: ev_select_def world_ok_def ev_select_ok)

lemma lk_key: "winv w \<Longrightarrow> lk w u = Some t \<Longrightarrow> te_uuid t = u"
  by (auto simp: world_ok_def dest: lookup_key)

text \<open>The identifiers of a selection.\<close>

lemma tx_select_uuids:
  assumes "winv w" "simple_query q"
  shows "\<exists>es. tx_select R q w = (Inr es, w) \<and>
    te_uuid ` set es = {u. \<exists>t. lk w u = Some t \<and> db_tx_filter q t}"
proof -
  obtain es where es: "tx_select R q w = (Inr es, w)"
    "core_of ` set es = {t. lk w (te_uuid t) = Some t \<and> db_tx_filter q t}"
    using tx_select_simple [OF assms] by blast
  have "te_uuid ` set es = te_uuid ` core_of ` set es" by (simp add: image_image)
  also have "\<dots> = {u. \<exists>t. lk w u = Some t \<and> db_tx_filter q t}"
    unfolding es(2)
  proof (intro set_eqI iffI)
    fix u
    assume "u \<in> {u. \<exists>t. lk w u = Some t \<and> db_tx_filter q t}"
    then obtain t where "lk w u = Some t" "db_tx_filter q t" by blast
    with lk_key [OF assms(1) this(1)] show "u \<in> te_uuid ` {t. lk w (te_uuid t) = Some t \<and> db_tx_filter q t}"
      by (intro image_eqI [of _ _ t]) simp_all
  qed blast
  finally show ?thesis using es(1) by blast
qed

lemma ev_validate_spec:
  assumes "winv w"
  shows "ev_validate R e ne w =
    (Inr (\<not> blocked (lk w) (rows w) (ee_uuid e) (ee_transaction_uuid e) ne), w)"
proof -
  let ?q = "tx_all\<lparr>tq_destination_uuid := Some (ee_transaction_uuid e), tq_uuid_ne := ne,
      tq_status_in := Some blocking\<rparr>"
  let ?B = "blockers (lk w) (ee_transaction_uuid e) ne"
  obtain ts where ts: "tx_select R ?q w = (Inr ts, w)" "te_uuid ` set ts = {u. \<exists>t. lk w u = Some t \<and> db_tx_filter ?q t}"
    using tx_select_uuids [OF assms, of ?q] by auto
  have uu: "te_uuid ` set ts = ?B"
    unfolding ts(2) blockers_def by (auto dest: lk_key [OF assms])
  then have "ts = [] \<longleftrightarrow> ?B = {}" by auto
  with uu show ?thesis
    by (auto simp: ev_validate_def op_apply ts(1) ev_select_filter [OF assms] blocked_def filter_empty_conv)
qed

text \<open>\<open>validate\<close> decides \<open>committable\<close>.\<close>

lemma rivals_loop_spec:
  assumes "winv w"
  defines "hits \<equiv> \<lambda>kvs. {e \<in> set (rows w). \<exists>(u, v) \<in> set kvs. ee_uuid e = u \<and> ee_version e = Some v}"
  shows "\<exists>r. rivals_loop R dest self kvs w = (Inr r, w) \<and>
    (case r of None \<Rightarrow> (\<exists>e \<in> hits kvs. ee_transaction_uuid e = dest)
     | Some us \<Rightarrow> (\<forall>e \<in> hits kvs. ee_transaction_uuid e \<noteq> dest)
                 \<and> set us = ee_transaction_uuid ` hits kvs - {self})"
proof (induction kvs)
  case Nil
  then show ?case by (simp add: hits_def)
next
  case (Cons kv kvs)
  obtain u v where kv: "kv = (u, v)" by fastforce
  obtain r where r: "rivals_loop R dest self kvs w = (Inr r, w)"
    "case r of None \<Rightarrow> (\<exists>e \<in> hits kvs. ee_transaction_uuid e = dest)
     | Some us \<Rightarrow> (\<forall>e \<in> hits kvs. ee_transaction_uuid e \<noteq> dest)
                 \<and> set us = ee_transaction_uuid ` hits kvs - {self}"
    using Cons by blast
  let ?es = "filter (\<lambda>e. ee_uuid e = u \<and> ee_version e = Some v) (rows w)"
  have hits: "hits (kv # kvs) = set ?es \<union> hits kvs" by (auto simp: hits_def kv)
  show ?case
  proof (cases "rivals_of dest self ?es")
    case None
    then have "\<exists>e \<in> set ?es. ee_transaction_uuid e = dest" by (simp only: rivals_of_None)
    then have "\<exists>e \<in> hits (kv # kvs). ee_transaction_uuid e = dest" unfolding hits by blast
    with None show ?thesis
      by (simp add: kv bindE_apply ev_select_filter [OF assms(1)])
  next
    case (Some us)
    then have "\<not> (\<exists>e \<in> set ?es. ee_transaction_uuid e = dest)"
      unfolding rivals_of_None [of dest self, symmetric] by simp
    then have us: "\<forall>e \<in> set ?es. ee_transaction_uuid e \<noteq> dest" "set us = ee_transaction_uuid ` set ?es - {self}"
      using rivals_of_Some [OF Some] by blast+
    have run: "rivals_loop R dest self (kv # kvs) w = (Inr (map_option (\<lambda>vs. us @ vs) r), w)"
      using Some by (simp add: kv bindE_apply ev_select_filter [OF assms(1)] r(1))
    show ?thesis
    proof (cases r)
      case None
      with r(2) have "\<exists>e \<in> hits (kv # kvs). ee_transaction_uuid e = dest" unfolding hits by auto
      with run None show ?thesis by simp
    next
      case (Some vs)
      with r(2) us have "\<forall>e \<in> hits (kv # kvs). ee_transaction_uuid e \<noteq> dest"
        "set (us @ vs) = ee_transaction_uuid ` hits (kv # kvs) - {self}"
        unfolding hits by (auto simp del: set_filter)
      with run Some show ?thesis by simp
    qed
  qed
qed

lemma tx_validate_spec:
  assumes "winv w"
  shows "tx_validate R self w =
    (Inr (committable (lk w) (rows w) (te_destination_uuid self) (te_uuid self)), w)"
proof -
  let ?d = "te_destination_uuid self" and ?s = "te_uuid self"
  let ?kvs = "last_versions (events_of (rows w) ?s) []"
  let ?es = "{e \<in> set (rows w). \<exists>(u, v) \<in> set ?kvs. ee_uuid e = u \<and> ee_version e = Some v}"
  obtain ds where ds: "tx_select R (tx_all\<lparr>tq_uuid := Some ?d, tq_status_in := Some closed_statuses\<rparr>) w = (Inr ds, w)"
    "te_uuid ` set ds = {u. \<exists>t. lk w u = Some t \<and> te_uuid t = ?d \<and> te_status t \<in> set closed_statuses}"
    using tx_select_uuids [OF assms, of "tx_all\<lparr>tq_uuid := Some ?d, tq_status_in := Some closed_statuses\<rparr>"] by auto
  have closed: "st \<in> set closed_statuses \<longleftrightarrow> st \<noteq> PENDING" for st
    by (cases st) (simp_all add: closed_statuses_def)
  have dsE: "ds = [] \<longleftrightarrow> (\<forall>t. lk w ?d = Some t \<longrightarrow> te_status t = PENDING)"
  proof -
    have "ds = [] \<longleftrightarrow> te_uuid ` set ds = {}" by simp
    also have "\<dots> \<longleftrightarrow> (\<forall>u t. lk w u = Some t \<and> te_uuid t = ?d \<longrightarrow> te_status t = PENDING)"
      unfolding ds(2) closed by blast
    also have "\<dots> \<longleftrightarrow> (\<forall>t. lk w ?d = Some t \<longrightarrow> te_status t = PENDING)"
      using lk_key [OF assms] by metis
    finally show ?thesis .
  qed
  have tops: "?es = {e \<in> set (rows w).
      \<exists>v. top_version (events_of (rows w) ?s) (ee_uuid e) v \<and> ee_version e = Some v}"
    by (auto simp: last_versions_top)
  obtain r where r: "rivals_loop R ?d ?s ?kvs w = (Inr r, w)"
    "case r of None \<Rightarrow> (\<exists>e \<in> ?es. ee_transaction_uuid e = ?d)
     | Some us \<Rightarrow> (\<forall>e \<in> ?es. ee_transaction_uuid e \<noteq> ?d) \<and> set us = ee_transaction_uuid ` ?es - {?s}"
    using rivals_loop_spec [OF assms, of ?d ?s ?kvs] by (auto simp: Let_def)
  have evs: "filter (\<lambda>e. ee_transaction_uuid e = ?s) (rows w) = events_of (rows w) ?s"
    by (simp add: events_of_def)
  note run = tx_validate_def bindE_apply ds(1) ev_select_filter [OF assms] evs r(1)
  have spec: "committable (lk w) (rows w) ?d ?s \<longleftrightarrow> ds = [] \<and>
     (\<forall>e \<in> ?es. ee_transaction_uuid e \<noteq> ?d \<and> (ee_transaction_uuid e \<noteq> ?s \<longrightarrow>
        (\<forall>t. lk w (ee_transaction_uuid e) = Some t \<and> te_destination_uuid t = ?d \<longrightarrow> te_status t \<notin> set winning)))"
    unfolding dsE committable_def tops by blast
  show ?thesis
  proof (cases r)
    case None
    with r(2) spec show ?thesis by (auto simp: run)
  next
    case (Some us)
    obtain ts where ts: "tx_select R (tx_all\<lparr>tq_destination_uuid := Some ?d, tq_uuid_in := Some us,
         tq_status_in := Some winning\<rparr>) w = (Inr ts, w)"
      "te_uuid ` set ts = {u. \<exists>t. lk w u = Some t \<and> te_destination_uuid t = ?d \<and> te_uuid t \<in> set us \<and> te_status t \<in> set winning}"
      using tx_select_uuids [OF assms, of "tx_all\<lparr>tq_destination_uuid := Some ?d, tq_uuid_in := Some us,
         tq_status_in := Some winning\<rparr>"] by auto
    have tsE: "ts = [] \<longleftrightarrow> (\<forall>u \<in> set us. \<forall>t. lk w u = Some t \<and> te_destination_uuid t = ?d \<longrightarrow> te_status t \<notin> set winning)"
    proof -
      have "ts = [] \<longleftrightarrow> te_uuid ` set ts = {}" by simp
      then show ?thesis unfolding ts(2) using lk_key [OF assms] by blast
    qed
    have us: "set us = ee_transaction_uuid ` ?es - {?s}" and nd: "\<forall>e \<in> ?es. ee_transaction_uuid e \<noteq> ?d"
      using r(2) unfolding Some option.case by (rule conjunct2, rule conjunct1)
    have "committable (lk w) (rows w) ?d ?s \<longleftrightarrow> ds = [] \<and> ts = []"
      unfolding spec tsE us ball_image_minus ball_conj_distrib using nd by blast
    moreover have "us = [] \<Longrightarrow> ts = []" using tsE by simp
    ultimately show ?thesis using Some by (auto simp: run ts(1))
  qed
qed

lemma save_ok:
  assumes "winv w" "\<not> te_shared e" "accepts (lk w) e (te_status (assigned off st e))"
  obtains e' t' where "save R off st (e, w) = (Inr (), (e', w\<lparr>w_txs := t'\<rparr>))" "tinv t'"
    "lookup t' = (lk w)(te_uuid e \<mapsto> (core_of (assigned off st e))\<lparr>te_updated_at := Some (At (w_now w))\<rparr>)"
    "same_entry (assigned off st e) e'"
proof -
  let ?a = "assigned off st e"
  have a: "te_uuid ?a = te_uuid e" "te_destination_uuid ?a = te_destination_uuid e" "\<not> te_shared ?a"
    using assms(2) by (simp_all add: assigned_def)
  note run = save_apply [of R off st e w, unfolded assign_unshared [OF a(3)]]
  have inv: "tinv (w_txs w)" using assms(1) by (simp add: world_ok_def)
  obtain e' t' where sub: "r_tx_submit R (w_now w) ?a (w_txs w) = (Inr e', t')"
    using submit_admissible [OF inv a(3)] assms(3) unfolding a accepts_def by blast
  have "same_entry ?a e'"
    using submit_ok [OF inv a(3) sub] a by (cases e'; cases ?a) (simp add: same_entry_def)
  with submit_ok [OF inv a(3) sub] show thesis
    unfolding a by (intro that [of e' t']) (simp add: run sub, blast+)
qed

lemma save_refused:
  assumes "winv w" "\<not> te_shared e" "lk w (te_uuid e) = Some t" "\<not> transition (te_status t) (te_status (assigned off st e))"
  shows "save R off st (e, w) = (Inl TransactionRepositoryConflictException, (assigned off st e, w))"
proof -
  let ?a = "assigned off st e"
  have a: "te_uuid ?a = te_uuid e" "\<not> te_shared ?a"
    using assms(2) by (simp_all add: assigned_def)
  note run = save_apply [of R off st e w, unfolded assign_unshared [OF a(2)]]
  have inv: "tinv (w_txs w)" using assms(1) by (simp add: world_ok_def)
  show ?thesis
  proof (cases "r_tx_submit R (w_now w) ?a (w_txs w)")
    case (Pair r t')
    with submit_ok [OF inv a(2)] submit_refused [OF inv a(2)] assms(3,4) run a(1) show ?thesis
      by (cases r) fastforce+
  qed
qed

text \<open>\<open>reserve\<close>: every outcome, the stored status with it, and nothing else touched.\<close>

lemma reserve_spec:
  assumes "winv w" "\<not> te_shared e" "te_status e = PENDING" "accepts (lk w) e RESERVING"
    "te_destination_uuid e \<noteq> te_uuid e"
  defines "ok \<equiv> committable (lk w) (rows w) (te_destination_uuid e) (te_uuid e)"
    and "off \<equiv> 1 + r_ev_offset R (w_events w)"
  obtains e' t' where
    "reserve R (e, w) = (if ok then Inr () else Inl (EventRepositoryConflictException off), (e', w\<lparr>w_txs := t'\<rparr>))"
    "tinv t'"
    "lookup t' = (lk w)(te_uuid e \<mapsto> (core_of e)\<lparr>te_status := if ok then RESERVED else REJECTED,
        te_event_offset := Some off, te_updated_at := Some (At (w_now w))\<rparr>)"
    "same_entry (assigned (Some off) (Some (if ok then RESERVED else REJECTED)) e) e'"
proof -
  have "accepts (lk w) e (te_status (assigned None (Some RESERVING) e))"
    using assms(4) by (simp add: assigned_def)
  then obtain e1 t1 where s1: "save R None (Some RESERVING) (e, w) = (Inr (), (e1, w\<lparr>w_txs := t1\<rparr>))" "tinv t1"
    "lookup t1 = (lk w)(te_uuid e \<mapsto> (core_of (assigned None (Some RESERVING) e))\<lparr>te_updated_at := Some (At (w_now w))\<rparr>)"
    "same_entry (assigned None (Some RESERVING) e) e1"
    using save_ok [OF assms(1,2)] by blast
  let ?w1 = "w\<lparr>w_txs := t1\<rparr>"
  let ?st = "if ok then RESERVED else REJECTED"
  have w1: "winv ?w1" using assms(1) s1(2) by (simp add: world_ok_def)
  have e1: "te_uuid e1 = te_uuid e" "te_destination_uuid e1 = te_destination_uuid e" "\<not> te_shared e1"
    using same_entry_simps [OF s1(4)] assms(2) by (simp_all add: assigned_def)
  have val: "tx_validate R e1 ?w1 = (Inr ok, ?w1)"
    unfolding tx_validate_spec [OF w1] e1 ok_def using assms(5) by (simp add: s1(3) committable_upd)
  have "accepts (lk ?w1) e1 (te_status (assigned (Some off) (Some ?st) e1))"
    by (simp add: accepts_def s1(3) e1 assigned_def)
  then obtain e2 t2 where s2: "save R (Some off) (Some ?st) (e1, ?w1) = (Inr (), (e2, ?w1\<lparr>w_txs := t2\<rparr>))" "tinv t2"
    "lookup t2 = (lk ?w1)(te_uuid e1 \<mapsto> (core_of (assigned (Some off) (Some ?st) e1))\<lparr>te_updated_at := Some (At (w_now ?w1))\<rparr>)"
    "same_entry (assigned (Some off) (Some ?st) e1) e2"
    using save_ok [OF w1 e1(3)] by blast
  have "reserve R (e, w) = (if ok then Inr () else Inl (EventRepositoryConflictException off), (e2, w\<lparr>w_txs := t2\<rparr>))"
    using assms(3) s2(1) unfolding off_def
    by (simp add: reserve_def selfE_def bindE_apply s1(1) worldE_def val ev_offset_def)
  moreover have "lookup t2 = (lk w)(te_uuid e \<mapsto> (core_of e)\<lparr>te_status := ?st,
        te_event_offset := Some off, te_updated_at := Some (At (w_now w))\<rparr>)"
    using s2(3) s1(3) e1(1) assigned_core [OF s1(4)] by simp
  moreover have "same_entry (assigned (Some off) (Some ?st) e) e2"
    using same_entry_assigned [OF s1(4) s2(4)] .
  ultimately show thesis using that s2(2) by blast
qed

lemma reserve_not_pending:
  "te_status e \<noteq> PENDING \<Longrightarrow> reserve R (e, w) = (Inl ValueError, (e, w))"
  by (simp add: reserve_def selfE_def bindE_apply)

text \<open>\<open>submit\<close>, branch by branch.\<close>

lemma submit_no_action:
  "ee_action (to_entry (r_codec R) (current_tx w) a) = None \<Longrightarrow> submit R a ne w = (Inl EventRepositoryException, w)"
  by (simp add: submit_apply submit_entry_def)

lemma submit_blocked:
  assumes "winv w" "e = to_entry (r_codec R) (current_tx w) a" "ee_action e \<noteq> None"
    "blocked (lk w) (rows w) (ee_uuid e) (ee_transaction_uuid e) ne"
  shows "submit R a ne w = (Inl (EventRepositoryConflictException (r_ev_offset R (w_events w))), w)"
proof -
  let ?w = "w\<lparr>w_serializing := True\<rparr>"
  have "winv ?w" using assms(1) by (simp add: world_ok_def)
  from ev_validate_spec [OF this, of e ne] assms show ?thesis
    by (auto simp: submit_apply submit_entry_def bindE_apply ev_offset_def)
qed

lemma submit_stored:
  assumes "winv w" "e = to_entry (r_codec R) (current_tx w) a" "ee_action e \<noteq> None"
    "\<not> blocked (lk w) (rows w) (ee_uuid e) (ee_transaction_uuid e) ne"
    "r_ev_submit R (w_now w) (r_uuid4 R (w_uuid4 w)) (stored_chain R (w_txs w)) e (w_events w) = (res, s')"
  defines "w' \<equiv> w\<lparr>w_events := s', w_uuid4 := (if ee_uuid e = NULL_UUID then Suc (w_uuid4 w) else w_uuid4 w)\<rparr>"
  shows "submit R a ne w = (case res of Inl x \<Rightarrow> (Inl x, w')
    | Inr r \<Rightarrow> (Inr r, w'\<lparr>w_sent := w_sent w @ published (r_codec R) r\<rparr>))"
proof -
  let ?w = "w\<lparr>w_serializing := True\<rparr>"
  have inv: "winv ?w" using assms(1) by (simp add: world_ok_def)
  have val: "ev_validate R e ne ?w = (Inr True, ?w)"
    using ev_validate_spec [OF inv, of e ne] assms(4) by simp
  obtain act where act: "ee_action e = Some act" using assms(3) by blast
  have st: "ev_store R e ?w = (res, w'\<lparr>w_serializing := True\<rparr>)"
    by (simp add: ev_store_def assms(5) w'_def)
  show ?thesis
  proof (cases res)
    case (Inl x)
    with val st act show ?thesis
      by (simp add: submit_apply assms(2) [symmetric] submit_entry_def bindE_apply w'_def)
  next
    case (Inr r)
    have comp: "completes (w_now w) (r_uuid4 R (w_uuid4 w)) e r"
      using ev_submit_ok assms(1,5) Inr by (auto simp: world_ok_def)
    then obtain ev where "entry_event (r_codec R) r = Inr ev"
      using entry_event_stored assms(3) unfolding completes_def by metis
    with Inr val st act show ?thesis
      by (cases "ee_transaction_uuid r = NULL_UUID")
         (simp_all add: submit_apply assms(2) [symmetric] submit_entry_def bindE_apply w'_def send_events_def published_def)
  qed
qed

text \<open>One event of \<open>_commit\<close>, and the whole loop: the copies stored so far, in order.\<close>

lemma commit_step:
  fixes dest :: uuid
  assumes "winv w" "stored x" "ee_action x \<noteq> None" "ee_uuid x \<noteq> NULL_UUID"
  defines "new \<equiv> x\<lparr>ee_id := None, ee_transaction_uuid := dest\<rparr>"
  shows "(\<exists>err s'. submit R (AnEntry new) ne w = (Inl err, w\<lparr>w_events := s'\<rparr>) \<and> einv s' \<and> log_of s' = rows w)
    \<or> (\<exists>r s'. submit R (AnEntry new) ne w =
          (Inr r, w\<lparr>w_events := s', w_sent := w_sent w @ published (r_codec R) r\<rparr>)
        \<and> einv s' \<and> log_of s' = rows w @ [r] \<and> copy_of dest x r
        \<and> \<not> blocked (lk w) (rows w) (ee_uuid x) dest ne)"
proof (cases "blocked (lk w) (rows w) (ee_uuid x) dest ne")
  case True
  have "submit R (AnEntry new) ne w = (Inl (EventRepositoryConflictException (r_ev_offset R (w_events w))), w)"
    using assms(3) True by (intro submit_blocked [OF assms(1), of new]) (simp_all add: to_entry_def new_def)
  then show ?thesis
    using assms(1) by (intro disjI1 exI [of _ "w_events w"] exI) (simp add: world_ok_def)
next
  case False
  obtain res s' where sub: "r_ev_submit R (w_now w) (r_uuid4 R (w_uuid4 w)) (stored_chain R (w_txs w)) new (w_events w) = (res, s')"
    by fastforce
  have inv: "einv (w_events w)" using assms(1) by (simp add: world_ok_def)
  have ent: "new = to_entry (r_codec R) (current_tx w) (AnEntry new)" by (simp add: to_entry_def)
  have run: "submit R (AnEntry new) ne w = (case res of Inl x \<Rightarrow> (Inl x, w\<lparr>w_events := s'\<rparr>)
    | Inr r \<Rightarrow> (Inr r, w\<lparr>w_events := s', w_sent := w_sent w @ published (r_codec R) r\<rparr>))"
    using submit_stored [OF assms(1) ent _ _ sub, of ne] False assms(3,4)
    by (simp add: new_def split: sum.splits)
  show ?thesis
  proof (cases res)
    case (Inl err)
    with ev_submit_refused [OF inv] sub run show ?thesis by auto
  next
    case (Inr r)
    with ev_submit_ok [OF inv] sub have ok: "einv s'" "log_of s' = rows w @ [r]"
      "completes (w_now w) (r_uuid4 R (w_uuid4 w)) new r" by auto
    have "copy_of dest x r"
      using ok(3) assms(2,4) by (cases x; cases r) (auto simp: completes_def new_def copy_of_def stored_def)
    with ok Inr run False show ?thesis by auto
  qed
qed

lemma commit_loop:
  assumes "winv w" "\<forall>x \<in> set es. stored x \<and> ee_action x \<noteq> None \<and> ee_uuid x \<noteq> NULL_UUID"
    and "forE es (copy_event R dest ne) w = (res, w')"
  shows "winv w' \<and> w_txs w' = w_txs w \<and> w_ctx w' = w_ctx w \<and> w_now w' = w_now w \<and>
    (\<exists>n cs. rows w' = rows w @ cs \<and> list_all2 (copy_of dest) (take n es) cs
       \<and> w_sent w' = w_sent w @ concat (map (published (r_codec R)) cs)
       \<and> (res = Inr () \<longrightarrow> n = length es))"
  using assms
proof (induction es arbitrary: w)
  case Nil
  then show ?case by (auto intro!: exI [of _ 0])
next
  case (Cons x es)
  let ?new = "x\<lparr>ee_id := None, ee_transaction_uuid := dest\<rparr>"
  have x: "stored x" "ee_action x \<noteq> None" "ee_uuid x \<noteq> NULL_UUID" using Cons.prems(2) by simp_all
  note copy = copy_event_apply [OF x(2), of R dest ne]
  from commit_step [OF Cons.prems(1) x, of dest ne]
  show ?case
  proof (elim disjE exE conjE)
    fix err s'
    assume run: "submit R (AnEntry ?new) ne w = (Inl err, w\<lparr>w_events := s'\<rparr>)" and s': "einv s'" "log_of s' = rows w"
    then have "res = Inl err" "w' = w\<lparr>w_events := s'\<rparr>" using Cons.prems(3) by (simp_all add: bindE_apply copy)
    with s' Cons.prems(1) show ?thesis by (auto simp: world_ok_def intro!: exI [of _ 0])
  next
    fix r s'
    let ?w1 = "w\<lparr>w_events := s', w_sent := w_sent w @ published (r_codec R) r\<rparr>"
    assume run: "submit R (AnEntry ?new) ne w = (Inr r, ?w1)"
      and s': "einv s'" "log_of s' = rows w @ [r]" "copy_of dest x r"
    have "winv ?w1" using Cons.prems(1) s'(1) by (simp add: world_ok_def)
    moreover have "forE es (copy_event R dest ne) ?w1 = (res, w')"
      using Cons.prems(3) run by (simp add: bindE_apply copy)
    ultimately obtain n cs where IH: "winv w'" "w_txs w' = w_txs w" "w_ctx w' = w_ctx w" "w_now w' = w_now w"
      "rows w' = log_of s' @ cs" "list_all2 (copy_of dest) (take n es) cs"
      "w_sent w' = w_sent ?w1 @ concat (map (published (r_codec R)) cs)" "res = Inr () \<longrightarrow> n = length es"
      using Cons.IH [of ?w1] Cons.prems(2) by auto
    then show ?thesis
      using s' by (intro conjI exI [of _ "Suc n"] exI [of _ "r # cs"]) auto
  qed
qed

text \<open>\<open>commit\<close> of a reserved transaction, whether the loop ends or an event is refused.\<close>

lemma commit_spec:
  assumes "winv w" "\<not> te_shared e" "te_status e = RESERVED" "accepts (lk w) e COMMITTING"
    and "\<forall>x \<in> set (rows w). stored x \<and> ee_action x \<noteq> None \<and> ee_uuid x \<noteq> NULL_UUID"
    and "commit R (e, w) = (res, (e', w'))"
  defines "dest \<equiv> te_destination_uuid e" and "es \<equiv> events_of (rows w) (te_uuid e)"
  shows "winv w'"
    and "\<exists>n cs. rows w' = rows w @ cs \<and> list_all2 (copy_of dest) (take n es) cs
      \<and> w_sent w' = w_sent w @ concat (map (published (r_codec R)) cs) \<and> (res = Inr () \<longrightarrow> n = length es)"
    and "lk w' = (lk w)(te_uuid e \<mapsto> (if res = Inr ()
        then (core_of e)\<lparr>te_status := COMMITTED, te_event_offset := Some (1 + r_ev_offset R (w_events w')),
               te_updated_at := Some (At (w_now w))\<rparr>
        else (core_of e)\<lparr>te_status := COMMITTING, te_updated_at := Some (At (w_now w))\<rparr>))"
proof -
  have "accepts (lk w) e (te_status (assigned None (Some COMMITTING) e))"
    using assms(4) by (simp add: assigned_def)
  then obtain e1 t1 where s1: "save R None (Some COMMITTING) (e, w) = (Inr (), (e1, w\<lparr>w_txs := t1\<rparr>))" "tinv t1"
    "lookup t1 = (lk w)(te_uuid e \<mapsto> (core_of (assigned None (Some COMMITTING) e))\<lparr>te_updated_at := Some (At (w_now w))\<rparr>)"
    "same_entry (assigned None (Some COMMITTING) e) e1"
    using save_ok [OF assms(1,2)] by blast
  let ?w1 = "w\<lparr>w_txs := t1\<rparr>"
  have w1: "winv ?w1" using assms(1) s1(2) by (simp add: world_ok_def)
  have e1: "te_uuid e1 = te_uuid e" "te_destination_uuid e1 = dest" "\<not> te_shared e1"
    using same_entry_simps [OF s1(4)] assms(2) by (simp_all add: assigned_def dest_def)
  obtain r2 w2 where loop: "forE es (copy_event R dest (Some (te_uuid e))) ?w1 = (r2, w2)" by fastforce
  have ces: "commit_events R e1 ?w1 = (r2, w2)"
    using loop by (simp add: commit_events_eq bindE_apply ev_select_filter [OF w1] e1 es_def events_of_def)
  have "\<forall>x \<in> set es. stored x \<and> ee_action x \<noteq> None \<and> ee_uuid x \<noteq> NULL_UUID"
    using assms(5) by (simp add: es_def events_of_def)
  from commit_loop [OF w1 this loop] obtain n cs where l: "winv w2" "w_txs w2 = t1" "w_now w2 = w_now w"
    "rows w2 = rows w @ cs" "list_all2 (copy_of dest) (take n es) cs"
    "w_sent w2 = w_sent w @ concat (map (published (r_codec R)) cs)" "r2 = Inr () \<longrightarrow> n = length es"
    by auto
  have run: "commit R (e, w) = (case r2 of Inl x \<Rightarrow> (Inl x, (e1, w2))
     | Inr _ \<Rightarrow> save R (Some (1 + r_ev_offset R (w_events w2))) (Some COMMITTED) (e1, w2))"
    using assms(3) ces by (simp add: commit_def selfE_def bindE_apply s1(1) worldE_def ev_offset_def split: sum.splits)
  have mid: "(core_of (assigned None (Some COMMITTING) e))\<lparr>te_updated_at := x\<rparr> = (core_of e)\<lparr>te_status := COMMITTING, te_updated_at := x\<rparr>" for x
    by (cases e) (simp add: assigned_def core_of_def tx_core.truncate_def)
  have "winv w' \<and> rows w' = rows w2 \<and> w_sent w' = w_sent w2 \<and> (res = Inr () \<longrightarrow> r2 = Inr ()) \<and>
     lk w' = (lk w)(te_uuid e \<mapsto> (if res = Inr ()
        then (core_of e)\<lparr>te_status := COMMITTED, te_event_offset := Some (1 + r_ev_offset R (w_events w')),
               te_updated_at := Some (At (w_now w))\<rparr>
        else (core_of e)\<lparr>te_status := COMMITTING, te_updated_at := Some (At (w_now w))\<rparr>))"
  proof (cases r2)
    case (Inl x)
    with run assms(6) have "res = Inl x" "w' = w2" by auto
    with l s1(3) mid show ?thesis by simp
  next
    case (Inr u)
    let ?off = "1 + r_ev_offset R (w_events w2)"
    have "accepts (lk w2) e1 (te_status (assigned (Some ?off) (Some COMMITTED) e1))"
      by (simp add: accepts_def l(2) s1(3) e1 assigned_def dest_def)
    then obtain e2 t2 where s2: "save R (Some ?off) (Some COMMITTED) (e1, w2) = (Inr (), (e2, w2\<lparr>w_txs := t2\<rparr>))" "tinv t2"
      "lookup t2 = (lk w2)(te_uuid e1 \<mapsto> (core_of (assigned (Some ?off) (Some COMMITTED) e1))\<lparr>te_updated_at := Some (At (w_now w2))\<rparr>)"
      using save_ok [OF l(1) e1(3)] by blast
    with run assms(6) Inr have "res = Inr ()" "w' = w2\<lparr>w_txs := t2\<rparr>" by auto
    with s2 l s1(3) Inr assigned_core [OF s1(4)] e1 show ?thesis
      by (simp add: world_ok_def)
  qed
  with l show "winv w'"
    "\<exists>n cs. rows w' = rows w @ cs \<and> list_all2 (copy_of dest) (take n es) cs
      \<and> w_sent w' = w_sent w @ concat (map (published (r_codec R)) cs) \<and> (res = Inr () \<longrightarrow> n = length es)"
    "lk w' = (lk w)(te_uuid e \<mapsto> (if res = Inr ()
        then (core_of e)\<lparr>te_status := COMMITTED, te_event_offset := Some (1 + r_ev_offset R (w_events w')),
               te_updated_at := Some (At (w_now w))\<rparr>
        else (core_of e)\<lparr>te_status := COMMITTING, te_updated_at := Some (At (w_now w))\<rparr>))"
    by auto
qed

text \<open>\<open>uuids\<close> returns the chain: its fuel is enough for every chain there is.\<close>

lemma get_in_Some:
  assumes "tinv t" "lookup t u = Some c"
  shows "\<exists>e. get_in R t u = Inr e \<and> core_of e = c \<and> te_token e = None"
  using select_uuid [OF assms(1), of u] assms(2) by (auto simp: get_in_def split: list.splits)

lemma get_in_None: "tinv t \<Longrightarrow> lookup t u = None \<Longrightarrow> get_in R t u = Inl TransactionNotFoundException"
  using select_uuid [of t u] by (auto simp: get_in_def)

lemma uuids_loop_path:
  assumes "tx_path (lookup t) u us" "tinv t"
  shows "\<lbrakk>get_in R t u = Inr e; length us \<le> n\<rbrakk> \<Longrightarrow> uuids_loop R t n e = Inr us"
  using assms(1)
proof (induction arbitrary: e n rule: tx_path.induct)
  case (outermost u c)
  from get_in_Some [OF assms(2) outermost.hyps(1)] outermost.prems(1) have "core_of e = c" by auto
  then have e: "te_destination_uuid e = NULL_UUID" "te_uuid e = u"
    using outermost.hyps(2) lookup_key [OF assms(2) outermost.hyps(1)] by auto
  from outermost.prems(2) obtain m where "n = Suc m" by (cases n) auto
  with e show ?case by (simp add: destination_def)
next
  case (nested u c us)
  from get_in_Some [OF assms(2) nested.hyps(1)] nested.prems(1) have "core_of e = c" "te_token e = None" by auto
  then have e: "te_destination_uuid e = te_destination_uuid c" "te_uuid e = u" "te_token e = None"
    using lookup_key [OF assms(2) nested.hyps(1)] by auto
  obtain c' where "lookup t (te_destination_uuid c) = Some c'"
    using tx_path_head [OF nested.hyps(3)] by blast
  then obtain d where d: "get_in R t (te_destination_uuid c) = Inr d"
    using get_in_Some [OF assms(2)] by blast
  from nested.prems(2) obtain m where m: "n = Suc m" "length us \<le> m" by (cases n) auto
  with nested.IH [OF d] have "uuids_loop R t m d = Inr us" by simp
  with m e d nested.hyps(2) show ?case by (simp add: destination_def)
qed

lemma path_length:
  assumes "tx_path (lookup t) u us" "tinv t"
  shows "length us \<le> tx_count R t"
proof -
  obtain es where es: "r_tx_select R tx_all t = Inr es" "core_of ` set es = {c. lookup t (te_uuid c) = Some c}"
    using select_ok [OF assms(2), of tx_all] by auto
  have "dom (lookup t) \<subseteq> te_uuid ` core_of ` set es"
  proof
    fix v
    assume "v \<in> dom (lookup t)"
    then obtain c where "lookup t v = Some c" by blast
    with lookup_key [OF assms(2) this] show "v \<in> te_uuid ` core_of ` set es"
      unfolding es(2) by (intro image_eqI [of _ _ c]) simp_all
  qed
  with tx_path_stored [OF assms(1)] have "set us \<subseteq> te_uuid ` core_of ` set es" by simp
  then have "card (set us) \<le> length es"
    by (metis List.finite_set card_image_le card_length card_mono finite_imageI le_trans)
  with tx_path_distinct [OF assms(1)] es(1) show ?thesis
    by (simp add: tx_count_def distinct_card)
qed

lemma stored_chain_path:
  assumes "tx_path (lookup t) u us" "tinv t"
  shows "stored_chain R t u = Inr (NULL_UUID # rev us)"
proof -
  obtain c where "lookup t u = Some c" using tx_path_head [OF assms(1)] by blast
  then obtain e where e: "get_in R t u = Inr e" using get_in_Some [OF assms(2)] by blast
  have "length us \<le> uuids_fuel R t e"
    using path_length [OF assms] by (simp add: uuids_fuel_def)
  from uuids_loop_path [OF assms e this] e show ?thesis
    by (simp add: stored_chain_def uuids_def)
qed

end
section \<open>When a commit succeeds\<close>

text \<open>
  Over a log with unique keys, a reserved transaction commits when its destination is open, no
  other transaction under way touches its entities and none of its versions is taken there.
\<close>

definition ready :: "(uuid \<Rightarrow> tx_core option) \<Rightarrow> EventEntry list \<Rightarrow> uuid \<Rightarrow> uuid \<Rightarrow> bool" where
  "ready lk rows dest self \<longleftrightarrow>
     (\<forall>t. lk dest = Some t \<longrightarrow> te_status t \<notin> set blocking)
     \<and> (\<forall>x \<in> set (events_of rows self).
          \<not> blocked lk rows (ee_uuid x) dest (Some self)
          \<and> (\<forall>r \<in> set rows. \<not> (ee_uuid r = ee_uuid x \<and> ee_version r = ee_version x \<and> ee_transaction_uuid r = dest)))"

locale keyed_repositories =
  repositories R lookup tinv log_of einv +
  keyed_event_store "r_ev_submit R" "r_ev_select R" "r_ev_offset R" log_of einv
  for R :: "('e, 't) repos" and lookup tinv log_of einv
begin

lemma commit_loop_total:
  assumes "winv w" "\<forall>x \<in> set es. stored x \<and> ee_action x \<noteq> None \<and> ee_uuid x \<noteq> NULL_UUID"
    and "dest = NULL_UUID \<or> (\<exists>us. tx_path (lk w) dest us)"
    and "dest \<notin> blockers (lk w) dest ne"
    and "\<forall>x \<in> set es. \<not> blocked (lk w) (rows w) (ee_uuid x) dest ne"
    and "\<forall>x \<in> set es. \<forall>r \<in> set (rows w). \<not> same_key r (x\<lparr>ee_id := None, ee_transaction_uuid := dest\<rparr>)"
    and "distinct (map (\<lambda>x. (ee_uuid x, ee_version x)) es)"
  shows "\<exists>w'. forE es (copy_event R dest ne) w = (Inr (), w')"
  using assms
proof (induction es arbitrary: w)
  case (Cons x es)
  let ?new = "x\<lparr>ee_id := None, ee_transaction_uuid := dest\<rparr>"
  have x: "stored x" "ee_action x \<noteq> None" "ee_uuid x \<noteq> NULL_UUID" using Cons.prems(2) by simp_all
  have chain: "dest = NULL_UUID \<or> (\<exists>us. stored_chain R (w_txs w) dest = Inr us)"
    using Cons.prems(1,3) stored_chain_path by (auto simp: world_ok_def)
  have inv: "einv (w_events w)" using Cons.prems(1) by (simp add: world_ok_def)
  have ent: "?new = to_entry (r_codec R) (current_tx w) (AnEntry ?new)" by (simp add: to_entry_def)
  have nkey: "\<forall>r \<in> set (rows w). \<not> same_key r ?new" using Cons.prems(6) by simp
  obtain r s' where sub: "r_ev_submit R (w_now w) (r_uuid4 R (w_uuid4 w)) (stored_chain R (w_txs w)) ?new (w_events w) = (Inr r, s')"
    using ev_submit_accepts [OF inv, of ?new "stored_chain R (w_txs w)" "w_now w" "r_uuid4 R (w_uuid4 w)"] x chain nkey
    by (fastforce simp: stored_def)
  let ?w1 = "w\<lparr>w_events := s', w_sent := w_sent w @ published (r_codec R) r\<rparr>"
  have run: "submit R (AnEntry ?new) ne w = (Inr r, ?w1)"
    using submit_stored [OF Cons.prems(1) ent _ _ sub, of ne] Cons.prems(5) x by simp
  have s': "einv s'" "log_of s' = rows w @ [r]" "completes (w_now w) (r_uuid4 R (w_uuid4 w)) ?new r"
    using ev_submit_ok [OF inv sub] by auto
  have r: "ee_transaction_uuid r = dest" "ee_uuid r = ee_uuid x" "ee_version r = ee_version x"
    using s'(3) x by (auto simp: completes_def stored_def)
  have "winv ?w1" using Cons.prems(1) s'(1) by (simp add: world_ok_def)
  moreover have "\<forall>y \<in> set es. \<not> blocked (lk ?w1) (rows ?w1) (ee_uuid y) dest ne"
    using Cons.prems(4,5) s'(2) r(1) by (auto simp: blocked_def)
  moreover have "\<forall>y \<in> set es. \<forall>z \<in> set (rows ?w1). \<not> same_key z (y\<lparr>ee_id := None, ee_transaction_uuid := dest\<rparr>)"
  proof (intro ballI)
    fix y z
    assume y: "y \<in> set es" and z: "z \<in> set (rows ?w1)"
    have "(ee_uuid x, ee_version x) \<noteq> (ee_uuid y, ee_version y)"
      using Cons.prems(7) imageI [OF y, of "\<lambda>x. (ee_uuid x, ee_version x)"] by auto
    with r have "\<not> same_key r (y\<lparr>ee_id := None, ee_transaction_uuid := dest\<rparr>)" by (simp add: same_key_def)
    with Cons.prems(6) y z s'(2) show "\<not> same_key z (y\<lparr>ee_id := None, ee_transaction_uuid := dest\<rparr>)" by auto
  qed
  ultimately obtain w' where "forE es (copy_event R dest ne) ?w1 = (Inr (), w')"
    using Cons.IH [of ?w1] Cons.prems by auto
  with run x(2) show ?case
    by (simp add: bindE_apply copy_event_apply)
qed simp

lemma commit_total:
  assumes "winv w" "\<not> te_shared e" "te_status e = RESERVED" "accepts (lk w) e COMMITTING"
    and "\<forall>x \<in> set (rows w). stored x \<and> ee_action x \<noteq> None \<and> ee_uuid x \<noteq> NULL_UUID"
    and "lk w (te_uuid e) \<noteq> None" "te_destination_uuid e \<noteq> te_uuid e"
    and "te_destination_uuid e = NULL_UUID \<or> (\<exists>us. tx_path (lk w) (te_destination_uuid e) us)"
    and "ready (lk w) (rows w) (te_destination_uuid e) (te_uuid e)"
  shows "\<exists>e' w'. commit R (e, w) = (Inr (), (e', w'))"
proof -
  let ?d = "te_destination_uuid e" and ?s = "te_uuid e"
  obtain e1 t1 where s1: "save R None (Some COMMITTING) (e, w) = (Inr (), (e1, w\<lparr>w_txs := t1\<rparr>))" "tinv t1"
    "lookup t1 = (lk w)(?s \<mapsto> (core_of (assigned None (Some COMMITTING) e))\<lparr>te_updated_at := Some (At (w_now w))\<rparr>)"
    "same_entry (assigned None (Some COMMITTING) e) e1"
    using save_ok [OF assms(1,2), of None "Some COMMITTING"] assms(4) by (auto simp: assigned_def)
  let ?w1 = "w\<lparr>w_txs := t1\<rparr>" and ?es = "events_of (rows w) ?s"
  have w1: "winv ?w1" using assms(1) s1(2) by (simp add: world_ok_def)
  have e1: "te_uuid e1 = ?s" "te_destination_uuid e1 = ?d" "\<not> te_shared e1"
    using same_entry_simps [OF s1(4)] assms(2) by (simp_all add: assigned_def)
  have dests: "map_option te_destination_uuid (lk w v) = map_option te_destination_uuid (lk ?w1 v)" for v
    using assms(4,6) by (auto simp: s1(3) accepts_def assigned_def)
  have bl: "blockers (lk ?w1) ?d (Some ?s) = blockers (lk w) ?d (Some ?s)"
    by (auto simp: blockers_def s1(3) split: if_splits)
  have path: "?d = NULL_UUID \<or> (\<exists>us. tx_path (lk ?w1) ?d us)"
    using assms(8) tx_path_cong [of "lk w" _ _ "lk ?w1", OF _ dests] by blast
  have keys: "distinct (map (\<lambda>x. (ee_uuid x, ee_version x)) ?es)"
    using einv_keys [of "w_events w"] assms(1) distinct_keys_of_tx unfolding world_ok_def events_of_def by blast
  obtain w2 where loop: "forE ?es (copy_event R ?d (Some ?s)) ?w1 = (Inr (), w2)"
  proof (rule exE [OF commit_loop_total [OF w1 _ path _ _ _ keys]])
    show "\<forall>x \<in> set ?es. stored x \<and> ee_action x \<noteq> None \<and> ee_uuid x \<noteq> NULL_UUID"
      using assms(5) by (simp add: events_of_def)
    show "?d \<notin> blockers (lk ?w1) ?d (Some ?s)"
      unfolding bl using assms(9) by (auto simp: ready_def blockers_def)
    show "\<forall>x \<in> set ?es. \<not> blocked (lk ?w1) (rows ?w1) (ee_uuid x) ?d (Some ?s)"
      using assms(9) unfolding blocked_def bl by (simp add: ready_def blocked_def)
    show "\<forall>x \<in> set ?es. \<forall>r \<in> set (rows ?w1). \<not> same_key r (x\<lparr>ee_id := None, ee_transaction_uuid := ?d\<rparr>)"
      using assms(9) by (simp add: ready_def same_key_def)
  qed
  have ces: "commit_events R e1 ?w1 = (Inr (), w2)"
    using loop by (simp add: commit_events_eq bindE_apply ev_select_filter [OF w1] e1 events_of_def)
  have w2: "winv w2" "w_txs w2 = t1"
    using commit_loop [OF w1 _ loop] assms(5) by (auto simp: events_of_def)
  let ?off = "1 + r_ev_offset R (w_events w2)"
  have "accepts (lk w2) e1 (te_status (assigned (Some ?off) (Some COMMITTED) e1))"
    by (simp add: accepts_def w2(2) s1(3) e1 assigned_def)
  then obtain e2 t2 where "save R (Some ?off) (Some COMMITTED) (e1, w2) = (Inr (), (e2, w2\<lparr>w_txs := t2\<rparr>))"
    using save_ok [OF w2(1) e1(3)] by blast
  with assms(3) ces show ?thesis
    by (simp add: commit_def selfE_def bindE_apply s1(1) worldE_def ev_offset_def)
qed

end

end
