(* ===== verification/Two_Phase.thy ===== *)
theory Two_Phase
  imports Protocol "HOL-Library.Sublist"
begin

text \<open>
  The two pairs of repositories of the package, the interpretation of the protocol's locales on
  them, and the runs of the database pair: a step relation whose steps are the public operations,
  and what no run undoes. The properties of the transaction protocol are stated here.
\<close>

section \<open>The repositories in use\<close>

definition mem_repos :: "codec \<Rightarrow> (nat \<Rightarrow> uuid) \<Rightarrow> (mem_events, mem_tx) repos" where
  "mem_repos c g = \<lparr>r_ev_submit = mem_ev_submit, r_ev_select = mem_ev_select, r_ev_offset = mem_ev_offset,
     r_tx_submit = mem_tx_submit, r_tx_select = mem_tx_select, r_tx_assign = mem_tx_assign,
     r_codec = c, r_uuid4 = g\<rparr>"

definition db_repos :: "codec \<Rightarrow> (nat \<Rightarrow> uuid) \<Rightarrow> (db_events, db_tx) repos" where
  "db_repos c g = \<lparr>r_ev_submit = db_ev_submit, r_ev_select = db_ev_select, r_ev_offset = db_ev_offset,
     r_tx_submit = db_tx_submit, r_tx_select = db_tx_select, r_tx_assign = (\<lambda>_ t. t),
     r_codec = c, r_uuid4 = g\<rparr>"

lemma mem_repos_simps [simp]:
  "r_ev_submit (mem_repos c g) = mem_ev_submit" "r_ev_select (mem_repos c g) = mem_ev_select"
  "r_ev_offset (mem_repos c g) = mem_ev_offset" "r_tx_submit (mem_repos c g) = mem_tx_submit"
  "r_tx_select (mem_repos c g) = mem_tx_select" "r_tx_assign (mem_repos c g) = mem_tx_assign"
  "r_codec (mem_repos c g) = c" "r_uuid4 (mem_repos c g) = g"
  by (simp_all add: mem_repos_def)

lemma db_repos_simps [simp]:
  "r_ev_submit (db_repos c g) = db_ev_submit" "r_ev_select (db_repos c g) = db_ev_select"
  "r_ev_offset (db_repos c g) = db_ev_offset" "r_tx_submit (db_repos c g) = db_tx_submit"
  "r_tx_select (db_repos c g) = db_tx_select" "r_tx_assign (db_repos c g) = (\<lambda>_ t. t)"
  "r_codec (db_repos c g) = c" "r_uuid4 (db_repos c g) = g"
  by (simp_all add: db_repos_def)

interpretation mem_proto: repositories "mem_repos c g" dict_get tx_inv me_storage mem_ev_inv for c g
  by (unfold_locales, unfold mem_repos_simps)
     (rule mem_tx.submit_ok mem_tx.submit_refused mem_tx.lookup_key mem_tx.select_ok
        mem_ev.einv_log mem_ev.ev_submit_ok mem_ev.ev_submit_refused mem_ev.ev_select_ok
        mem_ev.ev_offset_ok, assumption+ | simp add: mem_tx_assign_def)+

section \<open>Detached entries\<close>

text \<open>
  A repository that hands out copies and does not let an entry change its destination. The
  database does; the in-memory repository hands out its own objects.
\<close>

definition progress :: "(uuid \<Rightarrow> tx_core option) \<Rightarrow> (uuid \<Rightarrow> tx_core option) \<Rightarrow> bool" where
  "progress lk lk' \<longleftrightarrow> (\<forall>u t. lk u = Some t \<longrightarrow>
     (\<exists>t'. lk' u = Some t' \<and> transition\<^sup>*\<^sup>* (te_status t) (te_status t')
           \<and> te_destination_uuid t' = te_destination_uuid t))"

lemma progress_refl [simp]: "progress lk lk"
  by (auto simp: progress_def)

lemma progress_trans: "progress a b \<Longrightarrow> progress b c \<Longrightarrow> progress a c"
  unfolding progress_def by (metis rtranclp_trans)

lemma transition_terminal: "transition\<^sup>*\<^sup>* a b \<Longrightarrow> a \<in> {COMMITTED, REJECTED} \<Longrightarrow> b = a"
  by (induction rule: converse_rtranclp_induct) auto

lemma keeps_selfE [keeprules]: "keeps P (selfE f)"
  by (simp add: selfE_def)

lemma keeps_selects [keeprules]:
  "keeps P (tx_select R q)" "keeps P (tx_get R u)" "keeps P (ev_select R eq)" "keeps P (ev_offset R)"
  by (simp_all add: keeps_def tx_select_def tx_get_def ev_select_def ev_offset_def)

lemma keeps_rivals_loop [keeprules]: "keeps P (rivals_loop R dest self kvs)"
  by (induction R dest self kvs rule: rivals_loop.induct) (simp only: rivals_loop.simps, intro keeprules)+

lemma keeps_tx_validate [keeprules]: "keeps P (tx_validate R self)"
  unfolding tx_validate_def by (intro keeprules)

locale detached_repositories = keyed_repositories +
  assumes select_detached: "r_tx_select R q t = Inr es \<Longrightarrow> e \<in> set es \<Longrightarrow> \<not> te_shared e"
    and submit_same_destination: "\<lbrakk>tinv t; r_tx_submit R now e t = (Inr e', t'); lookup t (te_uuid e) = Some c\<rbrakk>
      \<Longrightarrow> te_destination_uuid c = te_destination_uuid e"
begin

text \<open>The world after \<open>w0\<close>: the invariant, a log that only grew, statuses that only moved on.\<close>

abbreviation after :: "('a, 'b) world \<Rightarrow> ('a, 'b) world \<Rightarrow> bool" where
  "after w0 w \<equiv> winv w \<and> prefix (rows w0) (rows w) \<and> progress (lk w0) (lk w)"

abbreviation after_with :: "('a, 'b) world \<Rightarrow> TransactionEntry \<times> ('a, 'b) world \<Rightarrow> bool" where
  "after_with w0 s \<equiv> \<not> te_shared (fst s) \<and> after w0 (snd s)"

lemma keeps_worldE [keeprules]: "keeps (after w0) m \<Longrightarrow> keeps (after_with w0) (worldE m)"
  by (fastforce simp: keeps_def worldE_def split: prod.splits)

lemma keeps_ev_store [keeprules]: "keeps (after w0) (ev_store R e)"
proof (rule keepsI)
  fix w
  assume w: "after w0 w"
  then have inv: "einv (w_events w)" by (simp add: world_ok_def)
  obtain res s' where sub: "r_ev_submit R (w_now w) (r_uuid4 R (w_uuid4 w)) (stored_chain R (w_txs w)) e (w_events w) = (res, s')"
    by fastforce
  have "einv s' \<and> prefix (rows w) (log_of s')"
    using ev_submit_ok [OF inv] ev_submit_refused [OF inv] sub by (cases res) auto
  with w show "after w0 (snd (ev_store R e w))"
    by (auto simp: ev_store_def sub world_ok_def elim: prefix_order.trans)
qed

lemma keeps_save [keeprules]: "keeps (after_with w0) (save R off st)"
proof (rule keepsI)
  fix s
  assume "after_with w0 s"
  then obtain e w where s: "s = (e, w)" "\<not> te_shared e" "after w0 w" by (cases s) auto
  let ?a = "assigned off st e"
  have a: "\<not> te_shared ?a" "te_uuid ?a = te_uuid e" using s(2) by (simp_all add: assigned_def)
  have inv: "tinv (w_txs w)" using s(3) by (simp add: world_ok_def)
  obtain res t' where sub: "r_tx_submit R (w_now w) ?a (w_txs w) = (res, t')" by fastforce
  show "after_with w0 (snd (save R off st s))"
  proof (cases res)
    case (Inl x)
    with submit_refused [OF inv a(1)] sub have "t' = w_txs w" by simp
    with Inl s a sub show ?thesis by (simp add: save_apply assign_unshared)
  next
    case (Inr e')
    note ok = submit_ok [OF inv a(1) sub [unfolded Inr]]
    have "progress (lk w) (lookup t')"
      using ok submit_same_destination [OF inv sub [unfolded Inr]] by (auto simp: progress_def)
    with s(3) have "progress (lk w0) (lookup t')" using progress_trans by blast
    with Inr ok s sub show ?thesis by (simp add: save_apply assign_unshared [OF a(1)] world_ok_def)
  qed
qed

lemma keeps_submit [keeprules]: "keeps (after w0) (submit R a ne)"
proof (rule keepsI)
  fix w
  assume w: "after w0 w"
  have "keeps (after w0) (submit_entry R x ne)" for x
    unfolding submit_entry_def ev_validate_def send_events_def
    by (intro keeprules keeps_modifyE) (simp_all add: world_ok_def)
  from keepsD [OF this [of "to_entry (r_codec R) (current_tx w) a"], of "w\<lparr>w_serializing := True\<rparr>"] w
  show "after w0 (snd (submit R a ne w))"
    by (auto simp: submit_apply world_ok_def split: prod.splits)
qed

lemma keeps_reserve [keeprules]: "keeps (after_with w0) (reserve R)"
  unfolding reserve_def by (intro keeprules)

lemma keeps_commit [keeprules]: "keeps (after_with w0) (commit R)"
  unfolding commit_def commit_events_def by (intro keeprules)

lemma keeps_reject [keeprules]: "keeps (after_with w0) (reject R)"
  unfolding reject_def by (intro keeprules)

lemma keeps_aenter [keeprules]: "keeps (after_with w0) (aenter R)"
  unfolding aenter_def by (intro keeprules keeps_modifyE) (auto simp: world_ok_def)

lemma keeps_aexit [keeprules]: "keeps (after_with w0) (aexit R)"
  unfolding aexit_def
  by (intro keeprules keeps_modifyE) (auto simp: world_ok_def)

lemma keeps_on_entry [keeprules]:
  "\<not> te_shared e \<Longrightarrow> keeps (after_with w0) m \<Longrightarrow> keeps (after w0) (on_entry e m)"
  by (fastforce simp: keeps_def on_entry_def split: prod.splits)

lemma service_get_detached: "service_get R u w = (Inr e, w') \<Longrightarrow> \<not> te_shared e"
  using select_detached
  by (fastforce simp: service_get_def catchE_def tx_get_def get_in_def as_response_def
      split: sum.splits list.splits option.splits if_splits)

lemma keeps_service_get [keeprules]: "keeps P (service_get R u)"
  unfolding service_get_def as_response_def by (intro keeprules) (auto split: if_splits)

lemma keeps_service:
  "keeps (after w0) (service_reserve R u)" "keeps (after w0) (service_commit R u)"
  "keeps (after w0) (service_reject R u)" "keeps (after w0) (service_reject_blocked R)"
proof -
  have response: "keeps (after w0) (catchE (on_entry e m) (\<lambda>x. as_response (p x)))"
    if "\<not> te_shared e" "keeps (after_with w0) m" for e p and m :: "('a, 'b, unit) txop"
    using that by (intro keeprules) (auto simp: as_response_def split: if_splits)
  show "keeps (after w0) (service_reserve R u)" "keeps (after w0) (service_commit R u)"
    "keeps (after w0) (service_reject R u)"
    unfolding service_reserve_def service_commit_def service_reject_def
    by (rule keeps_bindE_result, intro keeprules, drule service_get_detached, intro keeprules response; assumption)+
  show "keeps (after w0) (service_reject_blocked R)"
    unfolding service_reject_blocked_def
  proof (rule keeps_bindE, intro keeprules, rule keeps_bindE_result, intro keeprules)
    fix limit w es w'
    assume "tx_select R (tx_all\<lparr>tq_status_in := Some [RESERVED], tq_updated_at_lt := Some limit\<rparr>) w = (Inr es, w')"
    then have "\<not> te_shared e" if "e \<in> set es" for e
      using that select_detached by (auto simp: tx_select_def)
    then show "keeps (after w0) (forE es (\<lambda>e. catchE (on_entry e (reject R))
       (\<lambda>x. if x = TransactionRepositoryConflictException then Some (retE ()) else None)))"
      by (intro keeprules) (auto split: if_splits)
  qed
qed

end

interpretation db_proto: detached_repositories "db_repos c g" dict_get tx_inv de_rows db_ev_inv for c g
proof (unfold_locales, unfold db_repos_simps, goal_cases)
  case (1 d e now e' d') then show ?case by (rule db_tx.submit_ok)
next
  case (2 d e now x d') then show ?case by (rule db_tx.submit_refused)
next
  case (3 d u t) then show ?case by (rule db_tx.lookup_key)
next
  case (4 d q) then show ?case by (rule db_tx.select_ok)
next
  case (5 s) then show ?case by (rule db_ev.einv_log)
next
  case (6 s now fresh chain e r s') then show ?case by (rule db_ev.ev_submit_ok)
next
  case (7 s now fresh chain e x s') then show ?case by (rule db_ev.ev_submit_refused)
next
  case (8 s q) then show ?case by (rule db_ev.ev_select_ok)
next
  case (9 s) then show ?case by (rule db_ev.ev_offset_ok)
next
  case (10 e t) then show ?case by simp
next
  case (11 s) then show ?case by (rule db_ev.einv_keys)
next
  case (12 s e chain now fresh) then show ?case by (rule db_ev.ev_submit_accepts)
next
  case (13 q t es e) then show ?case by (auto simp: db_tx_select_def)
next
  case (14 t now e e' t' c)
  then show ?case by (auto simp: db_tx_submit_def db_tx_where_def split: if_splits)
qed

section \<open>Runs\<close>

text \<open>
  What can happen to the database pair, in any order: an event is submitted, a client enters, leaves,
  reserves, commits or rejects a transaction with an entry object of its own (which may be stale),
  a message or the periodic task reaches the service, the clock advances. Whether the operation
  raises does not matter: the step is what it leaves behind.
\<close>

inductive db_step :: "codec \<Rightarrow> (nat \<Rightarrow> uuid) \<Rightarrow> (db_events, db_tx) world \<Rightarrow> (db_events, db_tx) world \<Rightarrow> bool"
  for c g where
  submits: "submit (db_repos c g) a ne w = (r, w') \<Longrightarrow> db_step c g w w'"
| enters: "\<lbrakk>\<not> te_shared e; aenter (db_repos c g) (e, w) = (r, (e', w'))\<rbrakk> \<Longrightarrow> db_step c g w w'"
| leaves: "\<lbrakk>\<not> te_shared e; aexit (db_repos c g) (e, w) = (r, (e', w'))\<rbrakk> \<Longrightarrow> db_step c g w w'"
| reserves: "\<lbrakk>\<not> te_shared e; reserve (db_repos c g) (e, w) = (r, (e', w'))\<rbrakk> \<Longrightarrow> db_step c g w w'"
| commits: "\<lbrakk>\<not> te_shared e; commit (db_repos c g) (e, w) = (r, (e', w'))\<rbrakk> \<Longrightarrow> db_step c g w w'"
| rejects: "\<lbrakk>\<not> te_shared e; reject (db_repos c g) (e, w) = (r, (e', w'))\<rbrakk> \<Longrightarrow> db_step c g w w'"
| on_reserve: "service_reserve (db_repos c g) u w = (r, w') \<Longrightarrow> db_step c g w w'"
| on_commit: "service_commit (db_repos c g) u w = (r, w') \<Longrightarrow> db_step c g w w'"
| on_reject: "service_reject (db_repos c g) u w = (r, w') \<Longrightarrow> db_step c g w w'"
| on_timer: "service_reject_blocked (db_repos c g) w = (r, w') \<Longrightarrow> db_step c g w w'"
| ticks: "w_now w \<le> t \<Longrightarrow> db_step c g w (w\<lparr>w_now := t\<rparr>)"

abbreviation db_ok :: "(db_events, db_tx) world \<Rightarrow> bool" where
  "db_ok \<equiv> world_ok tx_inv db_ev_inv"

abbreviation db_txs :: "(db_events, db_tx) world \<Rightarrow> uuid \<Rightarrow> tx_core option" where
  "db_txs w \<equiv> dict_get (w_txs w)"

abbreviation db_log :: "(db_events, db_tx) world \<Rightarrow> EventEntry list" where
  "db_log w \<equiv> de_rows (w_events w)"

definition db_after :: "(db_events, db_tx) world \<Rightarrow> (db_events, db_tx) world \<Rightarrow> bool" where
  "db_after w0 w \<longleftrightarrow> db_ok w \<and> prefix (db_log w0) (db_log w) \<and> progress (db_txs w0) (db_txs w)"

lemma db_after_op: "keeps (\<lambda>w. db_ok w \<and> prefix (db_log w0) (db_log w) \<and> progress (db_txs w0) (db_txs w)) m
  \<Longrightarrow> db_after w0 w \<Longrightarrow> m w = (r, w') \<Longrightarrow> db_after w0 w'"
  unfolding db_after_def by (rule keepsD_eq)

lemma db_after_txop: "keeps (\<lambda>s. \<not> te_shared (fst s) \<and> db_ok (snd s) \<and> prefix (db_log w0) (db_log (snd s))
     \<and> progress (db_txs w0) (db_txs (snd s))) m
  \<Longrightarrow> db_after w0 w \<Longrightarrow> \<not> te_shared e \<Longrightarrow> m (e, w) = (r, (e', w')) \<Longrightarrow> db_after w0 w'"
  unfolding db_after_def by (frule (1) keepsD_eq) simp_all

lemma db_step_after: "db_step c g w w' \<Longrightarrow> db_after w0 w \<Longrightarrow> db_after w0 w'"
proof (induction rule: db_step.induct)
  case (submits a ne w r w')
  show ?case by (rule db_after_op [OF db_proto.keeps_submit submits.prems submits.hyps])
next
  case (enters e w r e' w')
  show ?case by (rule db_after_txop [OF db_proto.keeps_aenter enters.prems enters.hyps])
next
  case (leaves e w r e' w')
  show ?case by (rule db_after_txop [OF db_proto.keeps_aexit leaves.prems leaves.hyps])
next
  case (reserves e w r e' w')
  show ?case by (rule db_after_txop [OF db_proto.keeps_reserve reserves.prems reserves.hyps])
next
  case (commits e w r e' w')
  show ?case by (rule db_after_txop [OF db_proto.keeps_commit commits.prems commits.hyps])
next
  case (rejects e w r e' w')
  show ?case by (rule db_after_txop [OF db_proto.keeps_reject rejects.prems rejects.hyps])
next
  case (on_reserve u w r w')
  show ?case by (rule db_after_op [OF db_proto.keeps_service(1) on_reserve.prems on_reserve.hyps])
next
  case (on_commit u w r w')
  show ?case by (rule db_after_op [OF db_proto.keeps_service(2) on_commit.prems on_commit.hyps])
next
  case (on_reject u w r w')
  show ?case by (rule db_after_op [OF db_proto.keeps_service(3) on_reject.prems on_reject.hyps])
next
  case (on_timer w r w')
  show ?case by (rule db_after_op [OF db_proto.keeps_service(4) on_timer.prems on_timer.hyps])
next
  case (ticks w t)
  then show ?case by (simp add: db_after_def world_ok_def)
qed

lemma db_run_after: "(db_step c g)\<^sup>*\<^sup>* w w' \<Longrightarrow> db_ok w \<Longrightarrow> db_after w w'"
proof (induction rule: rtranclp_induct)
  case base
  then show ?case by (simp add: db_after_def)
qed (blast intro: db_step_after)

end
