(* ===== verification/Tx_Properties.thy ===== *)
theory Tx_Properties
  imports Two_Phase
begin

text \<open>
  The properties of the transaction protocol: what a reservation and a commit do, isolation of
  reserved entities, what no run undoes, termination of the walk over nested transactions, the
  message handlers; and the places where the protocol or one of the repositories does not do what
  it means to, each on a concrete run.
\<close>

section \<open>Executable forms of the specification\<close>

lemma accepts_code [code]:
  "accepts lk e st = (case lk (te_uuid e) of None \<Rightarrow> True
     | Some t \<Rightarrow> transition (te_status t) st \<and> te_destination_uuid t = te_destination_uuid e)"
  by (simp add: accepts_def split: option.splits)

definition is_blocker :: "(uuid \<Rightarrow> tx_core option) \<Rightarrow> uuid \<Rightarrow> uuid option \<Rightarrow> uuid \<Rightarrow> bool" where
  "is_blocker lk dest ne u = (case lk u of None \<Rightarrow> False
     | Some t \<Rightarrow> te_destination_uuid t = dest \<and> ne \<noteq> Some u \<and> te_status t \<in> set blocking)"

lemma blocked_code [code]:
  "blocked lk rows u dest ne \<longleftrightarrow>
     (\<exists>r \<in> set rows. ee_uuid r = u \<and> is_blocker lk dest ne (ee_transaction_uuid r))"
  unfolding blocked_def blockers_def is_blocker_def by (auto split: option.splits)

lemma committable_code [code]:
  "committable lk rows dest self \<longleftrightarrow>
     (case lk dest of None \<Rightarrow> True | Some t \<Rightarrow> te_status t = PENDING)
     \<and> (\<forall>x \<in> set (events_of rows self).
         top_version (events_of rows self) (ee_uuid x) (the (ee_version x)) \<longrightarrow>
         (\<forall>r \<in> set rows. ee_uuid r = ee_uuid x \<and> ee_version r = Some (the (ee_version x)) \<longrightarrow>
            ee_transaction_uuid r \<noteq> dest
            \<and> (ee_transaction_uuid r \<noteq> self \<longrightarrow>
                (case lk (ee_transaction_uuid r) of None \<Rightarrow> True
                 | Some t \<Rightarrow> te_destination_uuid t = dest \<longrightarrow> te_status t \<notin> set winning))))"
proof -
  have top: "(\<forall>u v. top_version es u v \<longrightarrow> P u v)
      \<longleftrightarrow> (\<forall>x \<in> set es. top_version es (ee_uuid x) (the (ee_version x)) \<longrightarrow> P (ee_uuid x) (the (ee_version x)))"
    for es P by (auto simp: top_version_def)
  have opt: "(\<forall>t. x = Some t \<and> Q t \<longrightarrow> R t) \<longleftrightarrow> (case x of None \<Rightarrow> True | Some t \<Rightarrow> Q t \<longrightarrow> R t)"
    "(\<forall>t. x = Some t \<longrightarrow> R t) \<longleftrightarrow> (case x of None \<Rightarrow> True | Some t \<Rightarrow> R t)"
    for x :: "tx_core option" and Q R by (auto split: option.splits)
  show ?thesis
    unfolding committable_def top opt ..
qed

lemma ready_code [code]:
  "ready lk rows dest self \<longleftrightarrow>
     (case lk dest of None \<Rightarrow> True | Some t \<Rightarrow> te_status t \<notin> set blocking)
     \<and> (\<forall>x \<in> set (events_of rows self).
          \<not> blocked lk rows (ee_uuid x) dest (Some self)
          \<and> (\<forall>r \<in> set rows. \<not> (ee_uuid r = ee_uuid x \<and> ee_version r = ee_version x \<and> ee_transaction_uuid r = dest)))"
  by (simp add: ready_def split: option.splits)

section \<open>Concrete runs\<close>

definition demo_codec :: codec where
  "demo_codec = \<lparr>avro_bytes = (\<lambda>_. []), from_avro_bytes = (\<lambda>_. [])\<rparr>"

definition demo_entry :: "uuid \<Rightarrow> uuid \<Rightarrow> EventEntry" where
  "demo_entry u tx = \<lparr>ee_uuid = u, ee_name = ''Car'', ee_version = None, ee_data = [], ee_id = None,
     ee_action = Some UPDATE, ee_created_at = None, ee_transaction_uuid = tx\<rparr>"

definition demo_tx :: "uuid \<Rightarrow> TransactionStatus \<Rightarrow> TransactionEntry" where
  "demo_tx u st = \<lparr>te_uuid = u, te_status = st, te_event_offset = None, te_destination_uuid = 0,
     te_updated_at = None, te_autocommit = True, te_token = None, te_shared = False\<rparr>"

definition demo_world :: "'e \<Rightarrow> 't \<Rightarrow> ('e, 't) world" where
  "demo_world e t = \<lparr>w_events = e, w_txs = t, w_sent = [], w_ctx = [], w_serializing = False,
     w_now = 0, w_uuid4 = 0\<rparr>"

abbreviation demo_db :: "(db_events, db_tx) repos" where
  "demo_db \<equiv> db_repos demo_codec Suc"

abbreviation demo_mem :: "(mem_events, mem_tx) repos" where
  "demo_mem \<equiv> mem_repos demo_codec Suc"

definition runs :: "('e, 't, unit) wop list \<Rightarrow> ('e, 't) world \<Rightarrow> ('e, 't) world" where
  "runs ms w = fold (\<lambda>m w. snd (m w)) ms w"

definition submits_entry :: "('e, 't) repos \<Rightarrow> EventEntry \<Rightarrow> ('e, 't, unit) wop" where
  "submits_entry R e = bindE (submit R (AnEntry e) None) (\<lambda>_. retE ())"

definition saves_tx :: "('e, 't) repos \<Rightarrow> TransactionEntry \<Rightarrow> ('e, 't, unit) wop" where
  "saves_tx R e = on_entry e (save R None None)"

text \<open>One entity with an event, and a transaction with a second one.\<close>

definition world_open :: "(db_events, db_tx) world" where
  "world_open = runs [submits_entry demo_db (demo_entry 7 0), saves_tx demo_db (demo_tx 1 PENDING),
     submits_entry demo_db (demo_entry 7 1)] (demo_world db_events_init [])"

definition world_reserved :: "(db_events, db_tx) world" where
  "world_reserved = runs [service_reserve demo_db 1] world_open"

text \<open>The transaction of another client, with two events of the same entity.\<close>

definition world_rivals :: "(db_events, db_tx) world" where
  "world_rivals = runs [submits_entry demo_db (demo_entry 7 0), saves_tx demo_db (demo_tx 1 PENDING),
     saves_tx demo_db (demo_tx 2 PENDING), submits_entry demo_db (demo_entry 7 1),
     submits_entry demo_db (demo_entry 7 2), submits_entry demo_db (demo_entry 7 2)]
     (demo_world db_events_init [])"

definition world_mem :: "(mem_events, mem_tx) world" where
  "world_mem = runs [submits_entry demo_mem (demo_entry 7 0), saves_tx demo_mem (demo_tx 1 PENDING),
     submits_entry demo_mem (demo_entry 7 1)] (demo_world mem_events_init [])"

lemma world_open_ok: "db_ok world_open" "\<not> te_shared (demo_tx 1 PENDING)" "te_status (demo_tx 1 PENDING) = PENDING"
  "accepts (db_txs world_open) (demo_tx 1 PENDING) RESERVING"
  "te_destination_uuid (demo_tx 1 PENDING) \<noteq> te_uuid (demo_tx 1 PENDING)"
  by code_simp+

section \<open>Reserving\<close>

text \<open>C1: \<open>reserve\<close> of a pending transaction always ends in one of two ways. If the transaction is
  committable (its destination is still open, and no event with the greatest version it has of an
  entity is in the destination or in another transaction under way) it becomes RESERVED and the call
  returns; otherwise it becomes REJECTED and the call raises the conflict exception with the offset.
  The stored transaction gets that status and the offset after the last event; no event, message
  or other transaction changes.\<close>

theorem reserve_outcome:
  assumes "db_ok w" "\<not> te_shared e" "te_status e = PENDING" "accepts (db_txs w) e RESERVING"
    "te_destination_uuid e \<noteq> te_uuid e"
  shows "\<exists>e' w'. reserve (db_repos c g) (e, w) =
      (if committable (db_txs w) (db_log w) (te_destination_uuid e) (te_uuid e)
       then Inr () else Inl (EventRepositoryConflictException (1 + log_offset (db_log w))), (e', w'))
    \<and> te_status e' = (if committable (db_txs w) (db_log w) (te_destination_uuid e) (te_uuid e)
       then RESERVED else REJECTED)
    \<and> db_txs w' = (db_txs w)(te_uuid e \<mapsto> (core_of e)\<lparr>te_status := te_status e',
         te_event_offset := Some (1 + log_offset (db_log w)), te_updated_at := Some (At (w_now w))\<rparr>)
    \<and> w_events w' = w_events w \<and> w_sent w' = w_sent w"
proof -
  let ?ok = "committable (db_txs w) (db_log w) (te_destination_uuid e) (te_uuid e)"
  have off: "db_ev_offset (w_events w) = log_offset (db_log w)"
    using assms(1) db_ev.ev_offset_ok by (simp add: world_ok_def)
  obtain e' t' where r:
    "reserve (db_repos c g) (e, w) = (if ?ok then Inr () else Inl (EventRepositoryConflictException (1 + log_offset (db_log w))), (e', w\<lparr>w_txs := t'\<rparr>))"
    "dict_get t' = (db_txs w)(te_uuid e \<mapsto> (core_of e)\<lparr>te_status := if ?ok then RESERVED else REJECTED,
        te_event_offset := Some (1 + log_offset (db_log w)), te_updated_at := Some (At (w_now w))\<rparr>)"
    "same_entry (assigned (Some (1 + log_offset (db_log w))) (Some (if ?ok then RESERVED else REJECTED)) e) e'"
    by (rule db_proto.reserve_spec [OF assms, where c = c and g = g, unfolded db_repos_simps off])
  then show ?thesis
    using same_entry_simps(3) [OF r(3)] by (auto simp: assigned_def)
qed

theorem reserve_outcome_witness:
  "\<exists>e' w'. reserve demo_db (demo_tx 1 PENDING, world_open) = (Inr (), (e', w'))
     \<and> te_status e' = RESERVED \<and> w_events w' = w_events world_open"
proof -
  have "committable (db_txs world_open) (db_log world_open) (te_destination_uuid (demo_tx 1 PENDING)) (te_uuid (demo_tx 1 PENDING))"
    by code_simp
  then show ?thesis
    using reserve_outcome [OF world_open_ok, of demo_codec Suc] by auto
qed

section \<open>Committing\<close>

text \<open>C2: \<open>commit\<close> of a reserved transaction succeeds when its destination is open, no other
  transaction under way touches its entities and none of its versions is taken in the destination:
  every event of the transaction is appended again for the destination, in order and with a new
  identifier, the transaction becomes COMMITTED at the offset after them, and the messages of the
  copies are published exactly when the destination is the null transaction.\<close>

theorem commit_outcome:
  assumes "db_ok w" "\<not> te_shared e" "te_status e = RESERVED" "accepts (db_txs w) e COMMITTING"
    and "\<forall>x \<in> set (db_log w). stored x \<and> ee_action x \<noteq> None \<and> ee_uuid x \<noteq> NULL_UUID"
    and "db_txs w (te_uuid e) \<noteq> None" "te_destination_uuid e \<noteq> te_uuid e"
    and "te_destination_uuid e = NULL_UUID \<or> (\<exists>us. tx_path (db_txs w) (te_destination_uuid e) us)"
    and "ready (db_txs w) (db_log w) (te_destination_uuid e) (te_uuid e)"
  shows "\<exists>e' w' cs. commit (db_repos c g) (e, w) = (Inr (), (e', w'))
    \<and> db_log w' = db_log w @ cs
    \<and> list_all2 (copy_of (te_destination_uuid e)) (events_of (db_log w) (te_uuid e)) cs
    \<and> w_sent w' = w_sent w @ concat (map (published c) cs)
    \<and> db_txs w' = (db_txs w)(te_uuid e \<mapsto> (core_of e)\<lparr>te_status := COMMITTED,
         te_event_offset := Some (1 + log_offset (db_log w')), te_updated_at := Some (At (w_now w))\<rparr>)"
proof -
  obtain e' w' where run: "commit (db_repos c g) (e, w) = (Inr (), (e', w'))"
    using db_proto.commit_total [OF assms] by blast
  note spec = db_proto.commit_spec [OF assms(1-5) run, unfolded db_repos_simps]
  have off: "db_ev_offset (w_events w') = log_offset (db_log w')"
    using spec(1) db_ev.ev_offset_ok by (simp add: world_ok_def)
  from spec(2) obtain n cs where "db_log w' = db_log w @ cs" "n = length (events_of (db_log w) (te_uuid e))"
    "list_all2 (copy_of (te_destination_uuid e)) (take n (events_of (db_log w) (te_uuid e))) cs"
    "w_sent w' = w_sent w @ concat (map (published c) cs)" by auto
  moreover have "db_txs w' = (db_txs w)(te_uuid e \<mapsto> (core_of e)\<lparr>te_status := COMMITTED,
       te_event_offset := Some (1 + log_offset (db_log w')), te_updated_at := Some (At (w_now w))\<rparr>)"
    using spec(3) off by simp
  ultimately show ?thesis using run by auto
qed

theorem commit_outcome_witness:
  "\<exists>e' w' cs. commit demo_db (demo_tx 1 RESERVED, world_reserved) = (Inr (), (e', w'))
     \<and> db_log w' = db_log world_reserved @ cs
     \<and> list_all2 (copy_of 0) (events_of (db_log world_reserved) 1) cs"
proof -
  let ?e = "demo_tx 1 RESERVED" and ?w = world_reserved
  have "db_ok ?w" "\<not> te_shared ?e" "te_status ?e = RESERVED" "accepts (db_txs ?w) ?e COMMITTING"
    "\<forall>x \<in> set (db_log ?w). stored x \<and> ee_action x \<noteq> None \<and> ee_uuid x \<noteq> NULL_UUID"
    "db_txs ?w (te_uuid ?e) \<noteq> None" "te_destination_uuid ?e \<noteq> te_uuid ?e"
    "ready (db_txs ?w) (db_log ?w) (te_destination_uuid ?e) (te_uuid ?e)"
    by code_simp+
  moreover have "te_destination_uuid ?e = NULL_UUID \<or> (\<exists>us. tx_path (db_txs ?w) (te_destination_uuid ?e) us)"
    by (simp add: demo_tx_def NULL_UUID_def)
  ultimately have "\<exists>e' w' cs. commit demo_db (?e, ?w) = (Inr (), (e', w')) \<and> db_log w' = db_log ?w @ cs
      \<and> list_all2 (copy_of (te_destination_uuid ?e)) (events_of (db_log ?w) (te_uuid ?e)) cs"
    using commit_outcome [of ?w ?e demo_codec Suc] by blast
  then show ?thesis by (simp add: demo_tx_def)
qed

section \<open>Isolation\<close>

text \<open>C3: while a transaction that is reserving, reserved or committing has events of an entity,
  every other submission for that entity into the same destination raises the conflict exception
  and changes nothing: no event, no message, no transaction.\<close>

theorem submit_refused_while_reserved:
  assumes "db_ok w" and "e = to_entry c (current_tx w) a" "ee_action e \<noteq> None"
    and "db_txs w u = Some t" "te_status t \<in> {RESERVING, RESERVED, COMMITTING}"
    and "te_destination_uuid t = ee_transaction_uuid e" "transaction_uuid_ne \<noteq> Some u"
    and "r \<in> set (db_log w)" "ee_uuid r = ee_uuid e" "ee_transaction_uuid r = u"
  shows "submit (db_repos c g) a transaction_uuid_ne w
    = (Inl (EventRepositoryConflictException (log_offset (db_log w))), w)"
proof -
  have "blocked (db_txs w) (db_log w) (ee_uuid e) (ee_transaction_uuid e) transaction_uuid_ne"
    unfolding blocked_def blockers_def blocking_def using assms(4-10) by auto
  moreover have "db_ev_offset (w_events w) = log_offset (db_log w)"
    using assms(1) db_ev.ev_offset_ok by (simp add: world_ok_def)
  ultimately show ?thesis
    using db_proto.submit_blocked [OF assms(1), of e c g a transaction_uuid_ne] assms(2,3) by simp
qed

theorem submit_refused_while_reserved_witness:
  "submit demo_db (AnEntry (demo_entry 7 0)) None world_reserved
     = (Inl (EventRepositoryConflictException (log_offset (db_log world_reserved))), world_reserved)"
proof -
  have "db_ok world_reserved" "ee_action (demo_entry 7 0) \<noteq> None" by code_simp+
  moreover have "map_option (\<lambda>t. (te_status t, te_destination_uuid t)) (db_txs world_reserved 1) = Some (RESERVED, 0)"
    by code_simp
  then obtain t where "db_txs world_reserved 1 = Some t" "te_status t = RESERVED" "te_destination_uuid t = 0" by auto
  moreover have "\<exists>r \<in> set (db_log world_reserved). ee_uuid r = 7 \<and> ee_transaction_uuid r = 1" by code_simp
  then obtain r where "r \<in> set (db_log world_reserved)" "ee_uuid r = 7" "ee_transaction_uuid r = 1" by blast
  ultimately show ?thesis
    by (intro submit_refused_while_reserved [where u = 1 and t = t and r = r and e = "demo_entry 7 0"])
       (simp_all add: to_entry_def demo_entry_def)
qed



section \<open>Runs\<close>

text \<open>C5: in every run of the database pair, whatever the order of the operations and whether they
  raise or not, the event log only grows at its end, its identifiers increase and its keys
  (uuid, version, transaction) stay unique, and every stored transaction keeps its destination and
  moves its status only along the admissible transitions.\<close>

theorem run_safety:
  assumes "(db_step c g)\<^sup>*\<^sup>* w w'" "db_ok w"
  shows "prefix (db_log w) (db_log w') \<and> log_ok (db_log w')
    \<and> distinct (map (\<lambda>e. (ee_uuid e, ee_version e, ee_transaction_uuid e)) (db_log w'))
    \<and> progress (db_txs w) (db_txs w')"
proof -
  have "db_after w w'" by (rule db_run_after [OF assms])
  then show ?thesis
    using db_ev.einv_log db_ev.einv_keys by (simp add: db_after_def world_ok_def)
qed

lemma demo_run: "(db_step demo_codec Suc)\<^sup>*\<^sup>* world_open world_reserved" "db_ok world_open"
proof -
  have "db_step demo_codec Suc world_open world_reserved"
    unfolding world_reserved_def runs_def fold.simps id_def comp_def
    by (rule on_reserve) (rule surjective_pairing)
  then show "(db_step demo_codec Suc)\<^sup>*\<^sup>* world_open world_reserved" by simp
qed (rule world_open_ok)

theorem run_safety_witness:
  "prefix (db_log world_open) (db_log world_reserved) \<and> log_ok (db_log world_reserved)
   \<and> progress (db_txs world_open) (db_txs world_reserved)"
  using run_safety [OF demo_run] by simp

text \<open>A transaction that is committed or rejected keeps that status for ever: no run of
  operations, by any client with any entry object, changes it again.\<close>

theorem terminal_for_ever:
  assumes "(db_step c g)\<^sup>*\<^sup>* w w'" "db_ok w" "db_txs w u = Some t" "te_status t \<in> {COMMITTED, REJECTED}"
  shows "\<exists>t'. db_txs w' u = Some t' \<and> te_status t' = te_status t"
proof -
  have "progress (db_txs w) (db_txs w')" using db_run_after [OF assms(1,2)] by (simp add: db_after_def)
  with assms(3,4) show ?thesis unfolding progress_def by (metis transition_terminal)
qed

definition world_done :: "(db_events, db_tx) world" where
  "world_done = runs [service_reserve demo_db 1, service_commit demo_db 1] world_open"

theorem terminal_for_ever_witness:
  "\<exists>t'. db_txs (snd (service_reject demo_db 1 world_done)) 1 = Some t' \<and> te_status t' = COMMITTED"
proof -
  have step: "(db_step demo_codec Suc)\<^sup>*\<^sup>* world_done (snd (service_reject demo_db 1 world_done))"
    by (rule r_into_rtranclp, rule on_reject, rule surjective_pairing)
  have "map_option te_status (db_txs world_done 1) = Some COMMITTED" "db_ok world_done" by code_simp+
  then obtain t where "db_txs world_done 1 = Some t" "te_status t = COMMITTED" "db_ok world_done" by auto
  then show ?thesis
    using terminal_for_ever [OF step, of 1 t] by simp
qed

section \<open>Nested transactions\<close>

text \<open>When every stored transaction's destination is stored and the destinations form no cycle
  (some ranking decreases towards the destination), the walk \<open>uuids\<close> ends for every stored
  transaction, and returns the null identifier followed by the transactions from the outermost
  one to itself, without repetition.\<close>

theorem uuids_terminates:
  fixes rank :: "uuid \<Rightarrow> nat"
  assumes "tx_inv t" "u \<in> dom (dict_get t)"
    and "\<And>v x. dict_get t v = Some x \<Longrightarrow> te_destination_uuid x \<noteq> NULL_UUID \<Longrightarrow>
      te_destination_uuid x \<in> dom (dict_get t) \<and> rank (te_destination_uuid x) < rank v"
  shows "\<exists>us. stored_chain (db_repos c g) t u = Inr (NULL_UUID # us) \<and> us \<noteq> [] \<and> last us = u
    \<and> distinct us \<and> set us \<subseteq> dom (dict_get t)"
proof -
  obtain us where us: "tx_path (dict_get t) u us"
    using tx_path_exists [of "dict_get t" rank, OF assms(3) assms(2)] by blast
  have "us \<noteq> [] \<and> hd us = u" using us by (cases rule: tx_path.cases) auto
  then show ?thesis
    using db_proto.stored_chain_path [OF us assms(1), of c g] tx_path_distinct [OF us] tx_path_stored [OF us]
    by (auto simp: last_rev)
qed

definition nested_txs :: db_tx where
  "nested_txs = [(1, core_of (demo_tx 1 PENDING)), (2, (core_of (demo_tx 2 PENDING))\<lparr>te_destination_uuid := 1\<rparr>)]"

theorem uuids_terminates_witness:
  "\<exists>us. stored_chain demo_db nested_txs 2 = Inr (NULL_UUID # us) \<and> last us = 2"
proof -
  have "tx_inv nested_txs" "2 \<in> dom (dict_get nested_txs)"
    by (simp_all add: tx_inv_def nested_txs_def demo_tx_def)
  moreover have "te_destination_uuid x \<in> dom (dict_get nested_txs) \<and> id (te_destination_uuid x) < id v"
    if "dict_get nested_txs v = Some x" "te_destination_uuid x \<noteq> NULL_UUID" for v x
    using that by (auto simp: nested_txs_def demo_tx_def NULL_UUID_def split: if_splits)
  ultimately show ?thesis
    using uuids_terminates [of nested_txs 2 id demo_codec Suc] by blast
qed

section \<open>Message handlers\<close>

lemma values_by_uuid:
  assumes "tx_inv t"
  shows "filter (db_tx_filter (tx_all\<lparr>tq_uuid := Some u\<rparr>)) (dict_values t)
    = (case dict_get t u of None \<Rightarrow> [] | Some x \<Rightarrow> [x])"
proof -
  have "db_tx_filter (tx_all\<lparr>tq_uuid := Some u\<rparr>) x \<longleftrightarrow> te_uuid x = u" for x
    by (auto simp: db_tx_filter_def tx_all_def sql_cmp_def)
  then show ?thesis
    using assms unfolding tx_inv_def by (induction t) (force split: option.splits)+
qed

lemma db_get: "tx_inv t \<Longrightarrow> get_in (db_repos c g) t u =
  (case dict_get t u of None \<Rightarrow> Inl TransactionNotFoundException | Some x \<Rightarrow> Inr (entry_of False x))"
  by (cases "dict_get t u")
     (simp_all add: get_in_def db_tx_select_def values_by_uuid order_by_offset_def)

lemma mem_get: "tx_inv t \<Longrightarrow> get_in (mem_repos c g) t u =
  (case dict_get t u of None \<Rightarrow> Inl TransactionNotFoundException | Some x \<Rightarrow> Inr (entry_of True x))"
proof -
  assume "tx_inv t"
  moreover have "simple_query (tx_all\<lparr>tq_uuid := Some u\<rparr>)" by (simp add: simple_query_def tx_all_def)
  then have "filterE (mem_tx_filter (tx_all\<lparr>tq_uuid := Some u\<rparr>)) (dict_values t)
      = Inr (filter (db_tx_filter (tx_all\<lparr>tq_uuid := Some u\<rparr>)) (dict_values t))"
    by (intro filterE_total mem_tx_filter_simple)
  ultimately show ?thesis
    by (cases "dict_get t u") (simp_all add: get_in_def mem_tx_select_def values_by_uuid)
qed

text \<open>The reserve message. An unknown transaction is a \<open>ResponseException\<close>; a pending one
  becomes RESERVED and the message is answered when it is committable, and becomes REJECTED with a
  \<open>ResponseException\<close> when it is not; a transaction in any other status is a \<open>ValueError\<close>
  and stays as it is. No event is written.\<close>

theorem service_reserve_outcome:
  assumes "db_ok w" "\<And>t. db_txs w u = Some t \<Longrightarrow> te_destination_uuid t \<noteq> u"
  shows "case db_txs w u of
      None \<Rightarrow> service_reserve (db_repos c g) u w = (Inl ResponseException, w)
    | Some t \<Rightarrow>
       (if te_status t \<noteq> PENDING then service_reserve (db_repos c g) u w = (Inl ValueError, w)
        else \<exists>w'. service_reserve (db_repos c g) u w =
            (if committable (db_txs w) (db_log w) (te_destination_uuid t) u
             then Inr () else Inl ResponseException, w')
          \<and> map_option te_status (db_txs w' u) = Some
              (if committable (db_txs w) (db_log w) (te_destination_uuid t) u then RESERVED else REJECTED)
          \<and> w_events w' = w_events w)"
proof (cases "db_txs w u")
  case None
  then show ?thesis
    using assms(1) by (simp add: service_reserve_def service_get_def bindE_apply catchE_def tx_get_def
        db_get world_ok_def as_response_def)
next
  case (Some t)
  let ?e = "entry_of False t"
  have inv: "tx_inv (w_txs w)" using assms(1) by (simp add: world_ok_def)
  have u: "te_uuid t = u" using db_tx.lookup_key [OF inv Some] .
  have get: "service_get (db_repos c g) u w = (Inr ?e, w)"
    by (simp add: service_get_def catchE_def tx_get_def db_get [OF inv] Some)
  show ?thesis
  proof (cases "te_status t = PENDING")
    case False
    then show ?thesis
      using Some by (simp add: service_reserve_def bindE_apply get catchE_def on_entry_def
          db_proto.reserve_not_pending as_response_def)
  next
    case True
    have acc: "accepts (db_txs w) ?e RESERVING" using Some True u by (simp add: accepts_def)
    obtain e' t' where r: "reserve (db_repos c g) (?e, w) = (if committable (db_txs w) (db_log w) (te_destination_uuid t) u
        then Inr () else Inl (EventRepositoryConflictException (1 + db_ev_offset (w_events w))), (e', w\<lparr>w_txs := t'\<rparr>))"
      "dict_get t' = (db_txs w)(u \<mapsto> t\<lparr>te_status := if committable (db_txs w) (db_log w) (te_destination_uuid t) u
           then RESERVED else REJECTED, te_event_offset := Some (1 + db_ev_offset (w_events w)),
           te_updated_at := Some (At (w_now w))\<rparr>)"
      using True assms(2) [OF Some] u
      by (auto intro: db_proto.reserve_spec [OF assms(1) _ _ acc, where c = c and g = g, simplified])
    then show ?thesis
      using Some True by (simp add: service_reserve_def bindE_apply get catchE_def on_entry_def as_response_def)
  qed
qed

theorem service_reserve_outcome_witness:
  "service_reserve demo_db 9 world_open = (Inl ResponseException, world_open)
   \<and> (\<exists>w'. service_reserve demo_db 1 world_open = (Inr (), w'))"
proof -
  have dests: "list_all (\<lambda>(v, x). te_destination_uuid x \<noteq> v) (w_txs world_open)" by code_simp
  have no_self: "te_destination_uuid t \<noteq> v" if "db_txs world_open v = Some t" for v t
    using dests map_of_SomeD [OF that] by (auto simp: list_all_iff)
  have "db_txs world_open 9 = None" by code_simp
  moreover have "map_option (\<lambda>t. (te_status t, te_destination_uuid t)) (db_txs world_open 1) = Some (PENDING, 0)" by code_simp
  then obtain t where "db_txs world_open 1 = Some t" "te_status t = PENDING" "te_destination_uuid t = 0" by auto
  moreover have "committable (db_txs world_open) (db_log world_open) 0 1" by code_simp
  ultimately show ?thesis
    using service_reserve_outcome [OF world_open_ok(1) no_self, of 9 demo_codec Suc]
      service_reserve_outcome [OF world_open_ok(1) no_self, of 1 demo_codec Suc] by auto
qed

section \<open>Versions\<close>

lemma submit_from_snoc:
  "submit_from u (txs @ [t]) rows = submit_from u txs rows @
     (let vs = map (\<lambda>r. the (ee_version r)) (filter (\<lambda>r. ee_uuid r = u \<and> ee_transaction_uuid r = t) rows)
      in if vs = [] then [] else [(Suc (length txs), Max (set vs))])"
proof -
  have "zip [1..<Suc (length (txs @ [t]))] (txs @ [t]) = zip [1..<Suc (length txs)] txs @ [(Suc (length txs), t)]"
    by (simp del: upt_Suc add: upt_Suc_append zip_append)
  then show ?thesis
    by (simp only: submit_from_def map_append concat_append list.map concat.simps prod.case append_Nil2)
qed

lemma next_version_above:
  assumes "r \<in> set rows" "ee_uuid r = u" "ee_transaction_uuid r = t"
  shows "the (ee_version r) < next_version_sql u (txs @ [t]) rows"
proof -
  let ?vs = "map (\<lambda>r. the (ee_version r)) (filter (\<lambda>r. ee_uuid r = u \<and> ee_transaction_uuid r = t) rows)"
  have mem: "the (ee_version r) \<in> set ?vs" using assms by auto
  then have "?vs \<noteq> []" by (metis empty_iff empty_set)
  then have "next_version_sql u (txs @ [t]) rows = 1 + Max (set ?vs)"
    by (simp add: next_version_sql_def submit_from_snoc Let_def del: set_map set_filter)
  with Max_ge [OF finite_set mem] show ?thesis by simp
qed

text \<open>An entry submitted to the database without a version is never refused: it gets a version
  above every version its entity has in the same transaction, so it cannot collide with a stored
  key.\<close>

theorem unversioned_accepted:
  assumes "db_ev_inv s" "ee_version e = None" "ee_action e \<noteq> None"
    and "ee_transaction_uuid e = NULL_UUID \<or> (\<exists>us. chain (ee_transaction_uuid e) = Inr (us @ [ee_transaction_uuid e]))"
    and "ee_uuid e = NULL_UUID \<longrightarrow> fresh \<notin> ee_uuid ` set (de_rows s)"
  shows "\<exists>r s'. db_ev_submit now fresh chain e s = (Inr r, s') \<and> de_rows s' = de_rows s @ [r]
    \<and> (\<forall>x \<in> set (de_rows s). ee_uuid x = ee_uuid r \<and> ee_transaction_uuid x = ee_transaction_uuid r
         \<longrightarrow> the (ee_version x) < the (ee_version r))"
proof -
  let ?t = "ee_transaction_uuid e"
  obtain us where us: "(if ?t \<noteq> NULL_UUID then chain ?t else Inr [NULL_UUID]) = Inr (us @ [?t])"
    using assms(4) by (cases "?t = NULL_UUID") (auto intro: that [of "[]"])
  let ?r = "build_submit now fresh (us @ [?t]) e s"
  have new: "the (ee_version x) < the (ee_version ?r)"
    if "x \<in> set (de_rows s)" "ee_uuid x = ee_uuid ?r" "ee_transaction_uuid x = ?t" for x
    using that assms(2,5) next_version_above [OF that(1) _ that(3), of "ee_uuid e" us]
    by (auto simp: build_submit_def split: if_splits)
  have "ee_version x = ee_version ?r \<Longrightarrow> the (ee_version x) = the (ee_version ?r)" for x by simp
  with new have "\<forall>x \<in> set (de_rows s). \<not> same_key x ?r"
    by (fastforce simp: same_key_def build_submit_def)
  then have "db_ev_submit now fresh chain e s = (Inr ?r, \<lparr>de_rows = de_rows s @ [?r], de_sequence = de_sequence s + 1\<rparr>)"
    using us assms(3) by (auto simp: db_ev_submit_def as_raw_def Let_def)
  with new show ?thesis by (auto simp: build_submit_def)
qed

theorem unversioned_accepted_witness:
  "\<exists>r s'. db_ev_submit 0 5 (\<lambda>u. Inr [0, u]) (demo_entry 7 1) (w_events world_open) = (Inr r, s')
     \<and> de_rows s' = db_log world_open @ [r]"
proof -
  have "db_ev_inv (w_events world_open)" by code_simp
  then show ?thesis
    using unversioned_accepted [of "w_events world_open" "demo_entry 7 1" "\<lambda>u. Inr [0, u]" 5 0]
    by (fastforce simp: demo_entry_def NULL_UUID_def)
qed

section \<open>Where the protocol falls short\<close>


text \<open>With the in-memory pair, a transaction that updates an entity which already has events can
  never be reserved: the version counter is kept per transaction and starts again at one, so the
  update gets a version the destination already has. The same run over the database is reserved.\<close>

theorem memory_update_in_transaction_rejected:
  "map (\<lambda>e. (ee_transaction_uuid e, ee_version e)) (me_storage (w_events world_mem)) = [(0, Some 1), (1, Some 1)]
   \<and> fst (reserve demo_mem (demo_tx 1 PENDING, world_mem)) = Inl (EventRepositoryConflictException 3)
   \<and> map (\<lambda>e. (ee_transaction_uuid e, ee_version e)) (db_log world_open) = [(0, Some 1), (1, Some 2)]
   \<and> fst (reserve demo_db (demo_tx 1 PENDING, world_open)) = Inr ()"
  by code_simp

text \<open>The reserve message never succeeds over the in-memory pair. The handler works on the very
  object the repository stores: assigning RESERVING to it changes the storage before the
  repository compares the statuses, so every pending transaction is refused with the transaction
  conflict exception (which the handler does not translate) and is left RESERVING.\<close>

theorem memory_service_reserve_fails:
  assumes "tx_inv (w_txs w)" "dict_get (w_txs w) u = Some t" "te_status t = PENDING"
  shows "\<exists>w'. service_reserve (mem_repos c g) u w = (Inl TransactionRepositoryConflictException, w')
    \<and> map_option te_status (dict_get (w_txs w') u) = Some RESERVING"
proof -
  have u: "te_uuid t = u" using mem_tx.lookup_key [OF assms(1,2)] .
  have get: "service_get (mem_repos c g) u w = (Inr (entry_of True t), w)"
    by (simp add: service_get_def catchE_def tx_get_def mem_get [OF assms(1)] assms(2))
  show ?thesis
    using assms(2,3) u
    by (simp add: service_reserve_def bindE_apply get catchE_def on_entry_def reserve_def selfE_def save_apply
        assigned_def mem_tx_assign_def mem_tx_submit_def mem_tx_conflict_def as_response_def Let_def)
qed

theorem memory_service_reserve_fails_witness:
  "\<exists>w'. service_reserve demo_mem 1 world_mem = (Inl TransactionRepositoryConflictException, w')
    \<and> map_option te_status (dict_get (w_txs w') 1) = Some RESERVING"
proof -
  have "tx_inv (w_txs world_mem)" "map_option te_status (dict_get (w_txs world_mem) 1) = Some PENDING" by code_simp+
  then show ?thesis
    using memory_service_reserve_fails [of world_mem 1 _ demo_codec Suc] by auto
qed

end
