(* ===== verification/Entities.thy ===== *)
theory Entities
  imports Event_Model
begin

text \<open>
  Root entities and their events: \<open>RootEntity\<close> (\<open>entities/models.py\<close>) with \<open>diff\<close>, \<open>apply_diff\<close>
  and \<open>from_diff\<close>, and the constructors of \<open>Event\<close> (\<open>events/models.py\<close>).

  A root entity has the four fields every entity has and the fields its class declares. The class
  is code of the application: its declared fields, and what assigning to a field stores (the field's
  parser and validator functions and the conversion to its type), are the parameter
  \<open>entity_class\<close>. The theorems that depend on it assume that a value the field already holds is
  stored unchanged.
\<close>

section \<open>RootEntity\<close>

record entity_class =
  ec_name :: string
  ec_fields :: "(string \<times> pytype) list"
  ec_set :: "string \<Rightarrow> pytype \<Rightarrow> field_arg option \<Rightarrow> agg_error + field_value"

record RootEntity =
  re_uuid :: uuid
  re_version :: int
  re_created_at :: datetime
  re_updated_at :: datetime
  re_name :: string
  re_fields :: "(string, field) dict"

definition special_names :: "string list" where
  "special_names = [''uuid'', ''version'', ''created_at'', ''updated_at'']"

text \<open>\<open>instance.fields\<close>: the fields of the base classes first.\<close>

definition all_fields :: "RootEntity \<Rightarrow> (string, field) dict" where
  "all_fields e =
     [(''uuid'', \<lparr>f_type = ''UUID'', f_value = Plain (VUuid (re_uuid e))\<rparr>),
      (''version'', \<lparr>f_type = ''int'', f_value = Plain (VInt (re_version e))\<rparr>),
      (''created_at'', \<lparr>f_type = ''datetime'', f_value = Plain (VTime (re_created_at e))\<rparr>),
      (''updated_at'', \<lparr>f_type = ''datetime'', f_value = Plain (VTime (re_updated_at e))\<rparr>)]
     @ re_fields e"

text \<open>\<open>_build_fields\<close>: one field per declaration; arguments without a declaration are ignored.\<close>

fun build_fields ::
  "entity_class \<Rightarrow> (string \<times> pytype) list \<Rightarrow> (string, field_arg) dict \<Rightarrow> agg_error + (string, field) dict" where
  "build_fields C [] kw = Inr []"
| "build_fields C ((n, t) # ds) kw =
     (case ec_set C n t (dict_get kw n) of
        Inl x \<Rightarrow> Inl x
      | Inr v \<Rightarrow> (case build_fields C ds kw of
            Inl x \<Rightarrow> Inl x
          | Inr fs \<Rightarrow> Inr ((n, \<lparr>f_type = t, f_value = v\<rparr>) # fs)))"

definition RootEntity_init ::
  "entity_class \<Rightarrow> uuid \<Rightarrow> int \<Rightarrow> datetime \<Rightarrow> datetime \<Rightarrow> (string, field_arg) dict \<Rightarrow> agg_error + RootEntity" where
  "RootEntity_init C u v ca ua kw =
     (case build_fields C (ec_fields C) kw of
        Inl x \<Rightarrow> Inl x
      | Inr fs \<Rightarrow> Inr \<lparr>re_uuid = u, re_version = v, re_created_at = ca, re_updated_at = ua,
                      re_name = ec_name C, re_fields = fs\<rparr>)"

text \<open>\<open>getattr\<close> and \<open>setattr\<close> of a model (\<open>common/model/abc.py\<close>); a name with a leading underscore
  is an ordinary attribute of the object, not a field.\<close>

definition get_attr :: "RootEntity \<Rightarrow> string \<Rightarrow> agg_error + field_value" where
  "get_attr e n = (case dict_get (all_fields e) n of None \<Rightarrow> Inl AttributeError | Some f \<Rightarrow> Inr (f_value f))"

definition put_field :: "string \<Rightarrow> field_value \<Rightarrow> RootEntity \<Rightarrow> RootEntity" where
  "put_field n v e = (case dict_get (re_fields e) n of
     None \<Rightarrow> e
   | Some f \<Rightarrow> e\<lparr>re_fields := dict_set n (f\<lparr>f_value := v\<rparr>) (re_fields e)\<rparr>)"

definition put_special :: "string \<Rightarrow> field_value \<Rightarrow> RootEntity \<Rightarrow> agg_error + RootEntity" where
  "put_special n v e = (case v of
     Plain (VUuid u) \<Rightarrow> (if n = ''uuid'' then Inr (e\<lparr>re_uuid := u\<rparr>) else Inl TypeError)
   | Plain (VInt i) \<Rightarrow> (if n = ''version'' then Inr (e\<lparr>re_version := i\<rparr>) else Inl TypeError)
   | Plain (VTime t) \<Rightarrow> (if n = ''created_at'' then Inr (e\<lparr>re_created_at := t\<rparr>)
        else if n = ''updated_at'' then Inr (e\<lparr>re_updated_at := t\<rparr>) else Inl TypeError)
   | _ \<Rightarrow> Inl TypeError)"

definition set_attr :: "entity_class \<Rightarrow> string \<Rightarrow> field_value \<Rightarrow> RootEntity \<Rightarrow> agg_error + RootEntity" where
  "set_attr C n v e =
     (if n \<noteq> [] \<and> hd n = CHR ''_'' then Inr e else
      case dict_get (all_fields e) n of
        None \<Rightarrow> Inl AttributeError
      | Some f \<Rightarrow> (case ec_set C n (f_type f) (Some (FieldValue v)) of
            Inl x \<Rightarrow> Inl x
          | Inr v' \<Rightarrow> (if n \<in> set special_names then put_special n v' e else Inr (put_field n v' e))))"

section \<open>Events of an entity\<close>

definition event_from_difference :: "RootEntity \<Rightarrow> RootEntity \<Rightarrow> Action \<Rightarrow> agg_error + Event" where
  "event_from_difference a b action =
     (if re_uuid a \<noteq> re_uuid b then Inl ValueError else
      let new = (if re_version b < re_version a then a else b) in
      case from_difference (all_fields a) (all_fields b) (set special_names) of
        Inl x \<Rightarrow> Inl x
      | Inr ds \<Rightarrow> Inr \<lparr>ev_uuid = re_uuid new, ev_name = re_name new, ev_version = re_version new,
                      ev_action = action, ev_created_at = re_updated_at new, ev_fields_diff = ds\<rparr>)"

definition from_root_entity :: "RootEntity \<Rightarrow> Action \<Rightarrow> agg_error + Event" where
  "from_root_entity e action =
     (case from_model (all_fields e) (set special_names) of
        Inl x \<Rightarrow> Inl x
      | Inr ds \<Rightarrow> Inr \<lparr>ev_uuid = re_uuid e, ev_name = re_name e, ev_version = re_version e,
                      ev_action = action, ev_created_at = re_updated_at e, ev_fields_diff = ds\<rparr>)"

definition from_deleted_root_entity :: "RootEntity \<Rightarrow> Action \<Rightarrow> Event" where
  "from_deleted_root_entity e action =
     \<lparr>ev_uuid = re_uuid e, ev_name = re_name e, ev_version = re_version e,
      ev_action = action, ev_created_at = re_updated_at e, ev_fields_diff = container_empty\<rparr>"

definition diff :: "RootEntity \<Rightarrow> RootEntity \<Rightarrow> agg_error + Event" where
  "diff self another = event_from_difference self another UPDATE"

section \<open>Applying events\<close>

definition apply_one :: "entity_class \<Rightarrow> FieldDiff \<Rightarrow> RootEntity \<Rightarrow> agg_error + RootEntity" where
  "apply_one C d e = (case d of
     IncrementalFieldDiff n t x act \<Rightarrow>
       (case get_attr e n of
          Inl err \<Rightarrow> Inl err
        | Inr c \<Rightarrow> (case (if is_delete act then discard x c else add x c) of
              Inl err \<Rightarrow> Inl err
            | Inr c' \<Rightarrow> Inr (put_field n c' e)))
   | FieldDiff n t v \<Rightarrow> set_attr C n v e)"

fun apply_all :: "entity_class \<Rightarrow> FieldDiff list \<Rightarrow> RootEntity \<Rightarrow> agg_error + RootEntity" where
  "apply_all C [] e = Inr e"
| "apply_all C (d # ds) e = (case apply_one C d e of Inl x \<Rightarrow> Inl x | Inr e' \<Rightarrow> apply_all C ds e')"

definition apply_diff :: "entity_class \<Rightarrow> Event \<Rightarrow> RootEntity \<Rightarrow> agg_error + RootEntity" where
  "apply_diff C event self =
     (if re_uuid self \<noteq> ev_uuid event then Inl ValueError else
      case apply_all C (flatten_values (ev_fields_diff event)) self of
        Inl x \<Rightarrow> Inl x
      | Inr e \<Rightarrow> Inr (e\<lparr>re_version := ev_version event, re_updated_at := ev_created_at event\<rparr>))"

text \<open>The keyword arguments \<open>**event.get_fields()\<close>.\<close>

fun kwargs_of :: "(string \<times> (agg_error + field_arg)) list \<Rightarrow> agg_error + (string, field_arg) dict" where
  "kwargs_of [] = Inr []"
| "kwargs_of ((k, r) # kvs) = (case r of Inl x \<Rightarrow> Inl x | Inr v \<Rightarrow>
     (case kwargs_of kvs of Inl x \<Rightarrow> Inl x | Inr kw \<Rightarrow> Inr ((k, v) # kw)))"

definition from_diff :: "entity_class \<Rightarrow> Event \<Rightarrow> agg_error + RootEntity" where
  "from_diff C event = (case kwargs_of (get_fields event) of
     Inl x \<Rightarrow> Inl x
   | Inr kw \<Rightarrow>
       (if \<exists>k \<in> set (dict_keys kw). k \<in> set special_names then Inl TypeError
        else RootEntity_init C (ev_uuid event) (ev_version event) (ev_created_at event) (ev_created_at event) kw))"

text \<open>\<open>_update_from_repository_entry\<close>.\<close>

definition update_from_entry :: "EventEntry \<Rightarrow> RootEntity \<Rightarrow> agg_error + RootEntity" where
  "update_from_entry entry self =
     (case ee_version entry of None \<Rightarrow> Inl MinosReqAttributeException | Some v \<Rightarrow>
     (case ee_action entry of None \<Rightarrow> Inl AttributeError | Some a \<Rightarrow>
     (case ee_created_at entry of None \<Rightarrow> Inl MinosReqAttributeException | Some t \<Rightarrow>
        Inr (self\<lparr>re_uuid := ee_uuid entry, re_version := v,
             re_created_at := (if is_create a then t else re_created_at self), re_updated_at := t\<rparr>))))"

section \<open>Well-formed entities\<close>

fun value_wf :: "field_value \<Rightarrow> bool" where
  "value_wf (Plain _) = True"
| "value_wf (ISet _ xs) = distinct xs"
| "value_wf (ESet _ d) = (distinct (dict_keys d) \<and> (\<forall>(u, x) \<in> set d. item_uuid x = Inr u))"

text \<open>The same kind of collection, with the same item class.\<close>

fun same_kind :: "field_value \<Rightarrow> field_value \<Rightarrow> bool" where
  "same_kind (Plain _) (Plain _) = True"
| "same_kind (ISet s _) (ISet t _) = (s = t)"
| "same_kind (ESet s _) (ESet t _) = (s = t)"
| "same_kind _ _ = False"

definition field_name :: "string \<Rightarrow> bool" where
  "field_name n \<longleftrightarrow> n \<notin> set special_names \<and> (n = [] \<or> hd n \<noteq> CHR ''_'')"

definition entity_wf :: "RootEntity \<Rightarrow> bool" where
  "entity_wf e \<longleftrightarrow> distinct (dict_keys (re_fields e))
     \<and> (\<forall>(n, f) \<in> set (re_fields e). field_name n \<and> value_wf (f_value f))"

text \<open>The fields of two entities of one class.\<close>

definition same_class :: "RootEntity \<Rightarrow> RootEntity \<Rightarrow> bool" where
  "same_class a b \<longleftrightarrow> list_all2 (\<lambda>(n, f) (m, g). n = m \<and> f_type f = f_type g
     \<and> same_kind (f_value f) (f_value g)) (re_fields a) (re_fields b)"

text \<open>Assigning the value a field holds stores that value.\<close>

definition class_stores :: "entity_class \<Rightarrow> RootEntity \<Rightarrow> bool" where
  "class_stores C e \<longleftrightarrow>
     (\<forall>(n, f) \<in> set (re_fields e). ec_set C n (f_type f) (Some (FieldValue (f_value f))) = Inr (f_value f))"

section \<open>Set operations of a difference\<close>

fun set_ops :: "set_diff_entry list \<Rightarrow> field_value \<Rightarrow> agg_error + field_value" where
  "set_ops [] c = Inr c"
| "set_ops ((act, x) # es) c =
     (case (if is_delete act then discard x c else add x c) of Inl err \<Rightarrow> Inl err | Inr c' \<Rightarrow> set_ops es c')"

lemma set_ops_append: "set_ops (xs @ ys) c = (case set_ops xs c of Inl e \<Rightarrow> Inl e | Inr c' \<Rightarrow> set_ops ys c')"
  by (induction xs c rule: set_ops.induct) (auto split: sum.splits)

lemma set_ops_ISet_add:
  "set_ops (map (Pair CREATE) xs) (ISet t zs) = Inr (ISet t (fold (\<lambda>x zs. if x \<in> set zs then zs else zs @ [x]) xs zs))"
  by (induction xs arbitrary: zs) (simp_all add: is_delete_def)

lemma set_fold_add: "set (fold (\<lambda>x zs. if x \<in> set zs then zs else zs @ [x]) xs zs) = set zs \<union> set xs"
  by (induction xs arbitrary: zs) auto

lemma set_ops_ISet_del:
  "set_ops (map (Pair DELETE) xs) (ISet t zs) = Inr (ISet t (fold (\<lambda>x. filter (\<lambda>y. y \<noteq> x)) xs zs))"
  by (induction xs arbitrary: zs) (simp_all add: is_delete_def)

lemma set_fold_del: "set (fold (\<lambda>x. filter (\<lambda>y. y \<noteq> x)) xs zs) = set zs - set xs"
  by (induction xs arbitrary: zs) auto

lemma set_ops_ESet_set:
  "act \<noteq> DELETE \<Longrightarrow> \<forall>x \<in> set xs. item_uuid x = Inr (entity_uuid x) \<Longrightarrow>
   set_ops (map (Pair act) xs) (ESet t d) = Inr (ESet t (fold (\<lambda>x. dict_set (entity_uuid x) x) xs d))"
  by (induction xs arbitrary: d) (simp_all add: is_delete_def)

lemma get_fold_set:
  "dict_get (fold (\<lambda>x. dict_set (entity_uuid x) x) xs d) u =
     (if u \<in> entity_uuid ` set xs then find (\<lambda>x. entity_uuid x = u) (rev xs) else dict_get d u)"
  by (induction xs rule: rev_induct) auto

lemma set_ops_ESet_del:
  "\<forall>x \<in> set xs. item_uuid x = Inr (entity_uuid x) \<Longrightarrow>
   set_ops (map (Pair DELETE) xs) (ESet t d) = Inr (ESet t (fold (\<lambda>x. dict_del (entity_uuid x)) xs d))"
  by (induction xs arbitrary: d) (simp_all add: is_delete_def)

lemma get_fold_del:
  "dict_get (fold (\<lambda>x. dict_del (entity_uuid x)) xs d) u = (if u \<in> entity_uuid ` set xs then None else dict_get d u)"
  by (induction xs arbitrary: d) auto

text \<open>Applying the difference of two collections to the old one gives the new one.\<close>

lemma eset_items:
  assumes "value_wf (ESet t d)" "x \<in> set (dict_values d)"
  shows "item_uuid x = Inr (entity_uuid x)" "dict_get d (entity_uuid x) = Some x"
    "entity_set_contains d' x \<longleftrightarrow> dict_get d' (entity_uuid x) \<noteq> None"
proof -
  obtain u where u: "(u, x) \<in> set d" using assms(2) by auto
  then have ux: "item_uuid x = Inr u" using assms(1) by auto
  then obtain fs where x: "x = Entity u fs" by (cases x) auto
  then show "item_uuid x = Inr (entity_uuid x)" "entity_set_contains d' x \<longleftrightarrow> dict_get d' (entity_uuid x) \<noteq> None"
    by simp_all
  show "dict_get d (entity_uuid x) = Some x" using u x assms(1) by simp
qed

lemma find_rev_entity:
  "\<lbrakk>\<And>x y. x \<in> set xs \<Longrightarrow> y \<in> set xs \<Longrightarrow> entity_uuid x = entity_uuid y \<Longrightarrow> x = y; x \<in> set xs\<rbrakk>
   \<Longrightarrow> find (\<lambda>y. entity_uuid y = entity_uuid x) (rev xs) = Some x"
proof (induction xs rule: rev_induct)
  case (snoc y ys)
  then show ?case
  proof (cases "entity_uuid y = entity_uuid x")
    case True
    with snoc.prems have "y = x" by (meson in_set_conv_decomp)
    then show ?thesis by simp
  next
    case False
    with snoc.prems have "x \<in> set ys" by auto
    with snoc False show ?thesis by simp
  qed
qed simp

lemma eset_get:
  assumes "value_wf (ESet t d)" "dict_get d u = Some x"
  shows "x \<in> set (dict_values d)" "entity_uuid x = u"
proof -
  have "(u, x) \<in> set d" using assms(2) by (rule map_of_SomeD)
  then show "x \<in> set (dict_values d)" by force
  have "item_uuid x = Inr u" using \<open>(u, x) \<in> set d\<close> assms(1) by auto
  then show "entity_uuid x = u" by (cases x) auto
qed

lemma eset_diff_get:
  assumes wn: "value_wf (ESet t new)" and wo: "value_wf (ESet t old)"
  defines "creates \<equiv> filter (\<lambda>x. \<not> entity_set_contains old x) (dict_values new)"
    and "deletes \<equiv> filter (\<lambda>x. \<not> entity_set_contains new x) (dict_values old)"
    and "updates \<equiv> filter (\<lambda>x. entity_set_get old (entity_uuid x) \<noteq> Inr x)
           (filter (entity_set_contains old) (dict_values new))"
  shows "dict_get (fold (\<lambda>x. dict_set (entity_uuid x) x) updates
     (fold (\<lambda>x. dict_del (entity_uuid x)) deletes
       (fold (\<lambda>x. dict_set (entity_uuid x) x) creates old))) u = dict_get new u"
proof -
  have c: "x \<in> set creates \<longleftrightarrow> x \<in> set (dict_values new) \<and> dict_get old (entity_uuid x) = None" for x
    unfolding creates_def using eset_items(3) [OF wn, of x old] by (simp only: set_filter mem_Collect_eq) blast
  have d: "x \<in> set deletes \<longleftrightarrow> x \<in> set (dict_values old) \<and> dict_get new (entity_uuid x) = None" for x
    unfolding deletes_def using eset_items(3) [OF wo, of x new] by (simp only: set_filter mem_Collect_eq) blast
  have g: "entity_set_get old v = Inr x \<longleftrightarrow> dict_get old v = Some x" for v x
    by (simp add: entity_set_get_def split: option.splits)
  have p: "x \<in> set updates \<longleftrightarrow> x \<in> set (dict_values new) \<and> dict_get old (entity_uuid x) \<notin> {None, Some x}" for x
    unfolding updates_def g using eset_items(3) [OF wn, of x old]
    by (simp only: set_filter mem_Collect_eq) blast
  have inj: "x = y" if "x \<in> set (dict_values new)" "y \<in> set (dict_values new)" "entity_uuid x = entity_uuid y" for x y
    using eset_items(2) [OF wn that(1)] eset_items(2) [OF wn that(2)] unfolding that(3)
    by (metis option.inject)
  have find: "find (\<lambda>y. entity_uuid y = entity_uuid x) (rev xs) = Some x"
    if "set xs \<subseteq> set (dict_values new)" "x \<in> set xs" for x xs
    using that inj by (intro find_rev_entity) (blast, assumption)
  have uin: "u \<in> entity_uuid ` set xs \<longleftrightarrow> (\<exists>x. dict_get new u = Some x \<and> x \<in> set xs)"
    if "set xs \<subseteq> set (dict_values new)" for xs
  proof
    assume "u \<in> entity_uuid ` set xs"
    then obtain x where "x \<in> set xs" "u = entity_uuid x" by blast
    with eset_items(2) [OF wn] that show "\<exists>x. dict_get new u = Some x \<and> x \<in> set xs" by blast
  next
    assume "\<exists>x. dict_get new u = Some x \<and> x \<in> set xs"
    with eset_get(2) [OF wn] show "u \<in> entity_uuid ` set xs" by blast
  qed
  have subs: "set creates \<subseteq> set (dict_values new)" "set updates \<subseteq> set (dict_values new)"
    using c p by blast+
  show ?thesis
  proof (cases "dict_get new u")
    case None
    have "u \<in> entity_uuid ` set deletes" if "dict_get old u = Some y" for y
      using that None d [of y] eset_get [OF wo that] by force
    with None show ?thesis
      using uin [OF subs(1)] uin [OF subs(2)] by (cases "dict_get old u") (auto simp: get_fold_set get_fold_del)
  next
    case (Some x)
    note x = eset_get [OF wn Some]
    have nd: "u \<notin> entity_uuid ` set deletes" using d Some by auto
    show ?thesis
    proof (cases "x \<in> set updates")
      case True
      with x uin [OF subs(2)] Some find [OF subs(2) True] show ?thesis by (simp add: get_fold_set)
    next
      case False
      then have nu: "u \<notin> entity_uuid ` set updates" using uin [OF subs(2)] Some by simp
      have old: "dict_get old u = None \<or> dict_get old u = Some x" using False p x by auto
      show ?thesis
      proof (cases "x \<in> set creates")
        case True
        with x uin [OF subs(1)] Some find [OF subs(1) True] nd nu show ?thesis
          by (simp add: get_fold_set get_fold_del)
      next
        case no: False
        then have "u \<notin> entity_uuid ` set creates" "dict_get old u = Some x"
          using uin [OF subs(1)] Some c x old by auto
        with nd nu Some show ?thesis by (simp add: get_fold_set get_fold_del)
      qed
    qed
  qed
qed

lemma set_diff_apply:
  assumes "value_wf new" "value_wf old" "same_kind new old" "is_incremental_set new"
  shows "\<exists>es c. set_diff new old = Inr es \<and> set_ops es old = Inr c \<and> field_value_eq c new"
proof (cases new)
  case (ISet t xs)
  with assms obtain ys where old: "old = ISet t ys" by (cases old) auto
  show ?thesis
    by (auto simp: ISet old set_ops_append set_ops_ISet_add set_ops_ISet_del set_fold_add set_fold_del)
next
  case (ESet t d)
  with assms obtain d' where old: "old = ESet t d'" by (cases old) auto
  have wn: "value_wf (ESet t d)" and wo: "value_wf (ESet t d')" using assms(1,2) ESet old by simp_all
  have items: "\<forall>x \<in> set (dict_values d). item_uuid x = Inr (entity_uuid x)"
    "\<forall>x \<in> set (dict_values d'). item_uuid x = Inr (entity_uuid x)"
    using eset_items(1) [OF wn] eset_items(1) [OF wo] by blast+
  obtain es where es: "set_diff (ESet t d) (ESet t d') = Inr es" by simp
  then obtain c where "set_ops es (ESet t d') = Inr (ESet t c)" "\<forall>u. dict_get c u = dict_get d u"
    using items eset_diff_get [OF wn wo]
    by (auto simp: set_ops_append set_ops_ESet_set set_ops_ESet_del simp del: set_map)
  with es show ?thesis unfolding ESet old by auto
next
  case (Plain v)
  with assms show ?thesis by simp
qed

section \<open>Applying the difference of two entities\<close>

lemma dict_set_same: "dict_get d k = Some v \<Longrightarrow> dict_set k v d = d"
  by (induction d) (auto split: if_splits)

lemma dict_set_twice: "dict_set k v (dict_set k v' d) = dict_set k v d"
  by (induction d) auto

lemma all_fields_own: "n \<notin> set special_names \<Longrightarrow> dict_get (all_fields e) n = dict_get (re_fields e) n"
  by (simp add: all_fields_def special_names_def)

lemma put_field_frame [simp]:
  "re_uuid (put_field n v e) = re_uuid e" "re_version (put_field n v e) = re_version e"
  "re_created_at (put_field n v e) = re_created_at e" "re_updated_at (put_field n v e) = re_updated_at e"
  "re_name (put_field n v e) = re_name e" "dict_keys (re_fields (put_field n v e)) = dict_keys (re_fields e)"
proof -
  have "dict_get d n = Some f \<Longrightarrow> dict_keys (dict_set n (f\<lparr>f_value := v\<rparr>) d) = dict_keys d" for d f
    by (induction d) (auto split: if_splits)
  then show "dict_keys (re_fields (put_field n v e)) = dict_keys (re_fields e)"
    by (auto simp: put_field_def split: option.splits)
qed (simp_all add: put_field_def split: option.splits)

lemma put_field_get:
  "dict_get (re_fields e) n = Some f \<Longrightarrow> dict_get (re_fields (put_field n v e)) = (dict_get (re_fields e))(n \<mapsto> f\<lparr>f_value := v\<rparr>)"
  by (simp add: put_field_def)

lemma put_field_same: "dict_get (re_fields e) n = Some f \<Longrightarrow> put_field n (f_value f) e = e"
  by (simp add: put_field_def dict_set_same)

lemma put_field_twice: "dict_get (re_fields e) n = Some f \<Longrightarrow> put_field n v (put_field n v' e) = put_field n v e"
  by (simp add: put_field_def dict_set_twice)

lemma apply_incrementals:
  assumes "n \<notin> set special_names"
  shows "\<lbrakk>dict_get (re_fields e) n = Some f; set_ops es (f_value f) = Inr c\<rbrakk> \<Longrightarrow>
    apply_all C (map (\<lambda>(act, x). IncrementalFieldDiff n t x act) es) e = Inr (put_field n c e)"
proof (induction es arbitrary: e f)
  case Nil
  then show ?case using put_field_same by fastforce
next
  case (Cons ax es)
  obtain act x where ax: "ax = (act, x)" by fastforce
  obtain c1 where c1: "(if is_delete act then discard x (f_value f) else add x (f_value f)) = Inr c1"
    "set_ops es c1 = Inr c"
    using Cons.prems(2) by (simp add: ax split: sum.splits)
  have "apply_all C (map (\<lambda>(act, x). IncrementalFieldDiff n t x act) es) (put_field n c1 e)
      = Inr (put_field n c (put_field n c1 e))"
    by (rule Cons.IH [of "put_field n c1 e" "f\<lparr>f_value := c1\<rparr>"])
       (simp_all add: put_field_get [OF Cons.prems(1)] c1(2))
  then show ?case
    using c1(1) Cons.prems(1) assms
    by (simp add: ax apply_one_def get_attr_def all_fields_own put_field_twice [OF Cons.prems(1)])
qed

lemma field_value_eq_sym: "field_value_eq a b = field_value_eq b a"
  by (cases a; cases b) (auto simp: eq_commute)

text \<open>A field of the new entity against the same field of the old one.\<close>

definition field_pair :: "entity_class \<Rightarrow> string \<Rightarrow> field \<Rightarrow> field \<Rightarrow> bool" where
  "field_pair C n f g \<longleftrightarrow> field_name n \<and> f_type f = f_type g \<and> same_kind (f_value f) (f_value g)
     \<and> value_wf (f_value f) \<and> value_wf (f_value g)
     \<and> ec_set C n (f_type f) (Some (FieldValue (f_value f))) = Inr (f_value f)"

text \<open>The differences of one field: all of that name, and incremental ones or a single one.\<close>

definition chunk :: "string \<Rightarrow> FieldDiff list \<Rightarrow> bool" where
  "chunk n ds \<longleftrightarrow> (\<forall>d \<in> set ds. diff_name d = n) \<and> ((\<forall>d \<in> set ds. is_incremental d) \<or> length ds \<le> 1)"

lemma apply_field:
  assumes "field_pair C n f g" "dict_get b n = Some g" "dict_get (re_fields e) n = Some g"
  shows "\<exists>ds c. diff_field b (n, f) = Inr ds \<and> chunk n ds \<and> apply_all C ds e = Inr (put_field n c e)
    \<and> field_value_eq c (f_value f)"
proof (cases "field_eq f g")
  case True
  then have "field_value_eq (f_value g) (f_value f)" by (simp add: field_eq_def field_value_eq_sym)
  with True assms(2) put_field_same [OF assms(3)] show ?thesis
    by (intro exI [of _ "[]"] exI [of _ "f_value g"]) (simp add: diff_field_def chunk_def)
next
  case ne: False
  show ?thesis
  proof (cases "is_incremental_set (f_value f)")
    case False
    then obtain v where v: "f_value f = Plain v" by (cases "f_value f") auto
    have "set_attr C n (f_value f) e = Inr (put_field n (f_value f) e)"
      using assms by (auto simp: set_attr_def field_pair_def field_name_def all_fields_own)
    with False ne assms(2) v show ?thesis
      by (auto simp: diff_field_def chunk_def apply_one_def)
  next
    case True
    obtain es c where es: "set_diff (f_value f) (f_value g) = Inr es" "set_ops es (f_value g) = Inr c"
      "field_value_eq c (f_value f)"
      using set_diff_apply [of "f_value f" "f_value g", OF _ _ _ True] assms(1) unfolding field_pair_def by blast
    have "apply_all C (map (\<lambda>(act, x). IncrementalFieldDiff n (data_cls (f_value f)) x act) es) e = Inr (put_field n c e)"
      using assms(1) by (intro apply_incrementals [OF _ assms(3) es(2)]) (simp add: field_pair_def field_name_def)
    with True ne assms(2) es show ?thesis
      by (intro exI conjI) (auto simp: diff_field_def chunk_def)
  qed
qed

lemma diff_fields_append:
  "diff_fields (xs @ ys) b = (case diff_fields xs b of Inl e \<Rightarrow> Inl e | Inr ds \<Rightarrow>
     (case diff_fields ys b of Inl e \<Rightarrow> Inl e | Inr ds' \<Rightarrow> Inr (ds @ ds')))"
  by (induction xs b rule: diff_fields.induct) (auto split: sum.splits)

lemma flatten_chunk:
  assumes "\<forall>d \<in> set ds. diff_name d = n" "n \<notin> diff_name ` set ds'"
  shows "flatten_values (ds @ ds') = ds @ flatten_values ds'"
proof (cases ds)
  case (Cons d ds1)
  have names: "map diff_name ds = replicate (length ds) n"
    using assms(1) by (simp add: map_replicate_const [symmetric] cong: map_cong)
  have u: "uniq (replicate (Suc k) n @ xs) = n # filter (\<lambda>y. y \<noteq> n) (uniq xs)" for k xs
    by (induction k) auto
  have keys: "mapper_keys (ds @ ds') = n # mapper_keys ds'"
  proof -
    have "filter (\<lambda>y. y \<noteq> n) (uniq (map diff_name ds')) = uniq (map diff_name ds')"
      using assms(2) by (intro filter_True) auto
    then show ?thesis
      unfolding mapper_keys_def map_append names using u [of "length ds1" "map diff_name ds'"] Cons by simp
  qed
  have "diff_group (ds @ ds') n = ds"
    using assms by (auto simp: diff_group_def filter_id_conv filter_empty_conv)
  moreover have "diff_group (ds @ ds') k = diff_group ds' k" if "k \<in> set (mapper_keys ds')" for k
    using assms that by (auto simp: diff_group_def mapper_keys_def filter_empty_conv)
  ultimately show ?thesis
    unfolding flatten_values_def keys by (simp cong: map_cong)
qed simp

lemma apply_all_append:
  "apply_all C (xs @ ys) e = (case apply_all C xs e of Inl x \<Rightarrow> Inl x | Inr e' \<Rightarrow> apply_all C ys e')"
  by (induction C xs e rule: apply_all.induct) (auto split: sum.splits)

lemma container_accepts: "container ds = Inr ds \<longleftrightarrow> (\<forall>k \<in> set (mapper_keys ds). mapper_ok ds k)"
  by (simp add: container_def build_mapper_def)

lemma container_chunk:
  assumes "chunk n ds" "n \<notin> diff_name ` set ds'" "container ds' = Inr ds'"
  shows "container (ds @ ds') = Inr (ds @ ds')"
  unfolding container_accepts
proof
  fix k
  assume k: "k \<in> set (mapper_keys (ds @ ds'))"
  show "mapper_ok (ds @ ds') k"
  proof (cases "k = n")
    case True
    have g: "diff_group (ds @ ds') n = ds"
      using assms(1,2) by (auto simp: diff_group_def chunk_def filter_id_conv filter_empty_conv)
    show ?thesis
    proof (cases "\<forall>d \<in> set ds. is_incremental d")
      case True
      then have "uniq (map is_incremental ds) = (if ds = [] then [] else [True])" by (intro uniq_constant) simp
      with g \<open>k = n\<close> show ?thesis by (simp add: mapper_ok_def Let_def)
    next
      case False
      with assms(1) obtain d where "ds = [d]" by (cases ds; cases "tl ds") (auto simp: chunk_def)
      with g \<open>k = n\<close> show ?thesis by (simp add: mapper_ok_def Let_def)
    qed
  next
    case False
    have g: "diff_group (ds @ ds') k = diff_group ds' k"
      using assms(1) False by (auto simp: diff_group_def chunk_def filter_empty_conv)
    have "k \<in> set (mapper_keys ds')"
      using k False assms(1) by (auto simp: mapper_keys_def chunk_def)
    with assms(3) g show ?thesis by (simp add: container_accepts mapper_ok_def)
  qed
qed

text \<open>All the fields, one chunk after the other.\<close>

lemma apply_fields:
  assumes "distinct (dict_keys fs)"
    and "\<And>n f. (n, f) \<in> set fs \<Longrightarrow> \<exists>g. field_pair C n f g \<and> dict_get b n = Some g \<and> dict_get (re_fields e) n = Some g"
  shows "\<exists>ds e'. diff_fields fs b = Inr ds \<and> apply_all C ds e = Inr e'
    \<and> diff_name ` set ds \<subseteq> fst ` set fs \<and> flatten_values ds = ds \<and> container ds = Inr ds
    \<and> e' = e\<lparr>re_fields := re_fields e'\<rparr> \<and> dict_keys (re_fields e') = dict_keys (re_fields e)
    \<and> (\<forall>n f. (n, f) \<in> set fs \<longrightarrow> (\<exists>h. dict_get (re_fields e') n = Some h \<and> field_eq h f))
    \<and> (\<forall>n. n \<notin> fst ` set fs \<longrightarrow> dict_get (re_fields e') n = dict_get (re_fields e) n)"
  using assms
proof (induction fs arbitrary: e)
  case Nil
  then show ?case by (simp add: container_def build_mapper_def mapper_keys_def)
next
  case (Cons nf fs)
  obtain n f where nf: "nf = (n, f)" by fastforce
  obtain g where g: "field_pair C n f g" "dict_get b n = Some g" "dict_get (re_fields e) n = Some g"
    using Cons.prems(2) [of n f] nf by auto
  obtain ds c where ds: "diff_field b (n, f) = Inr ds" "chunk n ds" "apply_all C ds e = Inr (put_field n c e)"
    "field_value_eq c (f_value f)"
    using apply_field [OF g] by blast
  let ?e = "put_field n c e"
  have get: "dict_get (re_fields ?e) = (dict_get (re_fields e))(n \<mapsto> g\<lparr>f_value := c\<rparr>)"
    by (rule put_field_get [OF g(3)])
  have n: "n \<notin> fst ` set fs" "distinct (dict_keys fs)" using Cons.prems(1) nf by auto
  have hyp: "\<exists>g. field_pair C m h g \<and> dict_get b m = Some g \<and> dict_get (re_fields ?e) m = Some g" if "(m, h) \<in> set fs" for m h
  proof -
    have "m \<noteq> n" using that n(1) by force
    with Cons.prems(2) [of m h] that get show ?thesis by auto
  qed
  obtain ds' e' where IH: "diff_fields fs b = Inr ds'" "apply_all C ds' ?e = Inr e'"
    "diff_name ` set ds' \<subseteq> fst ` set fs" "flatten_values ds' = ds'" "container ds' = Inr ds'"
    "e' = ?e\<lparr>re_fields := re_fields e'\<rparr>" "dict_keys (re_fields e') = dict_keys (re_fields ?e)"
    "\<forall>m h. (m, h) \<in> set fs \<longrightarrow> (\<exists>k. dict_get (re_fields e') m = Some k \<and> field_eq k h)"
    "\<forall>m. m \<notin> fst ` set fs \<longrightarrow> dict_get (re_fields e') m = dict_get (re_fields ?e) m"
    using Cons.IH [OF n(2) hyp] by blast
  have names: "\<forall>d \<in> set ds. diff_name d = n" "n \<notin> diff_name ` set ds'"
    using ds(2) IH(3) n(1) by (auto simp: chunk_def)
  have own: "\<exists>k. dict_get (re_fields e') n = Some k \<and> field_eq k f"
    using IH(9) n(1) get ds(4) g(1) by (auto simp: field_eq_def field_pair_def)
  have e': "e' = e\<lparr>re_fields := re_fields e'\<rparr>"
    using IH(6) by (cases "dict_get (re_fields e) n") (simp_all add: put_field_def)
  have diffs: "diff_fields (nf # fs) b = Inr (ds @ ds')" by (simp add: nf ds(1) IH(1))
  have app: "apply_all C (ds @ ds') e = Inr e'" by (simp add: apply_all_append ds(3) IH(2))
  have flat: "flatten_values (ds @ ds') = ds @ ds'" using flatten_chunk [OF names] IH(4) by simp
  have cont: "container (ds @ ds') = Inr (ds @ ds')" by (rule container_chunk [OF ds(2) names(2) IH(5)])
  show ?case
  proof (intro exI [of _ "ds @ ds'"] exI [of _ e'] conjI)
    show "diff_name ` set (ds @ ds') \<subseteq> fst ` set (nf # fs)" using names(1) IH(3) nf by auto
    show "\<forall>m h. (m, h) \<in> set (nf # fs) \<longrightarrow> (\<exists>k. dict_get (re_fields e') m = Some k \<and> field_eq k h)"
      using own IH(8) nf by auto
    show "\<forall>m. m \<notin> fst ` set (nf # fs) \<longrightarrow> dict_get (re_fields e') m = dict_get (re_fields e) m"
      using IH(9) get nf by auto
  qed (use diffs app flat cont e' IH(7) in simp_all)
qed

lemma same_class_get:
  assumes "same_class a b" "entity_wf a" "entity_wf b" "class_stores C a" "(n, f) \<in> set (re_fields a)"
  shows "\<exists>g. field_pair C n f g \<and> dict_get (re_fields b) n = Some g"
proof -
  obtain i where i: "i < length (re_fields a)" "re_fields a ! i = (n, f)"
    using assms(5) by (metis in_set_conv_nth)
  obtain m g where g: "re_fields b ! i = (m, g)" by fastforce
  have len: "i < length (re_fields b)" using i(1) list_all2_lengthD [OF assms(1) [unfolded same_class_def]] by simp
  have "n = m \<and> f_type f = f_type g \<and> same_kind (f_value f) (f_value g)"
    using list_all2_nthD [OF assms(1) [unfolded same_class_def] i(1)] i(2) g by simp
  moreover have inb: "(m, g) \<in> set (re_fields b)" using g len by (metis nth_mem)
  moreover have "dict_get (re_fields b) m = Some g" using inb assms(3) by (simp add: entity_wf_def)
  ultimately show ?thesis
    using assms(2-5) inb by (fastforce simp: field_pair_def entity_wf_def class_stores_def)
qed

lemma special_diffs:
  "\<exists>ds. diff_fields [(''uuid'', \<lparr>f_type = a, f_value = Plain v\<rparr>), (''version'', \<lparr>f_type = a', f_value = Plain v'\<rparr>),
      (''created_at'', \<lparr>f_type = a'', f_value = Plain v''\<rparr>), (''updated_at'', \<lparr>f_type = a3, f_value = Plain v3\<rparr>)] b
      = Inr ds \<and> diff_name ` set ds \<subseteq> set special_names"
  by (simp add: diff_field_def special_names_def)

lemma from_difference_own:
  assumes "diff_fields (re_fields a) (all_fields b) = Inr ds" "diff_name ` set ds \<inter> set special_names = {}"
    "container ds = Inr ds"
  shows "from_difference (all_fields a) (all_fields b) (set special_names) = Inr ds"
proof -
  obtain sp where sp: "diff_fields (all_fields a) (all_fields b) = Inr (sp @ ds)" "diff_name ` set sp \<subseteq> set special_names"
    using assms(1) special_diffs [of "''UUID''" "VUuid (re_uuid a)" "''int''" "VInt (re_version a)"
      "''datetime''" "VTime (re_created_at a)" "''datetime''" "VTime (re_updated_at a)" "all_fields b"]
    unfolding all_fields_def [of a] diff_fields_append by auto
  have "filter (\<lambda>d. diff_name d \<notin> set special_names) (sp @ ds) = ds"
  proof -
    have "filter (\<lambda>d. diff_name d \<notin> set special_names) sp = []" using sp(2) by (auto simp: filter_empty_conv)
    moreover have "filter (\<lambda>d. diff_name d \<notin> set special_names) ds = ds" using assms(2) by (intro filter_True) auto
    ultimately show ?thesis by simp
  qed
  with sp(1) assms(3) show ?thesis by (simp add: from_difference_def)
qed

section \<open>Round trips\<close>

text \<open>C6: the difference of two states of an entity can always be computed, and applying it to the old
  state gives the fields of the new one: plain fields the same value, incremental sets the same
  elements, entity sets the same entities under the same identifiers. The version and the update
  time are those of the event.\<close>

theorem diff_apply_roundtrip:
  assumes "re_uuid a = re_uuid b" "entity_wf a" "entity_wf b" "same_class a b" "class_stores C a"
  shows "\<exists>ev e. diff a b = Inr ev \<and> apply_diff C ev b = Inr e
    \<and> (\<forall>n. rel_option field_eq (dict_get (re_fields e) n) (dict_get (re_fields a) n))
    \<and> re_version e = max (re_version a) (re_version b) \<and> re_uuid e = re_uuid a
    \<and> re_created_at e = re_created_at b \<and> re_updated_at e = ev_created_at ev"
proof -
  have pairs: "\<exists>g. field_pair C n f g \<and> dict_get (all_fields b) n = Some g \<and> dict_get (re_fields b) n = Some g"
    if "(n, f) \<in> set (re_fields a)" for n f
    using same_class_get [OF assms(4,2,3,5) that] by (auto simp: all_fields_own field_pair_def field_name_def)
  have dist: "distinct (dict_keys (re_fields a))" using assms(2) by (simp add: entity_wf_def)
  obtain ds e where ds: "diff_fields (re_fields a) (all_fields b) = Inr ds" "apply_all C ds b = Inr e"
    "diff_name ` set ds \<subseteq> fst ` set (re_fields a)" "flatten_values ds = ds" "container ds = Inr ds"
    "e = b\<lparr>re_fields := re_fields e\<rparr>" "dict_keys (re_fields e) = dict_keys (re_fields b)"
    "\<forall>n f. (n, f) \<in> set (re_fields a) \<longrightarrow> (\<exists>h. dict_get (re_fields e) n = Some h \<and> field_eq h f)"
    using apply_fields [OF dist pairs] by blast
  have sp: "diff_name ` set ds \<inter> set special_names = {}"
    using ds(3) assms(2) by (fastforce simp: entity_wf_def field_name_def)
  have keys: "dict_keys (re_fields a) = dict_keys (re_fields b)"
    using assms(4) unfolding same_class_def by (induction rule: list_all2_induct) auto
  have rel: "rel_option field_eq (dict_get (re_fields e) n) (dict_get (re_fields a) n)" for n
  proof (cases "dict_get (re_fields a) n")
    case None
    moreover have "fst ` set (re_fields e) = fst ` set (re_fields a)"
      using arg_cong [OF ds(7), of set] arg_cong [OF keys, of set] by simp
    ultimately have "dict_get (re_fields e) n = None" by (simp add: map_of_eq_None_iff)
    with None show ?thesis by simp
  next
    case (Some f)
    then show ?thesis using ds(8) map_of_SomeD by fastforce
  qed
  let ?new = "if re_version b < re_version a then a else b"
  let ?ev = "\<lparr>ev_uuid = re_uuid ?new, ev_name = re_name ?new, ev_version = re_version ?new,
      ev_action = UPDATE, ev_created_at = re_updated_at ?new, ev_fields_diff = ds\<rparr>"
  have "diff a b = Inr ?ev"
    using assms(1) from_difference_own [OF ds(1) sp ds(5)] by (simp add: diff_def event_from_difference_def Let_def)
  moreover have "re_uuid ?new = re_uuid b" using assms(1) by simp
  moreover have e: "re_uuid e = re_uuid b" "re_created_at e = re_created_at b" by (subst ds(6), simp)+
  ultimately show ?thesis
    using ds(2,4) rel assms(1)
    by (intro exI [of _ ?ev] exI [of _ "e\<lparr>re_version := re_version ?new, re_updated_at := re_updated_at ?new\<rparr>"])
       (simp add: apply_diff_def max_def)
qed

text \<open>A small class for concrete inputs: a plain field, a set of values and a set of entities; a
  field stores what it is given, when it is well formed.\<close>

definition demo_class :: entity_class where
  "demo_class = \<lparr>ec_name = ''app.Car'', ec_fields = [(''color'', ''str''), (''tags'', ''set''), (''owners'', ''EntitySet'')],
     ec_set = (\<lambda>n t v. case v of Some (FieldValue x) \<Rightarrow> (if value_wf x then Inr x else Inl TypeError) | _ \<Rightarrow> Inl MinosReqAttributeException)\<rparr>"

definition demo_old :: RootEntity where
  "demo_old = \<lparr>re_uuid = 7, re_version = 1, re_created_at = 10, re_updated_at = 10, re_name = ''app.Car'',
     re_fields = [(''color'', \<lparr>f_type = ''str'', f_value = Plain (VStr ''red'')\<rparr>),
       (''tags'', \<lparr>f_type = ''set'', f_value = ISet ''str'' [ValueObject (VStr ''a''), ValueObject (VStr ''b'')]\<rparr>),
       (''owners'', \<lparr>f_type = ''EntitySet'', f_value = ESet ''Owner''
          [(1, Entity 1 [(''age'', VInt 30)]), (2, Entity 2 [(''age'', VInt 40)])]\<rparr>)]\<rparr>"

definition demo_new :: RootEntity where
  "demo_new = demo_old\<lparr>re_version := 2, re_updated_at := 20,
     re_fields := [(''color'', \<lparr>f_type = ''str'', f_value = Plain (VStr ''blue'')\<rparr>),
       (''tags'', \<lparr>f_type = ''set'', f_value = ISet ''str'' [ValueObject (VStr ''b''), ValueObject (VStr ''c'')]\<rparr>),
       (''owners'', \<lparr>f_type = ''EntitySet'', f_value = ESet ''Owner''
          [(2, Entity 2 [(''age'', VInt 41)]), (3, Entity 3 [(''age'', VInt 20)])]\<rparr>)]\<rparr>"

theorem diff_apply_roundtrip_witness:
  "\<exists>ev e. diff demo_new demo_old = Inr ev \<and> apply_diff demo_class ev demo_old = Inr e
    \<and> (\<forall>n. rel_option field_eq (dict_get (re_fields e) n) (dict_get (re_fields demo_new) n))
    \<and> re_version e = 2"
proof -
  have "re_uuid demo_new = re_uuid demo_old" "entity_wf demo_new" "entity_wf demo_old"
    "same_class demo_new demo_old" "class_stores demo_class demo_new" "max (re_version demo_new) (re_version demo_old) = 2"
    by code_simp+
  then show ?thesis
    using diff_apply_roundtrip [of demo_new demo_old demo_class] by metis
qed

section \<open>Creation\<close>

lemma plain_container:
  assumes "distinct (dict_keys fs)"
  shows "container (map (\<lambda>(n, f). FieldDiff n (f_type f) (f_value f)) fs) = Inr (map (\<lambda>(n, f). FieldDiff n (f_type f) (f_value f)) fs)"
  using assms
proof (induction fs)
  case Nil
  then show ?case by (simp add: container_def build_mapper_def mapper_keys_def)
next
  case (Cons nf fs)
  obtain n f where nf: "nf = (n, f)" by fastforce
  have "chunk n [FieldDiff n (f_type f) (f_value f)]" by (simp add: chunk_def)
  moreover have "n \<notin> diff_name ` set (map (\<lambda>(n, f). FieldDiff n (f_type f) (f_value f)) fs)"
    using Cons.prems nf by force
  ultimately show ?case
    using container_chunk Cons nf by fastforce
qed

lemma from_model_own:
  assumes "entity_wf e"
  shows "from_model (all_fields e) (set special_names)
    = Inr (map (\<lambda>(n, f). FieldDiff n (f_type f) (f_value f)) (re_fields e))"
proof -
  let ?d = "\<lambda>(n, f). FieldDiff n (f_type f) (f_value f)"
  have "filter (\<lambda>d. diff_name d \<notin> set special_names) (map ?d (re_fields e)) = map ?d (re_fields e)"
    using assms by (intro filter_True) (auto simp: entity_wf_def field_name_def)
  then have "filter (\<lambda>d. diff_name d \<notin> set special_names) (map ?d (all_fields e)) = map ?d (re_fields e)"
    by (simp add: all_fields_def special_names_def)
  then show ?thesis
    using assms by (simp add: from_model_def plain_container entity_wf_def)
qed

lemma plain_names: "map diff_name (map (\<lambda>(n, f). FieldDiff n (f_type f) (f_value f)) fs) = dict_keys fs"
  by auto

lemma plain_get_field:
  assumes "distinct (dict_keys fs)" "(n, f) \<in> set fs"
    and "ev_fields_diff ev = map (\<lambda>(n, f). FieldDiff n (f_type f) (f_value f)) fs"
  shows "get_field ev n = Inr (FieldValue (f_value f))"
proof -
  let ?ds = "map (\<lambda>(n, f). FieldDiff n (f_type f) (f_value f)) fs"
  have group: "diff_group ?ds n = [FieldDiff n (f_type f) (f_value f)]"
    using filter_eq_single [of fst fs "(n, f)"] assms(1,2)
    by (simp add: diff_group_def filter_map comp_def case_prod_beta)
  have n: "n \<in> set (mapper_keys ?ds)" using assms(2) by (force simp: mapper_keys_def)
  have ok: "\<forall>k \<in> set (mapper_keys ?ds). mapper_ok ?ds k"
    using plain_container [OF assms(1)] by (simp add: container_accepts)
  have "dict_get (map (\<lambda>k. (k, h k)) ks) n = Some (h n)" if "n \<in> set ks" for ks :: "string list" and h :: "string \<Rightarrow> bool \<times> FieldDiff list"
    using that by (induction ks) auto
  with n ok group show ?thesis
    by (simp add: get_field_def get_one_def build_mapper_def assms(3))
qed

lemma kwargs_of_all:
  "\<forall>x \<in> set fs. get_field ev (fst x) = Inr (FieldValue (f_value (snd x))) \<Longrightarrow>
   kwargs_of (map (\<lambda>k. (k, get_field ev k)) (dict_keys fs)) = Inr (map (\<lambda>(n, f). (n, FieldValue (f_value f))) fs)"
  by (induction fs) auto

lemma build_fields_all:
  assumes "\<forall>x \<in> set fs. dict_get kw (fst x) = Some (FieldValue (f_value (snd x)))
      \<and> ec_set C (fst x) (f_type (snd x)) (Some (FieldValue (f_value (snd x)))) = Inr (f_value (snd x))"
  shows "build_fields C (map (\<lambda>(n, f). (n, f_type f)) fs) kw = Inr fs"
  using assms by (induction fs) auto

lemma creation_rebuild:
  assumes "entity_wf e" "class_stores C e" "re_name e = ec_name C"
    and "ec_fields C = map (\<lambda>(n, f). (n, f_type f)) (re_fields e)"
  shows "\<exists>ev. from_root_entity e CREATE = Inr ev \<and> ev_action ev = CREATE
    \<and> from_diff C ev = Inr (e\<lparr>re_created_at := re_updated_at e\<rparr>)"
proof -
  let ?ds = "map (\<lambda>(n, f). FieldDiff n (f_type f) (f_value f)) (re_fields e)"
  let ?ev = "\<lparr>ev_uuid = re_uuid e, ev_name = re_name e, ev_version = re_version e, ev_action = CREATE,
     ev_created_at = re_updated_at e, ev_fields_diff = ?ds\<rparr>"
  let ?kw = "map (\<lambda>(n, f). (n, FieldValue (f_value f))) (re_fields e)"
  have dist: "distinct (dict_keys (re_fields e))" using assms(1) by (simp add: entity_wf_def)
  have "get_fields ?ev = map (\<lambda>k. (k, get_field ?ev k)) (dict_keys (re_fields e))"
    using dist by (simp add: get_fields_def mapper_keys_def plain_names uniq_distinct del: map_map)
  then have kw: "kwargs_of (get_fields ?ev) = Inr ?kw"
    using kwargs_of_all [of "re_fields e" ?ev] plain_get_field [OF dist] by simp
  have "dict_get ?kw n = Some (FieldValue (f_value f))" if "(n, f) \<in> set (re_fields e)" for n f
    using that dist by (simp add: map_of_map comp_def in_set_dict_iff [symmetric])
  then have "build_fields C (ec_fields C) ?kw = Inr (re_fields e)"
    using assms(2) unfolding assms(4) by (intro build_fields_all) (auto simp: class_stores_def)
  moreover have "\<not> (\<exists>k \<in> set (dict_keys ?kw). k \<in> set special_names)"
    using assms(1) by (auto simp: entity_wf_def field_name_def)
  ultimately have "from_diff C ?ev = Inr (e\<lparr>re_created_at := re_updated_at e\<rparr>)"
    using kw assms(3) by (simp add: from_diff_def RootEntity_init_def)
  then show ?thesis
    using from_model_own [OF assms(1)] by (simp add: from_root_entity_def)
qed

text \<open>An entity is rebuilt from its creation event. The event carries every field the class
  declares, and \<open>from_diff\<close> gives back an entity with the same identifier, version and fields;
  both times are the time of the event.\<close>

theorem creation_roundtrip:
  assumes "entity_wf e" "class_stores C e" "re_name e = ec_name C"
    and "ec_fields C = map (\<lambda>(n, f). (n, f_type f)) (re_fields e)"
  shows "\<exists>ev. from_root_entity e CREATE = Inr ev \<and> ev_action ev = CREATE
    \<and> from_diff C ev = Inr (e\<lparr>re_created_at := re_updated_at e\<rparr>)"
  using creation_rebuild [OF assms] .

theorem creation_roundtrip_witness:
  "\<exists>ev. from_root_entity demo_new CREATE = Inr ev \<and> from_diff demo_class ev = Inr (demo_new\<lparr>re_created_at := 20\<rparr>)"
proof -
  have "entity_wf demo_new" "class_stores demo_class demo_new" "re_name demo_new = ec_name demo_class"
    "ec_fields demo_class = map (\<lambda>(n, f). (n, f_type f)) (re_fields demo_new)" by code_simp+
  then show ?thesis
    using creation_roundtrip [of demo_new demo_class] by (auto simp: demo_new_def)
qed

end
