(* ===== verification/Queries.thy ===== *)
theory Queries
  imports Entities
begin

text \<open>
  Conditions and orderings over models (\<open>queries.py\<close>): \<open>Condition\<close> with its operators, each
  evaluated as the code does, including Python's comparison rules and the short circuit of
  \<open>all\<close> and \<open>any\<close>, and \<open>Ordering\<close>.

  A condition reads the attributes of what it is given (a root entity or a snapshot entry), so it is
  evaluated against a function that looks attributes up. The values of the model have no
  attributes of their own: a dotted path fails at its second part.
\<close>

section \<open>Comparing values\<close>

text \<open>Python's \<open>==\<close>: a Boolean equals the number it is.\<close>

fun value_eq :: "value \<Rightarrow> value \<Rightarrow> bool" and values_eq :: "value list \<Rightarrow> value list \<Rightarrow> bool" where
  "value_eq (VBool a) (VInt i) = ((if a then 1 else 0) = i)"
| "value_eq (VInt i) (VBool a) = ((if a then 1 else 0) = i)"
| "value_eq (VBool a) (VBool b) = (a = b)"
| "value_eq (VInt i) (VInt j) = (i = j)"
| "value_eq (VStr s) (VStr t) = (s = t)"
| "value_eq (VUuid u) (VUuid v) = (u = v)"
| "value_eq (VTime s) (VTime t) = (s = t)"
| "value_eq VNone VNone = True"
| "value_eq (VList xs) (VList ys) = values_eq xs ys"
| "value_eq _ _ = False"
| "values_eq [] [] = True"
| "values_eq (x # xs) (y # ys) = (value_eq x y \<and> values_eq xs ys)"
| "values_eq _ _ = False"

text \<open>Python's \<open><\<close> on strings compares code points.\<close>

fun string_lt :: "string \<Rightarrow> string \<Rightarrow> bool" where
  "string_lt [] [] = False"
| "string_lt [] (_ # _) = True"
| "string_lt (_ # _) [] = False"
| "string_lt (c # s) (d # t) = (if c = d then string_lt s t else of_char c < (of_char d :: nat))"

text \<open>Python's \<open><\<close>: values of unlike types are not ordered.\<close>

fun value_lt :: "value \<Rightarrow> value \<Rightarrow> agg_error + bool" and values_lt :: "value list \<Rightarrow> value list \<Rightarrow> agg_error + bool" where
  "value_lt (VBool a) (VInt i) = Inr ((if a then 1 else 0) < i)"
| "value_lt (VInt i) (VBool a) = Inr (i < (if a then 1 else 0))"
| "value_lt (VBool a) (VBool b) = Inr (\<not> a \<and> b)"
| "value_lt (VInt i) (VInt j) = Inr (i < j)"
| "value_lt (VStr s) (VStr t) = Inr (string_lt s t)"
| "value_lt (VUuid u) (VUuid v) = Inr (u < v)"
| "value_lt (VTime s) (VTime t) = Inr (s < t)"
| "value_lt (VList xs) (VList ys) = values_lt xs ys"
| "value_lt _ _ = Inl TypeError"
| "values_lt [] [] = Inr False"
| "values_lt [] (_ # _) = Inr True"
| "values_lt (_ # _) [] = Inr False"
| "values_lt (x # xs) (y # ys) = (if value_eq x y then values_lt xs ys else value_lt x y)"

definition value_le :: "value \<Rightarrow> value \<Rightarrow> agg_error + bool" where
  "value_le a b = (if value_eq a b \<and> (\<exists>x. value_lt a b = Inr x) then Inr True else value_lt a b)"

section \<open>LIKE\<close>

text \<open>
  \<open>re.compile(parameter.replace('%', '.*').replace('_', '.')).fullmatch(field)\<close>. The parameter is not
  escaped, so a dot in it is a wildcard too. The other characters with a meaning in a regular
  expression are taken as themselves here: \<open>like_plain\<close> is the condition under which the
  translation is exact.
\<close>

datatype like_tok = AnyChars | AnyChar | Literal char

definition like_token :: "char \<Rightarrow> like_tok" where
  "like_token c = (if c = CHR ''%'' then AnyChars else if c = CHR ''_'' \<or> c = CHR ''.'' then AnyChar else Literal c)"

definition newline :: char where
  "newline = CHR 0x0A"

fun like_match :: "like_tok list \<Rightarrow> string \<Rightarrow> bool" where
  "like_match [] s = (s = [])"
| "like_match (AnyChars # ts) [] = like_match ts []"
| "like_match (AnyChars # ts) (c # s) = (like_match ts (c # s) \<or> c \<noteq> newline \<and> like_match (AnyChars # ts) s)"
| "like_match (AnyChar # ts) s = (case s of [] \<Rightarrow> False | c # s' \<Rightarrow> c \<noteq> newline \<and> like_match ts s')"
| "like_match (Literal d # ts) s = (case s of [] \<Rightarrow> False | c # s' \<Rightarrow> c = d \<and> like_match ts s')"

definition like_plain :: "string \<Rightarrow> bool" where
  "like_plain p \<longleftrightarrow> set p \<inter> set (CHR 0x5C # ''^$*+?{}[]|()'') = {}"

section \<open>Conditions\<close>

datatype Condition =
    TRUE | FALSE
  | AND "Condition list" | OR "Condition list" | NOT Condition
  | LOWER string "value" | LOWER_EQUAL string "value"
  | GREATER string "value" | GREATER_EQUAL string "value"
  | EQUAL string field_value | NOT_EQUAL string field_value
  | IN string "field_value list"
  | LIKE string string

type_synonym getter = "string \<Rightarrow> agg_error + field_value"

definition attrgetter :: "getter \<Rightarrow> string \<Rightarrow> agg_error + field_value" where
  "attrgetter get path = (case split_on (CHR ''.'') path of
     [n] \<Rightarrow> get n
   | n # _ \<Rightarrow> (case get n of Inl e \<Rightarrow> Inl e | Inr _ \<Rightarrow> Inl AttributeError)
   | [] \<Rightarrow> Inl AttributeError)"

text \<open>\<open>==\<close> of attributes: plain values by \<open>value_eq\<close>, collections as sets or dictionaries.\<close>

fun attr_eq :: "field_value \<Rightarrow> field_value \<Rightarrow> bool" where
  "attr_eq (Plain a) (Plain b) = value_eq a b"
| "attr_eq a b = field_value_eq a b"

definition compare :: "(value \<Rightarrow> value \<Rightarrow> agg_error + bool) \<Rightarrow> field_value \<Rightarrow> value \<Rightarrow> agg_error + bool" where
  "compare op a v = (case a of Plain x \<Rightarrow> op x v | _ \<Rightarrow> Inl TypeError)"

definition with_field :: "getter \<Rightarrow> string \<Rightarrow> (field_value \<Rightarrow> agg_error + bool) \<Rightarrow> agg_error + bool" where
  "with_field get f k = (case attrgetter get f of Inl e \<Rightarrow> Inl e | Inr v \<Rightarrow> k v)"

fun evaluate :: "Condition \<Rightarrow> getter \<Rightarrow> agg_error + bool"
  and evaluate_all :: "Condition list \<Rightarrow> getter \<Rightarrow> agg_error + bool"
  and evaluate_any :: "Condition list \<Rightarrow> getter \<Rightarrow> agg_error + bool" where
  "evaluate TRUE get = Inr True"
| "evaluate FALSE get = Inr False"
| "evaluate (AND cs) get = evaluate_all cs get"
| "evaluate (OR cs) get = evaluate_any cs get"
| "evaluate (NOT c) get = (case evaluate c get of Inl e \<Rightarrow> Inl e | Inr b \<Rightarrow> Inr (\<not> b))"
| "evaluate (LOWER f v) get = with_field get f (\<lambda>a. compare value_lt a v)"
| "evaluate (LOWER_EQUAL f v) get = with_field get f (\<lambda>a. compare value_le a v)"
| "evaluate (GREATER f v) get = with_field get f (\<lambda>a. compare (\<lambda>x y. value_lt y x) a v)"
| "evaluate (GREATER_EQUAL f v) get = with_field get f (\<lambda>a. compare (\<lambda>x y. value_le y x) a v)"
| "evaluate (EQUAL f v) get = with_field get f (\<lambda>a. Inr (attr_eq a v))"
| "evaluate (NOT_EQUAL f v) get = with_field get f (\<lambda>a. Inr (\<not> attr_eq a v))"
| "evaluate (IN f vs) get = with_field get f (\<lambda>a. Inr (\<exists>v \<in> set vs. attr_eq a v))"
| "evaluate (LIKE f p) get = with_field get f (\<lambda>a. case a of
     Plain (VStr s) \<Rightarrow> Inr (like_match (map like_token p) s) | _ \<Rightarrow> Inl TypeError)"
| "evaluate_all [] get = Inr True"
| "evaluate_all (c # cs) get = (case evaluate c get of
     Inl e \<Rightarrow> Inl e | Inr False \<Rightarrow> Inr False | Inr True \<Rightarrow> evaluate_all cs get)"
| "evaluate_any [] get = Inr False"
| "evaluate_any (c # cs) get = (case evaluate c get of
     Inl e \<Rightarrow> Inl e | Inr True \<Rightarrow> Inr True | Inr False \<Rightarrow> evaluate_any cs get)"

section \<open>Orderings\<close>

record Ordering =
  ord_by :: string
  ord_reverse :: bool

definition ASC :: "string \<Rightarrow> Ordering" where
  "ASC f = \<lparr>ord_by = f, ord_reverse = False\<rparr>"

definition DESC :: "string \<Rightarrow> Ordering" where
  "DESC f = \<lparr>ord_by = f, ord_reverse = True\<rparr>"

section \<open>Lemmas\<close>

text \<open>De Morgan: negation of a conjunction is the disjunction of the negations, errors and the order
  of evaluation included.\<close>

lemma evaluate_not_all:
  "(case evaluate_all cs get of Inl e \<Rightarrow> Inl e | Inr b \<Rightarrow> Inr (\<not> b)) = evaluate_any (map NOT cs) get"
  by (induction cs) (auto split: sum.splits bool.splits)

lemma evaluate_all_True: "evaluate_all cs get = Inr True \<longleftrightarrow> (\<forall>c \<in> set cs. evaluate c get = Inr True)"
  by (induction cs) (auto split: sum.splits bool.splits)

lemma evaluate_any_False: "evaluate_any cs get = Inr False \<longleftrightarrow> (\<forall>c \<in> set cs. evaluate c get = Inr False)"
  by (induction cs) (auto split: sum.splits bool.splits)

lemma values_eq_pointwise: "\<forall>x \<in> set xs. value_eq x x \<Longrightarrow> values_eq xs xs"
  by (induction xs) auto

lemma value_eq_refl [simp]: "value_eq v v"
  by (induction v) (auto intro: values_eq_pointwise)

end
