(* ===== verification/Snapshots.thy ===== *)
theory Snapshots
  imports Queries Transactions
begin

text \<open>
  Snapshots: \<open>SnapshotEntry\<close> (\<open>snapshots/entries.py\<close>), the base class \<open>SnapshotRepository\<close>
  (\<open>snapshots/repositories/abc.py\<close>), \<open>InMemorySnapshotRepository\<close> (\<open>snapshots/repositories/memory.py\<close>)
  and the operations of \<open>RootEntity\<close> that read a snapshot and submit an event
  (\<open>entities/models.py\<close>).

  A snapshot entry stores the Avro schema and the JSON data of an entity. Both encodings are
  done by libraries, so they are the parameter \<open>entity_codec\<close>; the classes of the application are
  found by name through \<open>sn_class\<close> (\<open>import_module\<close>).
\<close>

section \<open>SnapshotEntry\<close>

record entity_codec =
  enc_schema :: "RootEntity \<Rightarrow> bytes"
  enc_data :: "(string, field) dict \<Rightarrow> bytes"
  dec_entity :: "bytes \<Rightarrow> bytes \<Rightarrow> agg_error + string \<times> (string, field) dict"

record snap_env =
  sn_codec :: entity_codec
  sn_class :: "string \<Rightarrow> agg_error + entity_class"

record SnapshotEntry =
  se_uuid :: uuid
  se_name :: string
  se_version :: "int option"
  se_schema :: "bytes option"
  se_data :: "bytes option"
  se_created_at :: "datetime option"
  se_updated_at :: "datetime option"
  se_transaction_uuid :: uuid

definition snapshot_from_root_entity :: "entity_codec \<Rightarrow> RootEntity \<Rightarrow> uuid \<Rightarrow> SnapshotEntry" where
  "snapshot_from_root_entity c e tx =
     \<lparr>se_uuid = re_uuid e, se_name = re_name e, se_version = Some (re_version e),
      se_schema = Some (enc_schema c e), se_data = Some (enc_data c (re_fields e)),
      se_created_at = Some (re_created_at e), se_updated_at = Some (re_updated_at e), se_transaction_uuid = tx\<rparr>"

definition from_event_entry :: "EventEntry \<Rightarrow> SnapshotEntry" where
  "from_event_entry e =
     \<lparr>se_uuid = ee_uuid e, se_name = ee_name e, se_version = ee_version e, se_schema = None, se_data = None,
      se_created_at = ee_created_at e, se_updated_at = ee_created_at e,
      se_transaction_uuid = ee_transaction_uuid e\<rparr>"

text \<open>\<open>build\<close>: decoding needs the schema; the four base fields are required.\<close>

definition build_entry :: "entity_codec \<Rightarrow> SnapshotEntry \<Rightarrow> agg_error + RootEntity" where
  "build_entry c s =
     (case se_data s of None \<Rightarrow> Inl AlreadyDeletedException | Some d \<Rightarrow>
     (case se_schema s of None \<Rightarrow> Inl TypeError | Some sch \<Rightarrow>
     (case dec_entity c sch d of Inl x \<Rightarrow> Inl x | Inr (n, fs) \<Rightarrow>
     (case (se_version s, se_created_at s, se_updated_at s) of
        (Some v, Some ca, Some ua) \<Rightarrow>
          Inr \<lparr>re_uuid = se_uuid s, re_version = v, re_created_at = ca, re_updated_at = ua, re_name = n, re_fields = fs\<rparr>
      | _ \<Rightarrow> Inl MinosReqAttributeException))))"

text \<open>The attributes a condition can read of an entry that is not built.\<close>

definition entry_attr :: "SnapshotEntry \<Rightarrow> string \<Rightarrow> agg_error + field_value" where
  "entry_attr s n =
     (if n = ''uuid'' then Inr (Plain (VUuid (se_uuid s)))
      else if n = ''name'' then Inr (Plain (VStr (se_name s)))
      else if n = ''version'' then Inr (Plain (case se_version s of None \<Rightarrow> VNone | Some v \<Rightarrow> VInt v))
      else if n = ''created_at'' then Inr (Plain (case se_created_at s of None \<Rightarrow> VNone | Some t \<Rightarrow> VTime t))
      else if n = ''updated_at'' then Inr (Plain (case se_updated_at s of None \<Rightarrow> VNone | Some t \<Rightarrow> VTime t))
      else if n = ''transaction_uuid'' then Inr (Plain (VUuid (se_transaction_uuid s)))
      else if n = ''schema'' \<or> n = ''data'' then Inr (Plain VNone)
      else Inl AttributeError)"

section \<open>InMemorySnapshotRepository\<close>

text \<open>\<open>_get_transaction_uuids\<close>: the chain without the rejected transactions at its inner end.\<close>

function drop_rejected :: "('e, 't) repos \<Rightarrow> uuid list \<Rightarrow> ('e, 't, uuid list) wop" where
  "drop_rejected R us =
     (if length us > 1 then
        bindE (tx_get R (last us)) (\<lambda>t.
          if te_status t \<noteq> REJECTED then retE us else drop_rejected R (butlast us))
      else retE us)"
  by auto
termination
  by (relation "measure (\<lambda>(R, us). length us)") auto

declare drop_rejected.simps [simp del]

definition get_transaction_uuids ::
  "('e, 't) repos \<Rightarrow> TransactionEntry option \<Rightarrow> ('e, 't, uuid list) wop" where
  "get_transaction_uuids R tx =
     bindE (case tx of None \<Rightarrow> retE [NULL_UUID] | Some t \<Rightarrow> (\<lambda>w. (uuids R (w_txs w) t, w))) (drop_rejected R)"

fun index_of :: "'a \<Rightarrow> 'a list \<Rightarrow> nat" where
  "index_of x [] = 0"
| "index_of x (y # ys) = (if x = y then 0 else Suc (index_of x ys))"

text \<open>Walking backwards, keep an entry when its version is below that of the last one kept.\<close>

fun keep_lower :: "EventEntry list \<Rightarrow> EventEntry \<Rightarrow> EventEntry list" where
  "keep_lower [] cur = []"
| "keep_lower (e # es) cur =
     (if the (ee_version e) < the (ee_version cur) then e # keep_lower es e else keep_lower es cur)"

definition effective_entries :: "uuid list \<Rightarrow> EventEntry list \<Rightarrow> EventEntry list" where
  "effective_entries txs es =
     (let es = sort_key (\<lambda>e. the (ee_version e))
                 (sort_key (\<lambda>e. index_of (ee_transaction_uuid e) txs)
                   (filter (\<lambda>e. ee_transaction_uuid e \<in> set txs) es)) in
      if length (uniq (map ee_transaction_uuid es)) > 1
      then rev (last es # keep_lower (rev (butlast es)) (last es))
      else es)"

definition get_event_entries ::
  "('e, 't) repos \<Rightarrow> string \<Rightarrow> uuid \<Rightarrow> uuid list \<Rightarrow> ('e, 't, EventEntry list) wop" where
  "get_event_entries R name u txs =
     bindE (ev_select R (ev_all\<lparr>eq_name := Some name, eq_uuid := Some u\<rparr>)) (\<lambda>es.
       retE (effective_entries txs es))"

fun apply_entries :: "entity_class \<Rightarrow> codec \<Rightarrow> EventEntry list \<Rightarrow> RootEntity \<Rightarrow> agg_error + RootEntity" where
  "apply_entries C c [] e = Inr e"
| "apply_entries C c (x # xs) e = (case entry_event c x of Inl err \<Rightarrow> Inl err | Inr ev \<Rightarrow>
     (case apply_diff C ev e of Inl err \<Rightarrow> Inl err | Inr e' \<Rightarrow> apply_entries C c xs e'))"

definition replay :: "entity_class \<Rightarrow> codec \<Rightarrow> EventEntry list \<Rightarrow> agg_error + RootEntity" where
  "replay C c es = (case es of [] \<Rightarrow> Inl IndexError | x # xs \<Rightarrow>
     (case entry_event c x of Inl err \<Rightarrow> Inl err | Inr ev \<Rightarrow>
     (case from_diff C ev of Inl err \<Rightarrow> Inl err | Inr e \<Rightarrow> apply_entries C c xs e)))"

text \<open>\<open>_build_instance\<close>; the last entry of no entries is an \<open>IndexError\<close>.\<close>

definition build_instance :: "snap_env \<Rightarrow> codec \<Rightarrow> EventEntry list \<Rightarrow> agg_error + SnapshotEntry" where
  "build_instance E c es =
     (if es = [] then Inl IndexError else
      case ee_action (last es) of None \<Rightarrow> Inl AttributeError | Some a \<Rightarrow>
        (if is_delete a then Inr (from_event_entry (last es)) else
         case sn_class E (ee_name (hd es)) of Inl x \<Rightarrow> Inl x | Inr C \<Rightarrow>
           (case replay C c es of Inl x \<Rightarrow> Inl x
            | Inr e \<Rightarrow> Inr (snapshot_from_root_entity (sn_codec E) e NULL_UUID))))"

definition mem_snap_get ::
  "('e, 't) repos \<Rightarrow> snap_env \<Rightarrow> string \<Rightarrow> uuid \<Rightarrow> TransactionEntry option \<Rightarrow> ('e, 't, SnapshotEntry) wop" where
  "mem_snap_get R E name u tx =
     bindE (get_transaction_uuids R tx) (\<lambda>txs.
     bindE (get_event_entries R name u txs) (\<lambda>es.
     liftE (build_instance E (r_codec R) es)))"

text \<open>The body of the loop of \<open>_find_entries\<close>: whether the entry is selected.\<close>

definition selects :: "snap_env \<Rightarrow> Condition \<Rightarrow> bool \<Rightarrow> SnapshotEntry \<Rightarrow> agg_error + bool" where
  "selects E cond exclude_deleted s =
     (case build_entry (sn_codec E) s of
        Inr e \<Rightarrow> evaluate cond (get_attr e)
      | Inl AlreadyDeletedException \<Rightarrow> (if exclude_deleted then Inr False else evaluate cond (entry_attr s))
      | Inl x \<Rightarrow> Inl x)"

fun find_loop ::
  "('e, 't) repos \<Rightarrow> snap_env \<Rightarrow> string \<Rightarrow> Condition \<Rightarrow> bool \<Rightarrow> TransactionEntry option \<Rightarrow> uuid list
   \<Rightarrow> ('e, 't, SnapshotEntry list) wop" where
  "find_loop R E name cond ex tx [] = retE []"
| "find_loop R E name cond ex tx (u # us) =
     bindE (mem_snap_get R E name u tx) (\<lambda>s.
     bindE (liftE (selects E cond ex s)) (\<lambda>b.
     bindE (find_loop R E name cond ex tx us) (\<lambda>ss. retE (if b then s # ss else ss))))"

text \<open>The attribute an entry is ordered by, and a stable insertion sort by the comparison function;
  \<open>reverse\<close> keeps the order of equal entries.\<close>

definition sort_attr :: "snap_env \<Rightarrow> string \<Rightarrow> SnapshotEntry \<Rightarrow> agg_error + value" where
  "sort_attr E by s =
     (case (case build_entry (sn_codec E) s of
              Inr e \<Rightarrow> attrgetter (get_attr e) by
            | Inl AlreadyDeletedException \<Rightarrow> attrgetter (entry_attr s) by
            | Inl x \<Rightarrow> Inl x) of
        Inl x \<Rightarrow> Inl x | Inr (Plain v) \<Rightarrow> Inr v | Inr _ \<Rightarrow> Inl TypeError)"

fun insert_by :: "(value \<times> 'a) \<Rightarrow> bool \<Rightarrow> (value \<times> 'a) list \<Rightarrow> agg_error + (value \<times> 'a) list" where
  "insert_by x reversed [] = Inr [x]"
| "insert_by x reversed (y # ys) =
     (case (if reversed then value_lt (fst x) (fst y) else value_lt (fst y) (fst x)) of
        Inl e \<Rightarrow> Inl e
      | Inr True \<Rightarrow> (case insert_by x reversed ys of Inl e \<Rightarrow> Inl e | Inr zs \<Rightarrow> Inr (y # zs))
      | Inr False \<Rightarrow> Inr (x # y # ys))"

fun sort_entries :: "snap_env \<Rightarrow> Ordering \<Rightarrow> SnapshotEntry list \<Rightarrow> agg_error + (value \<times> SnapshotEntry) list" where
  "sort_entries E orderBy [] = Inr []"
| "sort_entries E orderBy (s # ss) =
     (case sort_attr E (ord_by orderBy) s of Inl e \<Rightarrow> Inl e | Inr v \<Rightarrow>
     (case sort_entries E orderBy ss of Inl e \<Rightarrow> Inl e | Inr zs \<Rightarrow>
        insert_by (v, s) (ord_reverse orderBy) zs))"

text \<open>\<open>entries[:limit]\<close>, where a negative limit counts from the end.\<close>

definition py_prefix :: "int \<Rightarrow> 'a list \<Rightarrow> 'a list" where
  "py_prefix n xs = (if 0 \<le> n then take (nat n) xs else take (nat (int (length xs) + n)) xs)"

definition mem_find_entries ::
  "('e, 't) repos \<Rightarrow> snap_env \<Rightarrow> string \<Rightarrow> Condition \<Rightarrow> Ordering option \<Rightarrow> int option \<Rightarrow> TransactionEntry option
   \<Rightarrow> bool \<Rightarrow> ('e, 't, SnapshotEntry list) wop" where
  "mem_find_entries R E name cond orderBy limit tx exclude_deleted =
     bindE (ev_select R (ev_all\<lparr>eq_name := Some name\<rparr>)) (\<lambda>evs.
     bindE (find_loop R E name cond exclude_deleted tx (uniq (map ee_uuid evs))) (\<lambda>ss.
     bindE (case orderBy of None \<Rightarrow> retE ss
        | Some o' \<Rightarrow> if length ss \<le> 1 then retE ss else bindE (liftE (sort_entries E o' ss)) (\<lambda>zs. retE (map snd zs))) (\<lambda>ss.
     retE (case limit of None \<Rightarrow> ss | Some n \<Rightarrow> py_prefix n ss))))"

section \<open>SnapshotRepository\<close>

text \<open>
  The base class takes the repository's \<open>_find_entries\<close> as an argument. The transaction given, or
  the current one; \<open>synchronize\<close> does nothing for the in-memory repository.
\<close>

definition current_entry :: "('e, 't) world \<Rightarrow> TransactionEntry option" where
  "current_entry w = (case w_ctx w of [] \<Rightarrow> None | t # st \<Rightarrow> Some ((entry_of False t)\<lparr>te_token := Some st\<rparr>))"

definition find_entries ::
  "('e, 't) repos \<Rightarrow> snap_env \<Rightarrow> string \<Rightarrow> Condition \<Rightarrow> Ordering option \<Rightarrow> int option \<Rightarrow> TransactionEntry option
   \<Rightarrow> bool \<Rightarrow> ('e, 't, SnapshotEntry list) wop" where
  "find_entries R E name cond orderBy limit tx exclude_deleted =
     bindE (case tx of Some t \<Rightarrow> retE (Some t) | None \<Rightarrow> getsE current_entry) (\<lambda>tx.
       mem_find_entries R E name cond orderBy limit tx exclude_deleted)"

definition get_entry ::
  "('e, 't) repos \<Rightarrow> snap_env \<Rightarrow> string \<Rightarrow> uuid \<Rightarrow> TransactionEntry option \<Rightarrow> ('e, 't, SnapshotEntry) wop" where
  "get_entry R E name u tx =
     bindE (find_entries R E name (EQUAL ''uuid'' (Plain (VUuid u))) None None tx False) (\<lambda>ss.
       case ss of [] \<Rightarrow> raiseE NotFoundException | s # _ \<Rightarrow> retE s)"

definition snapshot_get ::
  "('e, 't) repos \<Rightarrow> snap_env \<Rightarrow> string \<Rightarrow> uuid \<Rightarrow> TransactionEntry option \<Rightarrow> ('e, 't, RootEntity) wop" where
  "snapshot_get R E name u tx = bindE (get_entry R E name u tx) (\<lambda>s. liftE (build_entry (sn_codec E) s))"

fun build_all :: "entity_codec \<Rightarrow> SnapshotEntry list \<Rightarrow> agg_error + RootEntity list" where
  "build_all c [] = Inr []"
| "build_all c (s # ss) = (case build_entry c s of Inl x \<Rightarrow> Inl x | Inr e \<Rightarrow>
     (case build_all c ss of Inl x \<Rightarrow> Inl x | Inr es \<Rightarrow> Inr (e # es)))"

definition snapshot_find ::
  "('e, 't) repos \<Rightarrow> snap_env \<Rightarrow> string \<Rightarrow> Condition \<Rightarrow> Ordering option \<Rightarrow> int option \<Rightarrow> TransactionEntry option
   \<Rightarrow> ('e, 't, RootEntity list) wop" where
  "snapshot_find R E name cond orderBy limit tx =
     bindE (find_entries R E name cond orderBy limit tx True) (\<lambda>ss. liftE (build_all (sn_codec E) ss))"

definition snapshot_get_all ::
  "('e, 't) repos \<Rightarrow> snap_env \<Rightarrow> string \<Rightarrow> Ordering option \<Rightarrow> int option \<Rightarrow> TransactionEntry option
   \<Rightarrow> ('e, 't, RootEntity list) wop" where
  "snapshot_get_all R E name orderBy limit tx = snapshot_find R E name TRUE orderBy limit tx"

section \<open>RootEntity operations\<close>

text \<open>\<open>create(**kwargs)\<close>: the base fields may not be given.\<close>

definition entity_create ::
  "('e, 't) repos \<Rightarrow> entity_class \<Rightarrow> (string, field_arg) dict \<Rightarrow> ('e, 't, RootEntity) wop" where
  "entity_create R C kw =
     (if \<exists>k \<in> set (dict_keys kw). k \<in> set special_names then raiseE EventRepositoryException else
      bindE (liftE (RootEntity_init C NULL_UUID 0 NULL_DATETIME NULL_DATETIME kw)) (\<lambda>instance.
      bindE (liftE (from_root_entity instance CREATE)) (\<lambda>event.
      bindE (submit R (AnEvent event) None) (\<lambda>entry.
      liftE (update_from_entry entry instance)))))"

fun set_attrs :: "entity_class \<Rightarrow> (string, field_value) dict \<Rightarrow> RootEntity \<Rightarrow> agg_error + RootEntity" where
  "set_attrs C [] e = Inr e"
| "set_attrs C ((n, v) # kvs) e = (case set_attr C n v e of Inl x \<Rightarrow> Inl x | Inr e' \<Rightarrow> set_attrs C kvs e')"

text \<open>\<open>update(**kwargs)\<close>: compares with the stored state and submits the difference, if there is one.\<close>

definition entity_update ::
  "('e, 't) repos \<Rightarrow> snap_env \<Rightarrow> entity_class \<Rightarrow> (string, field_value) dict \<Rightarrow> RootEntity \<Rightarrow> ('e, 't, RootEntity) wop" where
  "entity_update R E C kw self =
     (if \<exists>k \<in> set (dict_keys kw). k \<in> {''version'', ''created_at'', ''updated_at''}
      then raiseE EventRepositoryException else
      bindE (liftE (set_attrs C kw self)) (\<lambda>self.
      bindE (snapshot_get R E (ec_name C) (re_uuid self) None) (\<lambda>previous.
      bindE (liftE (diff self previous)) (\<lambda>event.
      if ev_fields_diff event = [] then retE self else
      bindE (submit R (AnEvent event) None) (\<lambda>entry.
      liftE (update_from_entry entry self))))))"

text \<open>\<open>save()\<close> creates or updates, depending on whether there is an identifier.\<close>

definition own_values :: "RootEntity \<Rightarrow> (string, field_value) dict" where
  "own_values e = map (\<lambda>(n, f). (n, f_value f)) (filter (\<lambda>(n, f). n \<notin> set special_names) (all_fields e))"

definition entity_save ::
  "('e, 't) repos \<Rightarrow> snap_env \<Rightarrow> entity_class \<Rightarrow> RootEntity \<Rightarrow> ('e, 't, RootEntity) wop" where
  "entity_save R E C self =
     (let is_creation = (re_uuid self = NULL_UUID) in
      if is_creation \<noteq> (re_version self = 0) then raiseE EventRepositoryException
      else if is_creation
      then entity_create R C (map (\<lambda>(n, v). (n, FieldValue v)) (own_values self))
      else entity_update R E C (own_values self) self)"

definition entity_refresh ::
  "('e, 't) repos \<Rightarrow> snap_env \<Rightarrow> entity_class \<Rightarrow> RootEntity \<Rightarrow> ('e, 't, RootEntity) wop" where
  "entity_refresh R E C self = snapshot_get R E (ec_name C) (re_uuid self) None"

definition entity_delete :: "('e, 't) repos \<Rightarrow> RootEntity \<Rightarrow> ('e, 't, RootEntity) wop" where
  "entity_delete R self =
     bindE (submit R (AnEvent (from_deleted_root_entity self DELETE)) None) (\<lambda>entry.
     liftE (update_from_entry entry self))"

end
