(* ===== verification/Saga_Base.thy ===== *)
theory Saga_Base
  imports Field_Diffs "HOL-Library.List_Lexorder" "HOL-Library.Char_ord" "HOL-Library.Product_Lexorder"
begin

text \<open>
  Basic data of the saga package: the exceptions (\<open>exceptions.py\<close>), the two status enumerations
  with their text forms (\<open>executions/status.py\<close>), the execution context (\<open>context.py\<close>), the request
  and response objects (\<open>messages.py\<close>), and what the package uses of broker messages and of the
  standard library: the text form of identifiers, \<open>str.title\<close>, and the values it serializes to.
\<close>

section \<open>Exceptions\<close>

text \<open>\<open>Raised\<close> is an exception of the application code, \<open>Agg\<close> one of the aggregate package or a
  built-in one.\<close>

datatype saga_error =
    Raised string
  | Agg agg_error
  | StopIteration
  | NotImplementedError
  | EmptySagaException
  | SagaNotCommittedException
  | SagaNotDefinedException
  | EmptySagaStepException
  | MultipleOnExecuteException
  | MultipleOnFailureException
  | MultipleOnSuccessException
  | MultipleOnErrorException
  | MultipleElseThenException
  | AlreadyOnSagaException
  | UndefinedOnExecuteException
  | SagaExecutionNotFoundException
  | SagaRollbackExecutionException
  | SagaFailedExecutionException saga_error
  | SagaExecutionAlreadyExecutedException
  | SagaFailedExecutionStepException saga_error
  | SagaPausedExecutionStepException
  | SagaRollbackExecutionStepException
  | AlreadyCommittedException
  | ExecutorException saga_error
  | SagaFailedCommitCallbackException saga_error
  | SagaResponseException

text \<open>\<open>isinstance(exc, SagaStepExecutionException)\<close> and \<open>isinstance(exc, SagaFailedExecutionException)\<close>.\<close>

fun is_step_execution_exception :: "saga_error \<Rightarrow> bool" where
  "is_step_execution_exception (SagaFailedExecutionStepException _) = True"
| "is_step_execution_exception SagaPausedExecutionStepException = True"
| "is_step_execution_exception SagaRollbackExecutionStepException = True"
| "is_step_execution_exception _ = False"

fun is_failed_execution_exception :: "saga_error \<Rightarrow> bool" where
  "is_failed_execution_exception (SagaFailedExecutionException _) = True"
| "is_failed_execution_exception (SagaFailedExecutionStepException _) = True"
| "is_failed_execution_exception (SagaFailedCommitCallbackException _) = True"
| "is_failed_execution_exception _ = False"

section \<open>Statuses\<close>

datatype SagaStatus = Created | Running | Paused | Finished | Errored

definition SagaStatus_members :: "SagaStatus list" where
  "SagaStatus_members = [Created, Running, Paused, Finished, Errored]"

fun SagaStatus_raw :: "SagaStatus \<Rightarrow> string" where
  "SagaStatus_raw Created = ''created''"
| "SagaStatus_raw Running = ''running''"
| "SagaStatus_raw Paused = ''paused''"
| "SagaStatus_raw Finished = ''finished''"
| "SagaStatus_raw Errored = ''errored''"

datatype SagaStepStatus = StepCreated | RunningOnExecute | FinishedOnExecute | ErroredOnExecute
  | PausedByOnExecute | ErroredByOnExecute | RunningOnFailure | PausedOnFailure | ErroredOnFailure
  | RunningOnSuccess | ErroredOnSuccess | RunningOnError | ErroredOnError | StepFinished

definition SagaStepStatus_members :: "SagaStepStatus list" where
  "SagaStepStatus_members = [StepCreated, RunningOnExecute, FinishedOnExecute, ErroredOnExecute,
     PausedByOnExecute, ErroredByOnExecute, RunningOnFailure, PausedOnFailure, ErroredOnFailure,
     RunningOnSuccess, ErroredOnSuccess, RunningOnError, ErroredOnError, StepFinished]"

fun SagaStepStatus_raw :: "SagaStepStatus \<Rightarrow> string" where
  "SagaStepStatus_raw StepCreated = ''created''"
| "SagaStepStatus_raw RunningOnExecute = ''running-on-execute''"
| "SagaStepStatus_raw FinishedOnExecute = ''finished-on-execute''"
| "SagaStepStatus_raw ErroredOnExecute = ''errored-on-execute''"
| "SagaStepStatus_raw PausedByOnExecute = ''paused-by-on-execute''"
| "SagaStepStatus_raw ErroredByOnExecute = ''errored-by-on-execute''"
| "SagaStepStatus_raw RunningOnFailure = ''running-on-failure''"
| "SagaStepStatus_raw PausedOnFailure = ''paused-on-failure''"
| "SagaStepStatus_raw ErroredOnFailure = ''errored-on-failure''"
| "SagaStepStatus_raw RunningOnSuccess = ''running-on-success''"
| "SagaStepStatus_raw ErroredOnSuccess = ''errored-on-success''"
| "SagaStepStatus_raw RunningOnError = ''running-on-error''"
| "SagaStepStatus_raw ErroredOnError = ''errored-on-error''"
| "SagaStepStatus_raw StepFinished = ''finished''"

text \<open>\<open>next(obj for obj in cls if obj.value == raw)\<close>: \<open>StopIteration\<close> when there is none.\<close>

fun first_raw :: "('a \<Rightarrow> 'b) \<Rightarrow> 'b \<Rightarrow> 'a list \<Rightarrow> saga_error + 'a" where
  "first_raw f v [] = Inl StopIteration"
| "first_raw f v (x # xs) = (if f x = v then Inr x else first_raw f v xs)"

definition SagaStatus_from_raw :: "string \<Rightarrow> saga_error + SagaStatus" where
  "SagaStatus_from_raw s = first_raw SagaStatus_raw s SagaStatus_members"

definition SagaStepStatus_from_raw :: "string \<Rightarrow> saga_error + SagaStepStatus" where
  "SagaStepStatus_from_raw s = first_raw SagaStepStatus_raw s SagaStepStatus_members"

lemma SagaStatus_from_raw_raw [simp]: "SagaStatus_from_raw (SagaStatus_raw s) = Inr s"
  by (cases s) (simp_all add: SagaStatus_from_raw_def SagaStatus_members_def)

lemma SagaStepStatus_from_raw_raw [simp]: "SagaStepStatus_from_raw (SagaStepStatus_raw s) = Inr s"
  by (cases s) (simp_all add: SagaStepStatus_from_raw_def SagaStepStatus_members_def)

section \<open>SagaContext\<close>

text \<open>
  A context is a dictionary of values. \<open>SagaContext(**context)\<close>, the copy the executors make, takes
  a key called \<open>fields\<close> for the fields of another model, so a context with such a key cannot be
  copied: a plain value has no \<open>items\<close>.
\<close>

type_synonym SagaContext = "(string, value) dict"

definition SagaContext_init :: "SagaContext \<Rightarrow> saga_error + SagaContext" where
  "SagaContext_init c = (if ''fields'' \<in> set (dict_keys c) then Inl (Agg AttributeError) else Inr c)"

definition context_setitem :: "string \<Rightarrow> value \<Rightarrow> SagaContext \<Rightarrow> SagaContext" where
  "context_setitem k v c = dict_set k v c"

definition context_delitem :: "string \<Rightarrow> SagaContext \<Rightarrow> saga_error + SagaContext" where
  "context_delitem k c = (if dict_get c k = None then Inl (Agg KeyError) else Inr (dict_del k c))"

section \<open>Identifiers as text\<close>

text \<open>
  \<open>str(uuid)\<close> is 32 hexadecimal digits in groups of 8, 4, 4, 4 and 12; \<open>UUID(text)\<close> drops the
  hyphens and reads 32 digits. The prefixes and braces \<open>UUID\<close> also accepts are not used here.
\<close>

definition hex_char :: "nat \<Rightarrow> char" where
  "hex_char n = ''0123456789abcdef'' ! n"

definition hex_val :: "char \<Rightarrow> nat option" where
  "hex_val c = (case filter (\<lambda>i. hex_char i = c \<or> ''0123456789ABCDEF'' ! i = c) [0..<16] of [] \<Rightarrow> None | i # _ \<Rightarrow> Some i)"

fun hex_digits :: "nat \<Rightarrow> nat \<Rightarrow> string" where
  "hex_digits 0 n = []"
| "hex_digits (Suc k) n = hex_digits k (n div 16) @ [hex_char (n mod 16)]"

fun hex_value :: "string \<Rightarrow> nat \<Rightarrow> nat option" where
  "hex_value [] acc = Some acc"
| "hex_value (c # cs) acc = (case hex_val c of None \<Rightarrow> None | Some d \<Rightarrow> hex_value cs (16 * acc + d))"

definition uuid_str :: "uuid \<Rightarrow> string" where
  "uuid_str u = (let h = hex_digits 32 u in
     take 8 h @ ''-'' @ take 4 (drop 8 h) @ ''-'' @ take 4 (drop 12 h) @ ''-'' @ take 4 (drop 16 h) @ ''-'' @ drop 20 h)"

definition uuid_of :: "string \<Rightarrow> saga_error + uuid" where
  "uuid_of s = (let h = filter (\<lambda>c. c \<noteq> CHR ''-'') s in
     if length h \<noteq> 32 then Inl (Agg ValueError)
     else (case hex_value h 0 of None \<Rightarrow> Inl (Agg ValueError) | Some n \<Rightarrow> Inr n))"

lemma hex_val_char: "n < 16 \<Longrightarrow> hex_val (hex_char n) = Some n"
proof -
  have "\<forall>i \<in> {0..<16}. hex_val (hex_char i) = Some i" by code_simp
  then show "n < 16 \<Longrightarrow> hex_val (hex_char n) = Some n" by auto
qed

lemma hex_char_plain: "n < 16 \<Longrightarrow> hex_char n \<noteq> CHR ''-'' \<and> hex_char n \<noteq> CHR '',''"
proof -
  have "\<forall>i \<in> {0..<16}. hex_char i \<noteq> CHR ''-'' \<and> hex_char i \<noteq> CHR '',''" by code_simp
  then show "n < 16 \<Longrightarrow> hex_char n \<noteq> CHR ''-'' \<and> hex_char n \<noteq> CHR '',''" by auto
qed

lemma length_hex_digits [simp]: "length (hex_digits k n) = k"
  by (induction k n rule: hex_digits.induct) auto

lemma hex_digits_plain: "c \<in> set (hex_digits k n) \<Longrightarrow> c \<noteq> CHR ''-'' \<and> c \<noteq> CHR '',''"
  by (induction k n rule: hex_digits.induct) (auto simp: hex_char_plain)

lemma hex_value_append: "hex_value (xs @ ys) acc = (case hex_value xs acc of None \<Rightarrow> None | Some a \<Rightarrow> hex_value ys a)"
  by (induction xs acc rule: hex_value.induct) (auto split: option.splits)

lemma hex_value_digits: "hex_value (hex_digits k n) acc = Some (16 ^ k * acc + n mod 16 ^ k)"
proof (induction k arbitrary: n)
  case (Suc k)
  have "16 * (n div 16 mod 16 ^ k) + n mod 16 = n mod 16 ^ Suc k"
    by (simp add: mod_mult2_eq [of n 16 "16 ^ k"])
  then show ?case
    by (simp add: hex_value_append Suc hex_val_char algebra_simps)
qed simp

lemma set_uuid_str: "c \<in> set (uuid_str u) \<Longrightarrow> c = CHR ''-'' \<or> c \<in> set (hex_digits 32 u)"
  by (auto simp: uuid_str_def Let_def dest: in_set_takeD in_set_dropD)

lemma uuid_str_no_comma: "CHR '','' \<notin> set (uuid_str u)"
  using set_uuid_str [of "CHR '',''" u] hex_digits_plain by auto

lemma uuid_str_not_Nil [simp]: "uuid_str u \<noteq> []"
  by (simp add: uuid_str_def Let_def)

lemma take_pieces: "take 8 h @ take 4 (drop 8 h) @ take 4 (drop 12 h) @ take 4 (drop 16 h) @ drop 20 h = h"
proof -
  have "take 4 (drop 16 h) @ drop 20 h = drop 16 h" "take 4 (drop 12 h) @ drop 16 h = drop 12 h"
    "take 4 (drop 8 h) @ drop 12 h = drop 8 h"
    using append_take_drop_id [of 4 "drop 16 h"] append_take_drop_id [of 4 "drop 12 h"] append_take_drop_id [of 4 "drop 8 h"]
    by simp_all
  then show ?thesis by simp
qed

lemma uuid_str_digits: "filter (\<lambda>c. c \<noteq> CHR ''-'') (uuid_str u) = hex_digits 32 u"
proof -
  define h where "h = hex_digits 32 u"
  have plain: "filter (\<lambda>c. c \<noteq> CHR ''-'') xs = xs" if "set xs \<subseteq> set h" for xs
    using that hex_digits_plain unfolding h_def filter_id_conv by blast
  have "set (take m (drop n h)) \<subseteq> set h" "set (take n h) \<subseteq> set h" "set (drop n h) \<subseteq> set h" for m n
    using set_take_subset set_drop_subset by (metis order_trans)+
  note pieces = this [THEN plain]
  have "filter (\<lambda>c. c \<noteq> CHR ''-'') (uuid_str u)
      = take 8 h @ take 4 (drop 8 h) @ take 4 (drop 12 h) @ take 4 (drop 16 h) @ drop 20 h"
    unfolding uuid_str_def Let_def h_def [symmetric] filter_append pieces by simp
  then show ?thesis unfolding take_pieces h_def .
qed

lemma uuid_of_str: "u < 2 ^ 128 \<Longrightarrow> uuid_of (uuid_str u) = Inr u"
proof -
  assume "u < 2 ^ 128"
  moreover have "(16::nat) ^ 32 = 2 ^ 128" 
    using power_mult [of "2::nat" 4 32] by simp
  ultimately have "u mod 16 ^ 32 = u" by (metis mod_less)
  then have "hex_value (hex_digits 32 u) 0 = Some u" unfolding hex_value_digits by simp
  then show ?thesis
    unfolding uuid_of_def Let_def uuid_str_digits length_hex_digits by simp
qed

section \<open>Service names\<close>

text \<open>\<open>str.title\<close> on the letters of ASCII: a letter after a letter becomes lower case, any other
  letter upper case.\<close>

definition char_upper :: "char \<Rightarrow> bool" where
  "char_upper c = (CHR ''A'' \<le> c \<and> c \<le> CHR ''Z'')"

definition char_lower :: "char \<Rightarrow> bool" where
  "char_lower c = (CHR ''a'' \<le> c \<and> c \<le> CHR ''z'')"

definition to_upper :: "char \<Rightarrow> char" where
  "to_upper c = (if char_lower c then char_of (of_char c - 32 :: nat) else c)"

definition to_lower :: "char \<Rightarrow> char" where
  "to_lower c = (if char_upper c then char_of (of_char c + 32 :: nat) else c)"

fun title_from :: "bool \<Rightarrow> string \<Rightarrow> string" where
  "title_from b [] = []"
| "title_from b (c # cs) =
     (if b then to_lower c else to_upper c) # title_from (char_upper c \<or> char_lower c) cs"

definition title :: "string \<Rightarrow> string" where
  "title s = title_from False s"

section \<open>Messages\<close>

text \<open>The parts of \<open>BrokerMessageV1\<close> the package reads or writes. The identifier the broker gives to
  a message plays no role here.\<close>

record BrokerMessage =
  bm_topic :: string
  bm_content :: "value"
  bm_headers :: "(string, string) dict"
  bm_reply_topic :: "string option"
  bm_status :: int

record SagaRequest =
  rq_target :: string
  rq_content :: "value"

datatype SagaResponseStatus = SUCCESS | ERROR | SYSTEM_ERROR

fun SagaResponseStatus_value :: "SagaResponseStatus \<Rightarrow> int" where
  "SagaResponseStatus_value SUCCESS = 200"
| "SagaResponseStatus_value ERROR = 400"
| "SagaResponseStatus_value SYSTEM_ERROR = 500"

definition SagaResponseStatus_from_raw :: "int \<Rightarrow> saga_error + SagaResponseStatus" where
  "SagaResponseStatus_from_raw n = first_raw SagaResponseStatus_value n [SUCCESS, ERROR, SYSTEM_ERROR]"

record SagaResponse =
  rs_content :: "value"
  rs_related_services :: "string list"
  rs_status :: SagaResponseStatus
  rs_uuid :: uuid

text \<open>A Python set of names is a list without repetitions; \<open>adds\<close> is \<open>set.add\<close>, \<open>unions\<close> is \<open>|=\<close>.\<close>

definition adds :: "'a \<Rightarrow> 'a list \<Rightarrow> 'a list" where
  "adds x xs = (if x \<in> set xs then xs else xs @ [x])"

definition unions :: "'a list \<Rightarrow> 'a list \<Rightarrow> 'a list" where
  "unions xs ys = fold adds ys xs"

lemma set_adds [simp]: "set (adds x xs) = insert x (set xs)"
  by (auto simp: adds_def)

lemma distinct_adds [simp]: "distinct xs \<Longrightarrow> distinct (adds x xs)"
  by (simp add: adds_def)

lemma set_unions [simp]: "set (unions xs ys) = set xs \<union> set ys"
  by (induction ys arbitrary: xs) (auto simp: unions_def)

lemma distinct_unions [simp]: "distinct xs \<Longrightarrow> distinct (unions xs ys)"
  by (induction ys arbitrary: xs) (auto simp: unions_def)

text \<open>\<open>SagaResponse.from_message\<close>. An empty header counts as an absent one.\<close>

definition related_services_of :: "(string, string) dict \<Rightarrow> string list" where
  "related_services_of h = (case dict_get h ''related_services'' of
     None \<Rightarrow> [] | Some s \<Rightarrow> if s = [] then [] else uniq (split_on CHR '','' s))"

definition SagaResponse_from_message :: "BrokerMessage \<Rightarrow> saga_error + SagaResponse" where
  "SagaResponse_from_message m = (case dict_get (bm_headers m) ''saga'' of
     None \<Rightarrow> Inl (Agg KeyError)
   | Some s \<Rightarrow> (case uuid_of s of
       Inl e \<Rightarrow> Inl e
     | Inr u \<Rightarrow> (case SagaResponseStatus_from_raw (bm_status m) of
         Inl e \<Rightarrow> Inl e
       | Inr st \<Rightarrow> Inr \<lparr>rs_content = bm_content m, rs_related_services = related_services_of (bm_headers m),
           rs_status = st, rs_uuid = u\<rparr>)))"

section \<open>Serialized values\<close>

text \<open>What the \<open>raw\<close> properties produce: the values a document database stores.\<close>

datatype raw = RNone | RBool bool | RStr string | RList "raw list" | RDict "(string \<times> raw) list"

text \<open>\<open>d[key]\<close>, \<open>d.get(key, default)\<close>.\<close>

fun raw_item :: "raw \<Rightarrow> string \<Rightarrow> saga_error + raw" where
  "raw_item (RDict d) k = (case dict_get d k of None \<Rightarrow> Inl (Agg KeyError) | Some r \<Rightarrow> Inr r)"
| "raw_item _ k = Inl (Agg TypeError)"

definition raw_get :: "raw \<Rightarrow> string \<Rightarrow> raw \<Rightarrow> raw" where
  "raw_get r k dflt = (case raw_item r k of Inl _ \<Rightarrow> dflt | Inr x \<Rightarrow> x)"

fun raw_str :: "raw \<Rightarrow> saga_error + string" where
  "raw_str (RStr s) = Inr s"
| "raw_str _ = Inl (Agg TypeError)"

fun raw_bool :: "raw \<Rightarrow> saga_error + bool" where
  "raw_bool (RBool b) = Inr b"
| "raw_bool _ = Inl (Agg TypeError)"

fun raw_list :: "raw \<Rightarrow> saga_error + raw list" where
  "raw_list (RList rs) = Inr rs"
| "raw_list _ = Inl (Agg TypeError)"

end
