(* ===== verification/Snapshot_Sql.thy ===== *)
theory Snapshot_Sql
  imports Snapshots Saga_Base
begin

text \<open>
  The query builder of the aiopg plugin
  (\<open>plugins/aiopg/factories/aggregate/snapshots/queries.py\<close>): a condition over entities becomes the
  \<open>WHERE\<close> clause of a statement over the snapshot table, whose column \<open>data\<close> holds the fields of an
  entity as JSON.

  The clauses the builder writes are a datatype; a placeholder and its parameter are put together, so
  a clause carries the value the code stores in the dictionary of parameters. Their meaning is that of
  PostgreSQL: three-valued logic, statements that are refused, and the comparison of \<open>jsonb\<close> values.
  What the database decides by its configuration or its own conversions is the record \<open>postgres\<close>.
\<close>

section \<open>Encoding of parameters and fields\<close>

datatype json = JNull | JBool bool | JInt int | JStr string | JArr "json list" | JObj "(string \<times> json) list"

text \<open>\<open>AvroDataEncoder\<close> on the values of the model, with \<open>IncrementalSet\<close> and \<open>EntitySet\<close> written as lists
  (\<open>encode_data\<close> in \<open>collections.py\<close> and \<open>entities/collections.py\<close>).\<close>

fun encode_value :: "value \<Rightarrow> json" where
  "encode_value VNone = JNull"
| "encode_value (VBool b) = JBool b"
| "encode_value (VInt i) = JInt i"
| "encode_value (VStr s) = JStr s"
| "encode_value (VUuid u) = JStr (uuid_str u)"
| "encode_value (VTime t) = JInt t"
| "encode_value (VList vs) = JArr (map encode_value vs)"

fun encode_item :: "item \<Rightarrow> json" where
  "encode_item (ValueObject v) = encode_value v"
| "encode_item (Entity u fs) = JObj ((''uuid'', JStr (uuid_str u)) # map (\<lambda>(n, v). (n, encode_value v)) fs)"

fun encode_field :: "field_value \<Rightarrow> json" where
  "encode_field (Plain v) = encode_value v"
| "encode_field (ISet _ xs) = JArr (map encode_item xs)"
| "encode_field (ESet _ d) = JArr (map encode_item (dict_values d))"

section \<open>Clauses\<close>

datatype column = Uuid_column | Version_column | Created_at_column | Updated_at_column

datatype operator = LESS | LESS_EQUAL | MORE | MORE_EQUAL | EQUALS | DIFFERS | ONE_OF

datatype sql_clause =
    Sql_true | Sql_false
  | Sql_not sql_clause | Sql_and "sql_clause list" | Sql_or "sql_clause list"
  | Column_compare column operator json
  | Data_compare "string list" operator json
  | Column_like column json
  | Data_like "string list" json

text \<open>\<open>_FIXED_FIELDS_MAPPER\<close>.\<close>

definition fixed_field :: "string \<Rightarrow> column option" where
  "fixed_field f =
     (if f = ''uuid'' then Some Uuid_column else if f = ''version'' then Some Version_column
      else if f = ''created_at'' then Some Created_at_column else if f = ''updated_at'' then Some Updated_at_column
      else None)"

text \<open>The path literal \<open>{a,b}\<close> of a dotted field, as PostgreSQL splits it.\<close>

definition json_path :: "string \<Rightarrow> string list" where
  "json_path f = split_on (CHR '','') (map (\<lambda>c. if c = CHR ''.'' then CHR '','' else c) f)"

text \<open>\<open>_build_condition_simple\<close>: a parameter that is an empty list makes the clause false, whatever the
  operator.\<close>

definition build_simple :: "string \<Rightarrow> operator \<Rightarrow> json \<Rightarrow> sql_clause" where
  "build_simple f o' p =
     (if p = JArr [] then Sql_false
      else case fixed_field f of Some c \<Rightarrow> Column_compare c o' p | None \<Rightarrow> Data_compare (json_path f) o' p)"

definition build_like :: "string \<Rightarrow> json \<Rightarrow> sql_clause" where
  "build_like f p = (case fixed_field f of Some c \<Rightarrow> Column_like c p | None \<Rightarrow> Data_like (json_path f) p)"

fun build_condition :: "Condition \<Rightarrow> sql_clause" where
  "build_condition TRUE = Sql_true"
| "build_condition FALSE = Sql_false"
| "build_condition (NOT c) = Sql_not (build_condition c)"
| "build_condition (AND cs) = Sql_and (map build_condition cs)"
| "build_condition (OR cs) = Sql_or (map build_condition cs)"
| "build_condition (LOWER f v) = build_simple f LESS (encode_value v)"
| "build_condition (LOWER_EQUAL f v) = build_simple f LESS_EQUAL (encode_value v)"
| "build_condition (GREATER f v) = build_simple f MORE (encode_value v)"
| "build_condition (GREATER_EQUAL f v) = build_simple f MORE_EQUAL (encode_value v)"
| "build_condition (EQUAL f v) = build_simple f EQUALS (encode_field v)"
| "build_condition (NOT_EQUAL f v) = build_simple f DIFFERS (encode_field v)"
| "build_condition (IN f vs) = build_simple f ONE_OF (JArr (map encode_field vs))"
| "build_condition (LIKE f p) = build_like f (JStr p)"

section \<open>PostgreSQL\<close>

text \<open>The order of texts (the collation), the text form of values, the reading of text literals for the
  types of the columns, and the value a stored text is as \<open>jsonb\<close>.\<close>

record postgres =
  pg_text_lt :: "string \<Rightarrow> string \<Rightarrow> bool"
  pg_text :: "json \<Rightarrow> string"
  pg_time_text :: "datetime \<Rightarrow> string"
  pg_time_of :: "string \<Rightarrow> datetime option"
  pg_int_of :: "string \<Rightarrow> int option"
  pg_jsonb :: "bytes \<Rightarrow> json"

text \<open>The \<open>jsonb\<close> form: objects have their keys ordered by length and then by bytes, and of repeated keys
  the last is kept.\<close>

fun last_keys :: "(string \<times> json) list \<Rightarrow> (string \<times> json) list" where
  "last_keys [] = []"
| "last_keys ((k, v) # kvs) = (if k \<in> fst ` set kvs then last_keys kvs else (k, v) # last_keys kvs)"

fun jsonb :: "json \<Rightarrow> json" where
  "jsonb (JArr xs) = JArr (map jsonb xs)"
| "jsonb (JObj kvs) = JObj (sort_key (\<lambda>(k, _). (length k, k)) (last_keys (map (\<lambda>(k, v). (k, jsonb v)) kvs)))"
| "jsonb j = j"

text \<open>The order of \<open>jsonb\<close> values: by kind first, arrays and objects by their size first.\<close>

fun json_rank :: "json \<Rightarrow> nat" where
  "json_rank JNull = 0"
| "json_rank (JStr _) = 1"
| "json_rank (JInt _) = 2"
| "json_rank (JBool _) = 3"
| "json_rank (JArr _) = 4"
| "json_rank (JObj _) = 5"

fun json_lt :: "(string \<Rightarrow> string \<Rightarrow> bool) \<Rightarrow> json \<Rightarrow> json \<Rightarrow> bool"
  and jsons_lt :: "(string \<Rightarrow> string \<Rightarrow> bool) \<Rightarrow> json list \<Rightarrow> json list \<Rightarrow> bool"
  and pairs_lt :: "(string \<Rightarrow> string \<Rightarrow> bool) \<Rightarrow> (string \<times> json) list \<Rightarrow> (string \<times> json) list \<Rightarrow> bool" where
  "json_lt lt (JStr s) (JStr t) = lt s t"
| "json_lt lt (JInt i) (JInt j) = (i < j)"
| "json_lt lt (JBool a) (JBool b) = (\<not> a \<and> b)"
| "json_lt lt (JArr xs) (JArr ys) = (length xs < length ys \<or> length xs = length ys \<and> jsons_lt lt xs ys)"
| "json_lt lt (JObj xs) (JObj ys) = (length xs < length ys \<or> length xs = length ys \<and> pairs_lt lt xs ys)"
| "json_lt lt a b = (json_rank a < json_rank b)"
| "jsons_lt lt (x # xs) (y # ys) = (json_lt lt x y \<or> x = y \<and> jsons_lt lt xs ys)"
| "jsons_lt lt _ _ = False"
| "pairs_lt lt ((k, x) # xs) ((l, y) # ys) =
     (lt k l \<or> k = l \<and> (json_lt lt x y \<or> x = y \<and> pairs_lt lt xs ys))"
| "pairs_lt lt _ _ = False"

text \<open>\<open>data #> path\<close>, which is \<open>NULL\<close> when there is no such part; a number selects from an array.\<close>

fun at_path :: "postgres \<Rightarrow> string list \<Rightarrow> json \<Rightarrow> json option" where
  "at_path P [] j = Some j"
| "at_path P (k # ks) (JObj kvs) = (case dict_get kvs k of None \<Rightarrow> None | Some j \<Rightarrow> at_path P ks j)"
| "at_path P (k # ks) (JArr xs) = (case pg_int_of P k of None \<Rightarrow> None | Some i \<Rightarrow>
     (let n = (if i < 0 then int (length xs) + i else i) in
      if 0 \<le> n \<and> n < int (length xs) then at_path P ks (xs ! nat n) else None))"
| "at_path P (k # ks) _ = None"

text \<open>\<open>LIKE\<close>: per cent and underscore, and the backslash that takes the next character as it is.\<close>

fun sql_like :: "string \<Rightarrow> string \<Rightarrow> bool" where
  "sql_like [] s = (s = [])"
| "sql_like (p # ps) s =
     (if p = CHR ''%'' then sql_like ps s \<or> (case s of [] \<Rightarrow> False | c # cs \<Rightarrow> sql_like (p # ps) cs)
      else if p = CHR ''_'' then (case s of [] \<Rightarrow> False | c # cs \<Rightarrow> sql_like ps cs)
      else if p = CHR 0x5C then (case ps of [] \<Rightarrow> False
        | q # qs \<Rightarrow> (case s of [] \<Rightarrow> False | c # cs \<Rightarrow> c = q \<and> sql_like qs cs))
      else (case s of [] \<Rightarrow> False | c # cs \<Rightarrow> c = p \<and> sql_like ps cs))"

section \<open>The meaning of a clause\<close>

text \<open>A value of a column and a parameter compared with it have the type of the column: \<open>uuid\<close>, integer
  or time. The parameter is a literal; a number is no literal of the types \<open>uuid\<close> and time.\<close>

datatype cell = CUuid uuid | CInt int | CTime datetime

fun literal :: "postgres \<Rightarrow> column \<Rightarrow> json \<Rightarrow> cell option option" where
  "literal P c JNull = Some None"
| "literal P Uuid_column (JStr s) = (case uuid_of s of Inl _ \<Rightarrow> None | Inr u \<Rightarrow> Some (Some (CUuid u)))"
| "literal P Version_column (JInt i) = Some (Some (CInt i))"
| "literal P Version_column (JStr s) = map_option (\<lambda>i. Some (CInt i)) (pg_int_of P s)"
| "literal P Created_at_column (JStr s) = map_option (\<lambda>t. Some (CTime t)) (pg_time_of P s)"
| "literal P Updated_at_column (JStr s) = map_option (\<lambda>t. Some (CTime t)) (pg_time_of P s)"
| "literal P _ _ = None"

fun cell_of :: "column \<Rightarrow> SnapshotEntry \<Rightarrow> cell option" where
  "cell_of Uuid_column s = Some (CUuid (se_uuid s))"
| "cell_of Version_column s = map_option CInt (se_version s)"
| "cell_of Created_at_column s = map_option CTime (se_created_at s)"
| "cell_of Updated_at_column s = map_option CTime (se_updated_at s)"

fun cell_lt :: "cell \<Rightarrow> cell \<Rightarrow> bool" where
  "cell_lt (CUuid u) (CUuid v) = (u < v)"
| "cell_lt (CInt i) (CInt j) = (i < j)"
| "cell_lt (CTime s) (CTime t) = (s < t)"
| "cell_lt _ _ = False"

text \<open>Whether PostgreSQL accepts the statement. A conjunction of nothing is written \<open>()\<close>; \<open>IN\<close> needs a
  list in parentheses, which a \<open>jsonb\<close> parameter is not; a list of one value in parentheses is the
  value.\<close>

fun sql_accepts :: "postgres \<Rightarrow> sql_clause \<Rightarrow> bool" where
  "sql_accepts P Sql_true = True"
| "sql_accepts P Sql_false = True"
| "sql_accepts P (Sql_not c) = sql_accepts P c"
| "sql_accepts P (Sql_and cs) = (cs \<noteq> [] \<and> (\<forall>c \<in> set cs. sql_accepts P c))"
| "sql_accepts P (Sql_or cs) = (cs \<noteq> [] \<and> (\<forall>c \<in> set cs. sql_accepts P c))"
| "sql_accepts P (Column_compare c o' p) = (case p of
     JArr ps \<Rightarrow> (o' = ONE_OF \<or> length ps = 1) \<and> (\<forall>q \<in> set ps. literal P c q \<noteq> None)
   | _ \<Rightarrow> o' \<noteq> ONE_OF \<and> literal P c p \<noteq> None)"
| "sql_accepts P (Data_compare f o' p) = (o' \<noteq> ONE_OF)"
| "sql_accepts P (Column_like c p) = (case p of JStr _ \<Rightarrow> True | JNull \<Rightarrow> True | _ \<Rightarrow> False)"
| "sql_accepts P (Data_like f p) = (case p of JStr _ \<Rightarrow> True | JNull \<Rightarrow> True | _ \<Rightarrow> False)"

text \<open>The three-valued connectives, \<open>None\<close> standing for \<open>NULL\<close>.\<close>

definition not3 :: "bool option \<Rightarrow> bool option" where
  "not3 a = map_option Not a"

definition and3 :: "bool option \<Rightarrow> bool option \<Rightarrow> bool option" where
  "and3 a b = (if a = Some False \<or> b = Some False then Some False
     else if a = Some True \<and> b = Some True then Some True else None)"

definition or3 :: "bool option \<Rightarrow> bool option \<Rightarrow> bool option" where
  "or3 a b = not3 (and3 (not3 a) (not3 b))"

fun compare3 :: "('a \<Rightarrow> 'a \<Rightarrow> bool) \<Rightarrow> operator \<Rightarrow> 'a option \<Rightarrow> 'a option \<Rightarrow> bool option" where
  "compare3 lt o' (Some x) (Some y) = Some (case o' of
     LESS \<Rightarrow> lt x y | LESS_EQUAL \<Rightarrow> lt x y \<or> x = y | MORE \<Rightarrow> lt y x | MORE_EQUAL \<Rightarrow> lt y x \<or> x = y
   | EQUALS \<Rightarrow> x = y | DIFFERS \<Rightarrow> x \<noteq> y | ONE_OF \<Rightarrow> x = y)"
| "compare3 lt o' _ _ = None"

definition row_data :: "postgres \<Rightarrow> SnapshotEntry \<Rightarrow> json option" where
  "row_data P s = map_option (pg_jsonb P) (se_data s)"

definition data_at :: "postgres \<Rightarrow> string list \<Rightarrow> SnapshotEntry \<Rightarrow> json option" where
  "data_at P f s = (case row_data P s of None \<Rightarrow> None | Some j \<Rightarrow> at_path P f j)"

definition like3 :: "string option \<Rightarrow> json \<Rightarrow> bool option" where
  "like3 t p = (case (t, p) of (Some s, JStr q) \<Rightarrow> Some (sql_like q s) | _ \<Rightarrow> None)"

definition column_text :: "postgres \<Rightarrow> column \<Rightarrow> SnapshotEntry \<Rightarrow> string option" where
  "column_text P c s = map_option (\<lambda>x. case x of
     CUuid u \<Rightarrow> uuid_str u | CInt i \<Rightarrow> pg_text P (JInt i) | CTime t \<Rightarrow> pg_time_text P t) (cell_of c s)"

definition json_text :: "postgres \<Rightarrow> json option \<Rightarrow> string option" where
  "json_text P j = (case j of None \<Rightarrow> None | Some JNull \<Rightarrow> None | Some (JStr s) \<Rightarrow> Some s | Some x \<Rightarrow> Some (pg_text P x))"

fun sql_eval :: "postgres \<Rightarrow> sql_clause \<Rightarrow> SnapshotEntry \<Rightarrow> bool option" where
  "sql_eval P Sql_true s = Some True"
| "sql_eval P Sql_false s = Some False"
| "sql_eval P (Sql_not c) s = not3 (sql_eval P c s)"
| "sql_eval P (Sql_and cs) s = foldr (\<lambda>c. and3 (sql_eval P c s)) cs (Some True)"
| "sql_eval P (Sql_or cs) s = foldr (\<lambda>c. or3 (sql_eval P c s)) cs (Some False)"
| "sql_eval P (Column_compare c o' p) s = (case p of
     JArr ps \<Rightarrow> foldr (\<lambda>q. or3 (compare3 cell_lt o' (cell_of c s) (the (literal P c q)))) ps (Some False)
   | _ \<Rightarrow> compare3 cell_lt o' (cell_of c s) (the (literal P c p)))"
| "sql_eval P (Data_compare f o' p) s =
     compare3 (json_lt (pg_text_lt P)) o' (data_at P f s) (Some (jsonb p))"
| "sql_eval P (Column_like c p) s = like3 (column_text P c s) p"
| "sql_eval P (Data_like f p) s = like3 (json_text P (data_at P f s)) p"

section \<open>The statement\<close>

text \<open>The innermost row of every entity: \<open>DISTINCT ON (uuid)\<close> over the transactions in order. Rows are
  given in the order of their identifiers, in which \<open>DISTINCT ON\<close> reads them.\<close>

definition innermost :: "string \<Rightarrow> uuid list \<Rightarrow> SnapshotEntry list \<Rightarrow> uuid \<Rightarrow> SnapshotEntry option" where
  "innermost name txs rows u = (case filter (\<lambda>t. \<exists>r \<in> set rows. se_name r = name \<and> se_uuid r = u \<and> se_transaction_uuid r = t) txs of
     [] \<Rightarrow> None
   | ts \<Rightarrow> find (\<lambda>r. se_name r = name \<and> se_uuid r = u \<and> se_transaction_uuid r = last ts) rows)"

definition select_entries :: "string \<Rightarrow> uuid list \<Rightarrow> SnapshotEntry list \<Rightarrow> SnapshotEntry list" where
  "select_entries name txs rows =
     List.map_filter (innermost name txs rows) (sort (uniq (map se_uuid (filter (\<lambda>r. se_name r = name) rows))))"

text \<open>\<open>ORDER BY\<close>: \<open>NULL\<close> is after everything in ascending order and before it in descending order.\<close>

fun null_last :: "('a \<Rightarrow> 'a \<Rightarrow> bool) \<Rightarrow> 'a option \<Rightarrow> 'a option \<Rightarrow> bool" where
  "null_last lt (Some x) (Some y) = lt x y"
| "null_last lt (Some x) None = True"
| "null_last lt None _ = False"

definition order_before :: "postgres \<Rightarrow> Ordering \<Rightarrow> SnapshotEntry \<Rightarrow> SnapshotEntry \<Rightarrow> bool" where
  "order_before P o' s t =
     (let (s, t) = (if ord_reverse o' then (t, s) else (s, t)) in
      case fixed_field (ord_by o') of
        Some c \<Rightarrow> null_last cell_lt (cell_of c s) (cell_of c t)
      | None \<Rightarrow> null_last (json_lt (pg_text_lt P)) (data_at P (json_path (ord_by o')) s) (data_at P (json_path (ord_by o')) t))"

fun insert_row :: "('a \<Rightarrow> 'a \<Rightarrow> bool) \<Rightarrow> 'a \<Rightarrow> 'a list \<Rightarrow> 'a list" where
  "insert_row before x [] = [x]"
| "insert_row before x (y # ys) = (if before y x then y # insert_row before x ys else x # y # ys)"

definition order_rows :: "postgres \<Rightarrow> Ordering \<Rightarrow> SnapshotEntry list \<Rightarrow> SnapshotEntry list" where
  "order_rows P o' rows = foldr (insert_row (order_before P o')) rows []"

text \<open>\<open>build_query\<close> and its execution. A negative limit is refused.\<close>

definition snapshot_query ::
  "postgres \<Rightarrow> string \<Rightarrow> Condition \<Rightarrow> Ordering option \<Rightarrow> int option \<Rightarrow> uuid list \<Rightarrow> bool \<Rightarrow> SnapshotEntry list
   \<Rightarrow> SnapshotEntry list option" where
  "snapshot_query P name cond orderBy limit txs exclude_deleted rows =
     (let c = build_condition cond in
      if \<not> sql_accepts P c \<or> (case limit of None \<Rightarrow> False | Some n \<Rightarrow> n < 0) then None else
      let found = filter (\<lambda>s. sql_eval P c s = Some True \<and> (exclude_deleted \<longrightarrow> row_data P s \<noteq> None)) (select_entries name txs rows);
          found = (case orderBy of None \<Rightarrow> found | Some o' \<Rightarrow> order_rows P o' found)
      in Some (case limit of None \<Rightarrow> found | Some n \<Rightarrow> take (nat n) found))"

end
