(* ===== verification/Snapshot_Database.thy ===== *)
theory Snapshot_Database
  imports Snapshot_Sql
begin

text \<open>
  \<open>DatabaseSnapshotRepository\<close> (\<open>aggregate/snapshots/repositories/database/impl.py\<close>) over the statements
  of the aiopg plugin (\<open>factories/aggregate/snapshots/impl.py\<close>), with the base class
  \<open>SnapshotRepository\<close> and the handlers of \<open>SnapshotService\<close> (\<open>snapshots/services.py\<close>).

  The repository keeps two tables: a row per entity and transaction, and the identifier of the last event
  it has processed. Synchronizing reads the events after that one, and turns each into a row: the
  previous state of the entity with the difference of the event applied. Every query synchronizes first.
\<close>

section \<open>The tables\<close>

record snapshot_db =
  sd_rows :: "SnapshotEntry list"
  sd_offset :: "int option"

type_synonym ('e, 't, 'a) sop = "(snapshot_db \<times> ('e, 't) world, agg_error, 'a) op"

definition on_world :: "('e, 't, 'a) wop \<Rightarrow> ('e, 't, 'a) sop" where
  "on_world m = (\<lambda>(d, w). case m w of (r, w') \<Rightarrow> (r, (d, w')))"

definition same_row :: "SnapshotEntry \<Rightarrow> SnapshotEntry \<Rightarrow> bool" where
  "same_row s r \<longleftrightarrow> se_uuid r = se_uuid s \<and> se_transaction_uuid r = se_transaction_uuid s"

text \<open>\<open>build_submit\<close>: on a conflict of the primary key the name and the creation time stay. The version and
  the times may not be missing.\<close>

definition build_submit_snapshot :: "SnapshotEntry \<Rightarrow> SnapshotEntry list \<Rightarrow> agg_error + SnapshotEntry list" where
  "build_submit_snapshot s rows =
     (if se_version s = None \<or> se_created_at s = None \<or> se_updated_at s = None then Inl IntegrityException
      else Inr (if \<exists>r \<in> set rows. same_row s r
        then map (\<lambda>r. if same_row s r
          then r\<lparr>se_version := se_version s, se_schema := se_schema s, se_data := se_data s, se_updated_at := se_updated_at s\<rparr>
          else r) rows
        else rows @ [s]))"

definition build_delete_transactions :: "uuid list \<Rightarrow> SnapshotEntry list \<Rightarrow> SnapshotEntry list" where
  "build_delete_transactions us rows = filter (\<lambda>r. se_transaction_uuid r \<notin> set us) rows"

definition build_submit_offset :: "int \<Rightarrow> int option \<Rightarrow> int option" where
  "build_submit_offset v old = (case old of None \<Rightarrow> Some v | Some n \<Rightarrow> Some (max v n))"

section \<open>Finding entries\<close>

definition snap_uuids :: "('e, 't) repos \<Rightarrow> TransactionEntry option \<Rightarrow> ('e, 't, uuid list) wop" where
  "snap_uuids R tx = (case tx of None \<Rightarrow> retE [NULL_UUID] | Some t \<Rightarrow> (\<lambda>w. (uuids R (w_txs w) t, w)))"

definition snap_find_entries ::
  "('e, 't) repos \<Rightarrow> postgres \<Rightarrow> string \<Rightarrow> Condition \<Rightarrow> Ordering option \<Rightarrow> int option \<Rightarrow> TransactionEntry option \<Rightarrow> bool
   \<Rightarrow> ('e, 't, SnapshotEntry list) sop" where
  "snap_find_entries R P name cond orderBy limit tx exclude_deleted =
     bindE (on_world (snap_uuids R tx)) (\<lambda>txs.
     bindE (getsE (\<lambda>(d, w). snapshot_query P name cond orderBy limit txs exclude_deleted (sd_rows d))) (\<lambda>r.
     case r of None \<Rightarrow> raiseE ProgrammingException | Some ss \<Rightarrow> retE ss))"

text \<open>\<open>find_entries(..., synchronize=False)\<close> of the base class: without a transaction, the active one.\<close>

definition snap_find_now ::
  "('e, 't) repos \<Rightarrow> postgres \<Rightarrow> string \<Rightarrow> Condition \<Rightarrow> Ordering option \<Rightarrow> int option \<Rightarrow> TransactionEntry option \<Rightarrow> bool
   \<Rightarrow> ('e, 't, SnapshotEntry list) sop" where
  "snap_find_now R P name cond orderBy limit tx exclude_deleted =
     bindE (case tx of Some t \<Rightarrow> retE (Some t) | None \<Rightarrow> on_world (getsE current_entry)) (\<lambda>tx.
       snap_find_entries R P name cond orderBy limit tx exclude_deleted)"

definition snap_get_now ::
  "('e, 't) repos \<Rightarrow> postgres \<Rightarrow> string \<Rightarrow> uuid \<Rightarrow> TransactionEntry option \<Rightarrow> ('e, 't, SnapshotEntry) sop" where
  "snap_get_now R P name u tx =
     bindE (snap_find_now R P name (EQUAL ''uuid'' (Plain (VUuid u))) None None tx False) (\<lambda>ss.
       case ss of [] \<Rightarrow> raiseE NotFoundException | s # _ \<Rightarrow> retE s)"

section \<open>Processing an event\<close>

definition submit_snapshot :: "SnapshotEntry \<Rightarrow> ('e, 't, SnapshotEntry) sop" where
  "submit_snapshot s = (\<lambda>(d, w). case build_submit_snapshot s (sd_rows d) of
     Inl x \<Rightarrow> (Inl x, (d, w))
   | Inr rows \<Rightarrow> (case find (same_row s) rows of
       None \<Rightarrow> (Inr s, (d\<lparr>sd_rows := rows\<rparr>, w))
     | Some r \<Rightarrow> (Inr (s\<lparr>se_created_at := se_created_at r, se_updated_at := se_updated_at r\<rparr>), (d\<lparr>sd_rows := rows\<rparr>, w))))"

text \<open>\<open>_update_instance_if_exists\<close>. A deleted entity raises \<open>AlreadyDeletedException\<close>, which is not
  caught.\<close>

definition update_instance_if_exists ::
  "('e, 't) repos \<Rightarrow> snap_env \<Rightarrow> postgres \<Rightarrow> Event \<Rightarrow> TransactionEntry option \<Rightarrow> ('e, 't, RootEntity) sop" where
  "update_instance_if_exists R E P event tx =
     bindE (catchE
       (bindE (snap_get_now R P (ev_name event) (ev_uuid event) tx) (\<lambda>s.
        bindE (liftE (build_entry (sn_codec E) s)) (\<lambda>e. retE (Some e))))
       (\<lambda>x. if x = NotFoundException then Some (retE None) else None)) (\<lambda>previous.
     case previous of
       None \<Rightarrow> bindE (liftE (sn_class E (ev_name event))) (\<lambda>C. liftE (from_diff C event))
     | Some e \<Rightarrow>
         if re_version e \<ge> ev_version event then raiseE SnapshotRepositoryConflictException
         else bindE (liftE (sn_class E (re_name e))) (\<lambda>C. liftE (apply_diff C event e)))"

text \<open>\<open>_build_instance\<close>: the stored transaction of the event, or none.\<close>

definition snap_build_instance ::
  "('e, 't) repos \<Rightarrow> snap_env \<Rightarrow> postgres \<Rightarrow> EventEntry \<Rightarrow> ('e, 't, RootEntity) sop" where
  "snap_build_instance R E P entry =
     bindE (liftE (entry_event (r_codec R) entry)) (\<lambda>event.
     bindE (catchE
       (bindE (on_world (tx_get R (ee_transaction_uuid entry))) (\<lambda>t. retE (Some t)))
       (\<lambda>x. if x = TransactionNotFoundException then Some (retE None) else None)) (\<lambda>tx.
     update_instance_if_exists R E P event tx))"

definition dispatch_one ::
  "('e, 't) repos \<Rightarrow> snap_env \<Rightarrow> postgres \<Rightarrow> EventEntry \<Rightarrow> ('e, 't, unit) sop" where
  "dispatch_one R E P entry = (case ee_action entry of
     None \<Rightarrow> raiseE AttributeError
   | Some a \<Rightarrow>
       if is_delete a then bindE (submit_snapshot (from_event_entry entry)) (\<lambda>_. retE ())
       else bindE (snap_build_instance R E P entry) (\<lambda>e.
         bindE (submit_snapshot (snapshot_from_root_entity (sn_codec E) e (ee_transaction_uuid entry))) (\<lambda>_. retE ())))"

section \<open>Synchronizing\<close>

definition load_offset :: "('e, 't, int) sop" where
  "load_offset = getsE (\<lambda>(d, w). case sd_offset d of None \<Rightarrow> 0 | Some n \<Rightarrow> n)"

definition store_offset :: "int \<Rightarrow> ('e, 't, unit) sop" where
  "store_offset v = modifyE (\<lambda>(d, w). (d\<lparr>sd_offset := build_submit_offset v (sd_offset d)\<rparr>, w))"

definition clean_transactions :: "('e, 't) repos \<Rightarrow> int \<Rightarrow> ('e, 't, unit) sop" where
  "clean_transactions R offset =
     bindE (on_world (tx_select R (tx_all\<lparr>tq_event_offset_gt := Some offset, tq_status_in := Some [COMMITTED, REJECTED]\<rparr>))) (\<lambda>ts.
     whenE (ts \<noteq> []) (modifyE (\<lambda>(d, w). (d\<lparr>sd_rows := build_delete_transactions (map te_uuid ts) (sd_rows d)\<rparr>, w))))"

text \<open>The loop: a conflict of versions is passed over, any other exception ends the synchronization before
  the offset is stored.\<close>

fun sync_loop :: "('e, 't) repos \<Rightarrow> snap_env \<Rightarrow> postgres \<Rightarrow> EventEntry list \<Rightarrow> int \<Rightarrow> ('e, 't, int) sop" where
  "sync_loop R E P [] offset = retE offset"
| "sync_loop R E P (e # es) offset =
     bindE (catchE (dispatch_one R E P e)
       (\<lambda>x. if x = SnapshotRepositoryConflictException then Some (retE ()) else None)) (\<lambda>_.
     bindE (case ee_id e of None \<Rightarrow> raiseE TypeError | Some i \<Rightarrow> retE (max i offset)) (\<lambda>offset.
     sync_loop R E P es offset))"

definition synchronize :: "('e, 't) repos \<Rightarrow> snap_env \<Rightarrow> postgres \<Rightarrow> ('e, 't, unit) sop" where
  "synchronize R E P =
     bindE load_offset (\<lambda>initial.
     bindE (on_world (ev_select R (ev_all\<lparr>eq_id_gt := Some initial\<rparr>))) (\<lambda>es.
     bindE (sync_loop R E P es initial) (\<lambda>offset.
     bindE (whenE (initial < offset) (clean_transactions R initial)) (\<lambda>_.
     store_offset offset))))"

definition is_synced :: "('e, 't) repos \<Rightarrow> string \<Rightarrow> ('e, 't, bool) sop" where
  "is_synced R name =
     bindE load_offset (\<lambda>offset.
     bindE (on_world (ev_select R (ev_all\<lparr>eq_id_gt := Some offset, eq_name := Some name\<rparr>))) (\<lambda>es. retE (es = [])))"

section \<open>Queries of the repository\<close>

definition snap_find ::
  "('e, 't) repos \<Rightarrow> snap_env \<Rightarrow> postgres \<Rightarrow> string \<Rightarrow> Condition \<Rightarrow> Ordering option \<Rightarrow> int option \<Rightarrow> TransactionEntry option
   \<Rightarrow> ('e, 't, RootEntity list) sop" where
  "snap_find R E P name cond orderBy limit tx =
     bindE (case tx of Some t \<Rightarrow> retE (Some t) | None \<Rightarrow> on_world (getsE current_entry)) (\<lambda>tx.
     bindE (synchronize R E P) (\<lambda>_.
     bindE (snap_find_entries R P name cond orderBy limit tx True) (\<lambda>ss.
     liftE (build_all (sn_codec E) ss))))"

definition snap_get ::
  "('e, 't) repos \<Rightarrow> snap_env \<Rightarrow> postgres \<Rightarrow> string \<Rightarrow> uuid \<Rightarrow> TransactionEntry option \<Rightarrow> ('e, 't, RootEntity) sop" where
  "snap_get R E P name u tx =
     bindE (case tx of Some t \<Rightarrow> retE (Some t) | None \<Rightarrow> on_world (getsE current_entry)) (\<lambda>tx.
     bindE (synchronize R E P) (\<lambda>_.
     bindE (snap_find_entries R P name (EQUAL ''uuid'' (Plain (VUuid u))) None None tx False) (\<lambda>ss.
     case ss of [] \<Rightarrow> raiseE NotFoundException | s # _ \<Rightarrow> liftE (build_entry (sn_codec E) s))))"

section \<open>SnapshotService\<close>

text \<open>\<open>__get_many__\<close> for a request whose content was read (\<open>None\<close> when reading it failed).\<close>

fun get_each ::
  "('e, 't) repos \<Rightarrow> snap_env \<Rightarrow> postgres \<Rightarrow> string \<Rightarrow> uuid list \<Rightarrow> ('e, 't, RootEntity list) sop" where
  "get_each R E P name [] = retE []"
| "get_each R E P name (u # us) =
     bindE (snap_get R E P name u None) (\<lambda>e. bindE (get_each R E P name us) (\<lambda>es. retE (e # es)))"

definition service_get_many ::
  "('e, 't) repos \<Rightarrow> snap_env \<Rightarrow> postgres \<Rightarrow> string \<Rightarrow> uuid list option \<Rightarrow> ('e, 't, RootEntity list) sop" where
  "service_get_many R E P name content = (case content of
     None \<Rightarrow> raiseE ResponseException
   | Some us \<Rightarrow> catchE (get_each R E P name us) (\<lambda>_. Some (raiseE ResponseException)))"

definition service_synchronize :: "('e, 't) repos \<Rightarrow> snap_env \<Rightarrow> postgres \<Rightarrow> ('e, 't, unit) sop" where
  "service_synchronize R E P = synchronize R E P"

end
