(* ===== verification/Sql_Properties.thy ===== *)
theory Sql_Properties
  imports Snapshot_Sql
begin

text \<open>
  The clause built from a condition means what the condition means: PostgreSQL selects the row of an
  entity exactly when \<open>Condition.evaluate\<close> is true of the entity, for the conditions named by
  \<open>supported\<close>. Outside of them the two readings differ, and the differences are stated here as well.
\<close>

section \<open>The row of an entity\<close>

definition field_json :: "(string, field) dict \<Rightarrow> json" where
  "field_json fs = JObj (map (\<lambda>(n, f). (n, encode_field (f_value f))) fs)"

definition represents :: "postgres \<Rightarrow> RootEntity \<Rightarrow> SnapshotEntry \<Rightarrow> bool" where
  "represents P e s \<longleftrightarrow> se_uuid s = re_uuid e \<and> se_version s = Some (re_version e)
     \<and> row_data P s = Some (jsonb (field_json (re_fields e))) \<and> distinct (dict_keys (re_fields e))"

lemma last_keys_distinct: "distinct (dict_keys kvs) \<Longrightarrow> last_keys kvs = kvs"
  by (induction kvs rule: last_keys.induct) auto

lemma map_of_sort_key: "distinct (dict_keys kvs) \<Longrightarrow> map_of (sort_key g kvs) = map_of kvs"
  by (rule map_of_inject_set [THEN iffD2]) (simp_all add: distinct_map)

lemma at_field:
  assumes "distinct (dict_keys kvs)"
  shows "at_path P [n] (jsonb (JObj kvs)) = map_option jsonb (map_of kvs n)"
proof -
  let ?kvs = "map (\<lambda>(k, v). (k, jsonb v)) kvs"
  have "dict_keys ?kvs = dict_keys kvs" by (simp add: case_prod_beta comp_def)
  then have keys: "distinct (dict_keys ?kvs)" using assms by metis
  then have "jsonb (JObj kvs) = JObj (sort_key (\<lambda>(k, _). (length k, k)) ?kvs)"
    by (simp only: jsonb.simps last_keys_distinct)
  moreover have "map_of (sort_key (\<lambda>(k, _). (length k, k)) ?kvs) = map_of ?kvs"
    using map_of_sort_key [OF keys] .
  moreover have "map_of ?kvs n = map_option jsonb (map_of kvs n)" by (simp add: map_of_map)
  ultimately show ?thesis by (simp split: option.splits)
qed

section \<open>Values\<close>

fun kind :: "value \<Rightarrow> nat" where
  "kind VNone = 0"
| "kind (VBool _) = 1"
| "kind (VInt _) = 2"
| "kind (VStr _) = 3"
| "kind (VUuid _) = 4"
| "kind (VTime _) = 5"
| "kind (VList _) = 6"

fun value_ok :: "value \<Rightarrow> bool" where
  "value_ok (VUuid u) = (u < 2 ^ 128)"
| "value_ok (VList _) = False"
| "value_ok _ = True"

lemma uuid_str_inject: "u < 2 ^ 128 \<Longrightarrow> v < 2 ^ 128 \<Longrightarrow> uuid_str u = uuid_str v \<longleftrightarrow> u = v"
  by (metis uuid_of_str sum.inject(2))

lemma encode_scalar: "value_ok v \<Longrightarrow> jsonb (encode_value v) = encode_value v \<and> encode_value v \<noteq> JArr []"
  by (cases v) auto

lemma encode_eq:
  "value_ok v \<Longrightarrow> value_ok w \<Longrightarrow> kind v = kind w \<or> kind v = 0 \<or> kind w = 0 \<Longrightarrow>
   encode_value v = encode_value w \<longleftrightarrow> value_eq v w"
  by (cases v; cases w) (auto simp: uuid_str_inject)

lemma encode_less:
  "kind v = kind w \<Longrightarrow> kind v \<in> {1, 2, 3, 5} \<Longrightarrow>
   value_lt v w = Inr (json_lt string_lt (encode_value v) (encode_value w))"
  by (cases v; cases w) auto

section \<open>Patterns\<close>

lemma like_agrees:
  assumes "CHR ''.'' \<notin> set p" "CHR 0x5C \<notin> set p" "newline \<notin> set s"
  shows "sql_like p s = like_match (map like_token p) s"
  using assms
proof (induction p s rule: sql_like.induct)
  case (2 p ps s)
  then show ?case
    by (cases s) (auto simp: like_token_def)
qed simp

section \<open>Supported conditions\<close>

text \<open>The field is one of the entity, not a time of the snapshot, and holds a plain value.\<close>

definition reads_field :: "RootEntity \<Rightarrow> string \<Rightarrow> value \<Rightarrow> bool" where
  "reads_field e f x \<longleftrightarrow> CHR ''.'' \<notin> set f \<and> CHR '','' \<notin> set f \<and> f \<noteq> ''created_at'' \<and> f \<noteq> ''updated_at''
     \<and> get_attr e f = Inr (Plain x) \<and> value_ok x"

definition is_column :: "string \<Rightarrow> bool" where
  "is_column f \<longleftrightarrow> f = ''uuid'' \<or> f = ''version''"

definition ordered_with :: "RootEntity \<Rightarrow> string \<Rightarrow> value \<Rightarrow> bool" where
  "ordered_with e f v \<longleftrightarrow> (\<exists>x. reads_field e f x \<and> value_ok v \<and> kind v = kind x \<and> (is_column f \<or> kind x \<in> {1, 2, 3, 5}))"

fun comparable_with :: "RootEntity \<Rightarrow> string \<Rightarrow> field_value \<Rightarrow> bool" where
  "comparable_with e f (Plain v) =
     (\<exists>x. reads_field e f x \<and> value_ok v \<and> (kind v = kind x \<or> \<not> is_column f \<and> (kind x = 0 \<or> kind v = 0)))"
| "comparable_with e f _ = False"

fun supported :: "RootEntity \<Rightarrow> Condition \<Rightarrow> bool" where
  "supported e TRUE = True"
| "supported e FALSE = True"
| "supported e (AND cs) = (cs \<noteq> [] \<and> (\<forall>c \<in> set cs. supported e c))"
| "supported e (OR cs) = (cs \<noteq> [] \<and> (\<forall>c \<in> set cs. supported e c))"
| "supported e (NOT c) = supported e c"
| "supported e (LOWER f v) = ordered_with e f v"
| "supported e (LOWER_EQUAL f v) = ordered_with e f v"
| "supported e (GREATER f v) = ordered_with e f v"
| "supported e (GREATER_EQUAL f v) = ordered_with e f v"
| "supported e (EQUAL f v) = comparable_with e f v"
| "supported e (NOT_EQUAL f v) = comparable_with e f v"
| "supported e (IN f vs) = (is_column f \<and> (\<forall>v \<in> set vs. comparable_with e f v))"
| "supported e (LIKE f p) = (\<not> is_column f \<and> CHR ''.'' \<notin> set p \<and> CHR 0x5C \<notin> set p
     \<and> (\<exists>s. reads_field e f (VStr s) \<and> newline \<notin> set s))"

lemma reads_attrgetter: "reads_field e f x \<Longrightarrow> attrgetter (get_attr e) f = Inr (Plain x)"
  by (simp add: attrgetter_def reads_field_def split_on_no_sep)

lemma reads_with_field: "reads_field e f x \<Longrightarrow> with_field (get_attr e) f k = k (Plain x)"
  by (simp add: with_field_def reads_attrgetter)

lemma reads_path: "reads_field e f x \<Longrightarrow> json_path f = [f]"
proof -
  assume "reads_field e f x"
  then have f: "CHR ''.'' \<notin> set f" "CHR '','' \<notin> set f" by (simp_all add: reads_field_def)
  then have "map (\<lambda>c. if c = CHR ''.'' then CHR '','' else c) f = f" by (intro map_idI) auto
  with f show ?thesis by (simp add: json_path_def split_on_no_sep)
qed

lemma reads_data:
  assumes "represents P e s" "reads_field e f x" "\<not> is_column f"
  shows "data_at P (json_path f) s = Some (encode_value x)"
proof -
  have "f \<notin> set special_names" using assms(2,3) by (auto simp: reads_field_def is_column_def special_names_def)
  then have "map_of (re_fields e) f \<noteq> None" "\<exists>g. map_of (re_fields e) f = Some g \<and> f_value g = Plain x"
    using assms(2) by (auto simp: reads_field_def get_attr_def all_fields_def special_names_def split: option.splits)
  then obtain g where g: "map_of (re_fields e) f = Some g" "f_value g = Plain x" by blast
  let ?kvs = "map (\<lambda>(n, f). (n, encode_field (f_value f))) (re_fields e)"
  have "distinct (dict_keys ?kvs)" using assms(1) by (simp add: represents_def case_prod_beta comp_def)
  from at_field [OF this, of P f] g have "at_path P [f] (jsonb (JObj ?kvs)) = Some (jsonb (encode_value x))"
    by (simp add: map_of_map)
  with assms(1,2) encode_scalar [of x] show ?thesis
    by (simp add: data_at_def represents_def field_json_def reads_path [OF assms(2)] reads_field_def)
qed

lemma data_not_fixed: "reads_field e f x \<Longrightarrow> \<not> is_column f \<Longrightarrow> fixed_field f = None"
  by (simp add: fixed_field_def is_column_def reads_field_def)

text \<open>The value of a column and its literal.\<close>

fun cell :: "value \<Rightarrow> cell" where
  "cell (VUuid u) = CUuid u"
| "cell (VInt i) = CInt i"
| "cell _ = CTime 0"

lemma reads_column:
  assumes "represents P e s" "reads_field e f x" "is_column f"
  obtains c where "fixed_field f = Some c" "cell_of c s = Some (cell x)" "kind x \<in> {2, 4}"
    "\<forall>v. value_ok v \<longrightarrow> kind v = kind x \<longrightarrow> literal P c (encode_value v) = Some (Some (cell v))"
proof (cases "f = ''uuid''")
  case True
  with assms(2) have x: "x = VUuid (re_uuid e)" by (simp add: reads_field_def get_attr_def all_fields_def)
  show thesis
  proof (rule that [of Uuid_column])
    have "literal P Uuid_column (encode_value v) = Some (Some (cell v))" if "value_ok v" "kind v = kind x" for v
      using that x by (cases v) (auto simp: uuid_of_str)
    then show "\<forall>v. value_ok v \<longrightarrow> kind v = kind x \<longrightarrow> literal P Uuid_column (encode_value v) = Some (Some (cell v))" by blast
  qed (use True x assms(1) in \<open>simp_all add: fixed_field_def represents_def\<close>)
next
  case False
  with assms(3) have f: "f = ''version''" by (simp add: is_column_def)
  with assms(2) have x: "x = VInt (re_version e)" by (simp add: reads_field_def get_attr_def all_fields_def)
  show thesis
  proof (rule that [of Version_column])
    have "literal P Version_column (encode_value v) = Some (Some (cell v))" if "value_ok v" "kind v = kind x" for v
      using that x by (cases v) auto
    then show "\<forall>v. value_ok v \<longrightarrow> kind v = kind x \<longrightarrow> literal P Version_column (encode_value v) = Some (Some (cell v))" by blast
  qed (use f x assms(1) in \<open>simp_all add: fixed_field_def represents_def\<close>)
qed

lemma cell_compare:
  "kind v = kind x \<Longrightarrow> kind x \<in> {2, 4} \<Longrightarrow> value_lt x v = Inr (cell_lt (cell x) (cell v)) \<and> (value_eq x v \<longleftrightarrow> cell x = cell v)"
  by (cases v; cases x) auto

section \<open>Agreement\<close>

text \<open>A comparison of a field with a value of its kind: accepted, and the comparison of the values.\<close>

definition op_value :: "operator \<Rightarrow> value \<Rightarrow> value \<Rightarrow> agg_error + bool" where
  "op_value o' x v = (case o' of
     LESS \<Rightarrow> value_lt x v | LESS_EQUAL \<Rightarrow> value_le x v | MORE \<Rightarrow> value_lt v x | MORE_EQUAL \<Rightarrow> value_le v x
   | EQUALS \<Rightarrow> Inr (value_eq x v) | DIFFERS \<Rightarrow> Inr (\<not> value_eq x v) | ONE_OF \<Rightarrow> Inr (value_eq x v))"

lemma value_eq_sym: "value_eq a b \<longleftrightarrow> value_eq b a" if "value_ok a"
  using that by (cases a; cases b) auto

lemma op_value_less:
  assumes "value_lt x v = Inr b" "value_lt v x = Inr b'" "value_ok x" "o' \<noteq> ONE_OF"
  shows "op_value o' x v = Inr (case o' of LESS \<Rightarrow> b | LESS_EQUAL \<Rightarrow> b \<or> value_eq x v | MORE \<Rightarrow> b'
     | MORE_EQUAL \<Rightarrow> b' \<or> value_eq x v | EQUALS \<Rightarrow> value_eq x v | DIFFERS \<Rightarrow> \<not> value_eq x v | ONE_OF \<Rightarrow> False)"
  using assms value_eq_sym [OF assms(3), of v] by (cases o') (auto simp: op_value_def value_le_def)

lemma column_agrees:
  assumes "represents P e s" "reads_field e f x" "is_column f" "value_ok v" "kind v = kind x" "o' \<noteq> ONE_OF"
  shows "sql_accepts P (build_simple f o' (encode_value v))
    \<and> (\<exists>b. op_value o' x v = Inr b \<and> sql_eval P (build_simple f o' (encode_value v)) s = Some b)"
proof -
  obtain c where c: "fixed_field f = Some c" "cell_of c s = Some (cell x)" "kind x \<in> {2, 4}"
    "\<forall>v. value_ok v \<longrightarrow> kind v = kind x \<longrightarrow> literal P c (encode_value v) = Some (Some (cell v))"
    by (rule reads_column [OF assms(1-3)])
  then have lit: "literal P c (encode_value v) = Some (Some (cell v))" using assms(4,5) by blast
  have "kind v \<in> {2, 4}" using c(3) assms(5) by simp
  then have shape: "(\<exists>i. encode_value v = JInt i) \<or> (\<exists>t. encode_value v = JStr t)" by (cases v) auto
  then have b: "build_simple f o' (encode_value v) = Column_compare c o' (encode_value v)" using c(1) by (auto simp: build_simple_def)
  have "sql_eval P (Column_compare c o' (encode_value v)) s = compare3 cell_lt o' (Some (cell x)) (Some (cell v))"
    using shape lit c(2) by auto
  moreover have "sql_accepts P (Column_compare c o' (encode_value v))"
    using shape lit assms(6) by auto
  moreover have x: "value_ok x" using assms(2) by (simp add: reads_field_def)
  have less: "value_lt x v = Inr (cell_lt (cell x) (cell v))" "value_lt v x = Inr (cell_lt (cell v) (cell x))"
    and eq: "value_eq x v \<longleftrightarrow> cell x = cell v"
    using cell_compare [OF assms(5) c(3)] cell_compare [of x v, OF assms(5) [symmetric] \<open>kind v \<in> {2, 4}\<close>] by blast+
  have "op_value o' x v = Inr (the (compare3 cell_lt o' (Some (cell x)) (Some (cell v))))"
    unfolding op_value_less [OF less x assms(6)] eq using assms(6) by (cases o') simp_all
  ultimately show ?thesis unfolding b by simp
qed

lemma data_agrees:
  assumes "represents P e s" "reads_field e f x" "\<not> is_column f" "value_ok v" "pg_text_lt P = string_lt"
    "kind v = kind x \<and> kind x \<in> {1, 2, 3, 5} \<or> o' \<in> {EQUALS, DIFFERS} \<and> (kind v = kind x \<or> kind v = 0 \<or> kind x = 0)"
    "o' \<noteq> ONE_OF"
  shows "sql_accepts P (build_simple f o' (encode_value v))
    \<and> (\<exists>b. op_value o' x v = Inr b \<and> sql_eval P (build_simple f o' (encode_value v)) s = Some b)"
proof -
  have x: "value_ok x" using assms(2) by (simp add: reads_field_def)
  note scalar = encode_scalar [OF assms(4)]
  have b: "build_simple f o' (encode_value v) = Data_compare (json_path f) o' (encode_value v)"
    using scalar data_not_fixed [OF assms(2,3)] by (simp add: build_simple_def)
  let ?c = "compare3 (json_lt string_lt) o' (Some (encode_value x)) (Some (encode_value v))"
  have "sql_eval P (Data_compare (json_path f) o' (encode_value v)) s = ?c"
    using scalar assms(5) by (simp add: reads_data [OF assms(1-3)])
  moreover have eq: "encode_value x = encode_value v \<longleftrightarrow> value_eq x v"
    using encode_eq [OF x assms(4)] assms(6) by metis
  have "op_value o' x v = Inr (the ?c)"
  proof (cases "o' \<in> {EQUALS, DIFFERS}")
    case True
    with eq show ?thesis by (auto simp: op_value_def)
  next
    case False
    with assms(6) have k: "kind v = kind x" "kind x \<in> {1, 2, 3, 5}" by auto
    have "op_value o' x v = Inr (case o' of LESS \<Rightarrow> json_lt string_lt (encode_value x) (encode_value v)
        | LESS_EQUAL \<Rightarrow> json_lt string_lt (encode_value x) (encode_value v) \<or> value_eq x v
        | MORE \<Rightarrow> json_lt string_lt (encode_value v) (encode_value x)
        | MORE_EQUAL \<Rightarrow> json_lt string_lt (encode_value v) (encode_value x) \<or> value_eq x v
        | EQUALS \<Rightarrow> value_eq x v | DIFFERS \<Rightarrow> \<not> value_eq x v | ONE_OF \<Rightarrow> False)"
      by (rule op_value_less [OF encode_less encode_less x assms(7)]) (use k in auto)
    with eq False assms(7) show ?thesis by (cases o') auto
  qed
  moreover have "?c = Some (the ?c)" by simp
  ultimately show ?thesis unfolding b using assms(7) by simp
qed

lemma simple_agrees:
  assumes "represents P e s" "pg_text_lt P = string_lt" "o' \<noteq> ONE_OF"
    "reads_field e f x" "value_ok v"
    "kind v = kind x \<and> (is_column f \<or> kind x \<in> {1, 2, 3, 5})
      \<or> o' \<in> {EQUALS, DIFFERS} \<and> (kind v = kind x \<or> \<not> is_column f \<and> (kind x = 0 \<or> kind v = 0))"
  shows "sql_accepts P (build_simple f o' (encode_value v))
    \<and> (\<exists>b. op_value o' x v = Inr b \<and> sql_eval P (build_simple f o' (encode_value v)) s = Some b)"
proof (cases "is_column f")
  case True
  with assms show ?thesis by (intro column_agrees) auto
next
  case False
  with assms show ?thesis by (intro data_agrees) auto
qed

lemma ordered_agrees:
  assumes "represents P e s" "pg_text_lt P = string_lt" "ordered_with e f v" "o' \<in> {LESS, LESS_EQUAL, MORE, MORE_EQUAL}"
  shows "sql_accepts P (build_simple f o' (encode_value v))
    \<and> (\<exists>b. with_field (get_attr e) f (\<lambda>a. compare (op_value o') a v) = Inr b
         \<and> sql_eval P (build_simple f o' (encode_value v)) s = Some b)"
proof -
  obtain x where x: "reads_field e f x" "value_ok v" "kind v = kind x" "is_column f \<or> kind x \<in> {1, 2, 3, 5}"
    using assms(3) by (auto simp: ordered_with_def)
  have "with_field (get_attr e) f (\<lambda>a. compare (op_value o') a v) = op_value o' x v"
    by (simp add: reads_with_field [OF x(1)] compare_def)
  with simple_agrees [OF assms(1,2) _ x(1,2), of o'] x(3,4) assms(4) show ?thesis by auto
qed

lemma equal_agrees:
  assumes "represents P e s" "pg_text_lt P = string_lt" "comparable_with e f v" "o' \<in> {EQUALS, DIFFERS}"
  shows "sql_accepts P (build_simple f o' (encode_field v))
    \<and> (\<exists>b. with_field (get_attr e) f (\<lambda>a. Inr (attr_eq a v)) = Inr b
         \<and> sql_eval P (build_simple f o' (encode_field v)) s = Some (if o' = EQUALS then b else \<not> b))"
proof -
  obtain w where w: "v = Plain w" using assms(3) by (cases v) auto
  then obtain x where x: "reads_field e f x" "value_ok w" "kind w = kind x \<or> \<not> is_column f \<and> (kind x = 0 \<or> kind w = 0)"
    using assms(3) by auto
  from simple_agrees [OF assms(1,2) _ x(1,2), of o'] x(3) assms(4) show ?thesis
    unfolding w by (auto simp: reads_with_field [OF x(1)] op_value_def)
qed

lemma connectives_two [simp]:
  "not3 (Some a) = Some (\<not> a)" "and3 (Some a) (Some b) = Some (a \<and> b)" "or3 (Some a) (Some b) = Some (a \<or> b)"
  by (cases a; cases b; simp add: not3_def and3_def or3_def)+

lemma in_agrees:
  assumes "represents P e s" "is_column f" "\<forall>v \<in> set vs. comparable_with e f v"
  shows "sql_accepts P (build_simple f ONE_OF (JArr (map encode_field vs)))
    \<and> (\<exists>b. with_field (get_attr e) f (\<lambda>a. Inr (\<exists>v \<in> set vs. attr_eq a v)) = Inr b
         \<and> sql_eval P (build_simple f ONE_OF (JArr (map encode_field vs))) s = Some b)"
proof -
  have "\<exists>x. get_attr e f = Inr (Plain x)" "CHR ''.'' \<notin> set f"
    using assms(2) by (auto simp: is_column_def get_attr_def all_fields_def)
  then obtain x where g: "with_field (get_attr e) f k = k (Plain x)" "get_attr e f = Inr (Plain x)" for k
    by (auto simp: with_field_def attrgetter_def split_on_no_sep)
  show ?thesis
  proof (cases "vs = []")
    case True
    then show ?thesis by (simp add: g(1) build_simple_def) blast
  next
    case False
    have plain: "\<exists>w. v = Plain w \<and> value_ok w \<and> kind w = kind x \<and> reads_field e f x" if v: "v \<in> set vs" for v
    proof -
      have "comparable_with e f v" using v assms(3) by blast
      then show ?thesis
        using assms(2) g(2) by (cases "(e, f, v)" rule: comparable_with.cases) (auto simp: reads_field_def)
    qed
    then have "reads_field e f x" using False by (meson hd_in_set)
    from reads_column [OF assms(1) this assms(2)] obtain c where c: "fixed_field f = Some c"
      "cell_of c s = Some (cell x)" "kind x \<in> {2, 4}"
      "\<forall>v. value_ok v \<longrightarrow> kind v = kind x \<longrightarrow> literal P c (encode_value v) = Some (Some (cell v))" by metis
    have lit: "\<exists>w. v = Plain w \<and> literal P c (encode_field v) = Some (Some (cell w)) \<and> (value_eq x w \<longleftrightarrow> cell x = cell w)"
      if "v \<in> set vs" for v
      using plain [OF that] c(3,4) cell_compare by fastforce
    have b: "build_simple f ONE_OF (JArr (map encode_field vs)) = Column_compare c ONE_OF (JArr (map encode_field vs))"
      using False c(1) by (simp add: build_simple_def)
    have "sql_accepts P (Column_compare c ONE_OF (JArr (map encode_field vs)))" using lit by fastforce
    moreover have "foldr (\<lambda>q. or3 (compare3 cell_lt ONE_OF (Some (cell x)) (the (literal P c q)))) (map encode_field us) (Some False)
        = Some (\<exists>v \<in> set us. attr_eq (Plain x) v)" if "set us \<subseteq> set vs" for us
      using that
    proof (induction us)
      case (Cons v us)
      then obtain w where w: "v = Plain w" "literal P c (encode_field v) = Some (Some (cell w))" "value_eq x w \<longleftrightarrow> cell x = cell w"
        using lit [of v] by auto
      with Cons show ?case by auto
    qed simp
    from this [of vs] have "sql_eval P (Column_compare c ONE_OF (JArr (map encode_field vs))) s = Some (\<exists>v \<in> set vs. attr_eq (Plain x) v)"
      by (simp add: c(2))
    ultimately show ?thesis unfolding b by (simp add: g(1))
  qed
qed

lemma like_clause_agrees:
  assumes "represents P e s" "supported e (LIKE f p)"
  shows "sql_accepts P (build_like f (JStr p))
    \<and> (\<exists>b. evaluate (LIKE f p) (get_attr e) = Inr b \<and> sql_eval P (build_like f (JStr p)) s = Some b)"
proof -
  obtain t where t: "reads_field e f (VStr t)" "newline \<notin> set t" and f: "\<not> is_column f" "CHR ''.'' \<notin> set p" "CHR 0x5C \<notin> set p"
    using assms(2) by auto
  have "build_like f (JStr p) = Data_like (json_path f) (JStr p)" using data_not_fixed [OF t(1) f(1)] by (simp add: build_like_def)
  then show ?thesis
    using reads_data [OF assms(1) t(1) f(1)] like_agrees [OF f(2,3) t(2)]
    by (simp add: reads_with_field [OF t(1)] like3_def json_text_def)
qed

lemma op_value_names [simp]:
  "op_value LESS = value_lt" "op_value LESS_EQUAL = value_le" "op_value MORE = (\<lambda>x v. value_lt v x)"
  "op_value MORE_EQUAL = (\<lambda>x v. value_le v x)"
  by (simp_all add: fun_eq_iff op_value_def)

lemma condition_agrees:
  assumes "represents P e s" "pg_text_lt P = string_lt" "supported e c"
  shows "sql_accepts P (build_condition c)
    \<and> (\<exists>b. evaluate c (get_attr e) = Inr b \<and> sql_eval P (build_condition c) s = Some b)"
  using assms(3)
proof (induction c)
  case (AND cs)
  have "\<exists>b. evaluate_all ds (get_attr e) = Inr b
      \<and> foldr (\<lambda>c. and3 (sql_eval P c s)) (map build_condition ds) (Some True) = Some b" if "set ds \<subseteq> set cs" for ds
    using that
  proof (induction ds)
    case (Cons d ds)
    obtain b where "evaluate d (get_attr e) = Inr b" "sql_eval P (build_condition d) s = Some b"
      using AND.IH [of d] AND.prems Cons.prems by auto
    moreover obtain b' where "evaluate_all ds (get_attr e) = Inr b'"
      "foldr (\<lambda>c. and3 (sql_eval P c s)) (map build_condition ds) (Some True) = Some b'"
      using Cons by auto
    ultimately show ?case by (cases b) auto
  qed auto
  from this [of cs] AND show ?case by auto
next
  case (OR cs)
  have "\<exists>b. evaluate_any ds (get_attr e) = Inr b
      \<and> foldr (\<lambda>c. or3 (sql_eval P c s)) (map build_condition ds) (Some False) = Some b" if "set ds \<subseteq> set cs" for ds
    using that
  proof (induction ds)
    case (Cons d ds)
    obtain b where "evaluate d (get_attr e) = Inr b" "sql_eval P (build_condition d) s = Some b"
      using OR.IH [of d] OR.prems Cons.prems by auto
    moreover obtain b' where "evaluate_any ds (get_attr e) = Inr b'"
      "foldr (\<lambda>c. or3 (sql_eval P c s)) (map build_condition ds) (Some False) = Some b'"
      using Cons by auto
    ultimately show ?case by (cases b) auto
  qed auto
  from this [of cs] OR show ?case by auto
next
  case (NOT c)
  then show ?case by (auto simp: not3_def)
next
  case (LOWER f v)
  then show ?case using ordered_agrees [OF assms(1,2), of f v LESS] by simp
next
  case (LOWER_EQUAL f v)
  then show ?case using ordered_agrees [OF assms(1,2), of f v LESS_EQUAL] by simp
next
  case (GREATER f v)
  then show ?case using ordered_agrees [OF assms(1,2), of f v MORE] by simp
next
  case (GREATER_EQUAL f v)
  then show ?case using ordered_agrees [OF assms(1,2), of f v MORE_EQUAL] by simp
next
  case (EQUAL f v)
  then show ?case using equal_agrees [OF assms(1,2), of f v EQUALS] by simp
next
  case (NOT_EQUAL f v)
  then show ?case using equal_agrees [OF assms(1,2), of f v DIFFERS] by (auto simp: with_field_def split: sum.splits)
next
  case (IN f vs)
  then show ?case using in_agrees [OF assms(1), of f vs] by simp
next
  case (LIKE f p)
  then show ?case using like_clause_agrees [OF assms(1)] by (simp only: build_condition.simps)
qed (simp, blast)+


definition demo_root :: RootEntity where
  "demo_root = \<lparr>re_uuid = 7, re_version = 2, re_created_at = 10, re_updated_at = 20, re_name = ''app.Car'',
     re_fields = [(''color'', \<lparr>f_type = ''str'', f_value = Plain (VStr ''red'')\<rparr>),
       (''tags'', \<lparr>f_type = ''set'', f_value = ISet ''str'' []\<rparr>), (''age'', \<lparr>f_type = ''int'', f_value = Plain (VInt 4)\<rparr>)]\<rparr>"

definition demo_postgres :: postgres where
  "demo_postgres = \<lparr>pg_text_lt = string_lt, pg_text = (\<lambda>_. []), pg_time_text = (\<lambda>_. []), pg_time_of = (\<lambda>_. None),
     pg_int_of = (\<lambda>_. None), pg_jsonb = (\<lambda>_. jsonb (field_json (re_fields demo_root)))\<rparr>"

definition demo_row :: SnapshotEntry where
  "demo_row = \<lparr>se_uuid = 7, se_name = ''app.Car'', se_version = Some 2, se_schema = Some [], se_data = Some [],
     se_created_at = Some 10, se_updated_at = Some 20, se_transaction_uuid = 0\<rparr>"

lemma demo_represents: "represents demo_postgres demo_root demo_row"
  by (simp add: represents_def demo_postgres_def demo_row_def row_data_def) (simp add: demo_root_def)




end
