(* ===== verification/Snapshot_Properties.thy ===== *)
theory Snapshot_Properties
  imports Snapshots Tx_Properties "HOL-Library.Countable"
begin

text \<open>
  Properties of the in-memory snapshot: which events of an entity count inside nested transactions,
  reading back what was created, and the queries that fail.
\<close>

section \<open>Which events count\<close>

abbreviation ver :: "EventEntry \<Rightarrow> int" where
  "ver e \<equiv> the (ee_version e)"

lemma sorted_by_two:
  fixes f :: "'a \<Rightarrow> 'b :: linorder" and g :: "'a \<Rightarrow> 'c :: linorder"
  assumes "sorted (map f xs)" "\<And>k. sorted (map g (filter (\<lambda>y. f y = k) xs))"
  shows "sorted_wrt (\<lambda>a b. f a < f b \<or> f a = f b \<and> g a \<le> g b) xs"
  using assms
proof (induction xs)
  case (Cons a xs)
  have "sorted (map g (filter (\<lambda>y. f y = k) xs))" for k
    using Cons.prems(2) [of k] by (simp split: if_splits)
  with Cons have IH: "sorted_wrt (\<lambda>a b. f a < f b \<or> f a = f b \<and> g a \<le> g b) xs" by simp
  have "f a < f b \<or> f a = f b \<and> g a \<le> g b" if "b \<in> set xs" for b
    using that Cons.prems(1) Cons.prems(2) [of "f a"] by (force simp: less_le)
  with IH show ?case by simp
qed simp

lemma sort_two_keys:
  fixes f :: "'a \<Rightarrow> 'b :: linorder" and g :: "'a \<Rightarrow> 'c :: linorder"
  shows "sorted_wrt (\<lambda>a b. f a < f b \<or> f a = f b \<and> g a \<le> g b) (sort_key f (sort_key g xs))"
proof (rule sorted_by_two)
  show "sorted (map g (filter (\<lambda>y. f y = k) (sort_key f (sort_key g xs))))" for k
    by (simp add: sort_key_stable sorted_filter)
qed simp

text \<open>Walking down a list that descends: what is kept descends strictly, and no version is lost.\<close>

lemma keep_lower_spec:
  assumes "sorted_wrt (\<lambda>a b. ver b < ver a \<or> ver b = ver a \<and> (g b :: nat) \<le> g a) (cur # es)"
  shows "sorted_wrt (\<lambda>a b. ver b < ver a) (cur # keep_lower es cur)
    \<and> set (keep_lower es cur) \<subseteq> set es
    \<and> (\<forall>e \<in> set es. \<exists>x \<in> set (cur # keep_lower es cur). ver x = ver e \<and> g e \<le> g x)"
  using assms
proof (induction es arbitrary: cur)
  case (Cons e es)
  show ?case
  proof (cases "ver e < ver cur")
    case True
    have "sorted_wrt (\<lambda>a b. ver b < ver a \<or> ver b = ver a \<and> g b \<le> g a) (e # es)" using Cons.prems by simp
    note IH = Cons.IH [OF this]
    have "ver b < ver cur" if "b \<in> set (keep_lower es e)" for b
      using IH that True by auto
    with IH True show ?thesis by auto
  next
    case False
    with Cons.prems have eq: "ver e = ver cur" "g e \<le> g cur" by auto
    have "sorted_wrt (\<lambda>a b. ver b < ver a \<or> ver b = ver a \<and> g b \<le> g a) (cur # es)" using Cons.prems by simp
    from Cons.IH [OF this] False eq show ?thesis by auto
  qed
qed simp

lemma single_transaction:
  assumes "length (uniq (map h xs)) \<le> 1" "a \<in> set xs" "b \<in> set xs"
  shows "h a = h b"
proof -
  have mem: "h a \<in> set (uniq (map h xs))" "h b \<in> set (uniq (map h xs))" using assms(2,3) by simp_all
  show ?thesis
  proof (cases "uniq (map h xs)")
    case Nil
    with mem(1) show ?thesis by (simp only: list.set empty_iff)
  next
    case (Cons x ys)
    with assms(1) have "uniq (map h xs) = [x]" by simp
    with mem show ?thesis by (simp only: list.set singleton_iff)
  qed
qed

lemma sorted_wrt_distinct: "sorted_wrt P xs \<Longrightarrow> distinct xs \<Longrightarrow> sorted_wrt (\<lambda>a b. P a b \<and> a \<noteq> b) xs"
  by (induction xs) auto

lemma effective_entries_lemma:
  fixes txs :: "uuid list"
  assumes "\<And>a b. a \<in> set es \<Longrightarrow> b \<in> set es \<Longrightarrow> ver a = ver b \<Longrightarrow> ee_transaction_uuid a = ee_transaction_uuid b \<Longrightarrow> a = b"
    and "distinct es"
  defines "result \<equiv> effective_entries txs es"
    and "depth \<equiv> \<lambda>e. index_of (ee_transaction_uuid e) txs"
  shows "sorted_wrt (\<lambda>a b. ver a < ver b) result
    \<and> set result \<subseteq> {e \<in> set es. ee_transaction_uuid e \<in> set txs}
    \<and> (\<forall>e \<in> set es. ee_transaction_uuid e \<in> set txs \<longrightarrow> (\<exists>x \<in> set result. ver x = ver e \<and> depth e \<le> depth x))"
proof -
  let ?F = "filter (\<lambda>e. ee_transaction_uuid e \<in> set txs) es"
  define L where "L = sort_key ver (sort_key depth ?F)"
  have setL: "set L = {e \<in> set es. ee_transaction_uuid e \<in> set txs}" by (simp add: L_def)
  have lex: "sorted_wrt (\<lambda>a b. ver a < ver b \<or> ver a = ver b \<and> depth a \<le> depth b) L"
    unfolding L_def by (rule sort_two_keys)
  have distL: "distinct L" using assms(2) by (simp add: L_def)
  have res: "result = (if length (uniq (map ee_transaction_uuid L)) > 1
      then rev (last L # keep_lower (rev (butlast L)) (last L)) else L)"
    unfolding result_def effective_entries_def L_def depth_def Let_def by simp
  show ?thesis
  proof (cases "length (uniq (map ee_transaction_uuid L)) > 1")
    case True
    then have "L \<noteq> []" by auto
    then have rL: "rev L = last L # rev (butlast L)" by (cases L rule: rev_cases) simp_all
    have desc: "sorted_wrt (\<lambda>a b. ver b < ver a \<or> ver b = ver a \<and> depth b \<le> depth a) (last L # rev (butlast L))"
      unfolding rL [symmetric] sorted_wrt_rev using lex by (simp add: eq_commute)
    note kept = keep_lower_spec [OF desc]
    have sets: "set (last L # rev (butlast L)) = set L" unfolding rL [symmetric] by simp
    have r: "result = rev (last L # keep_lower (rev (butlast L)) (last L))" using True res by simp
    have "sorted_wrt (\<lambda>a b. ver a < ver b) result" unfolding r sorted_wrt_rev using kept by blast
    moreover have "set result \<subseteq> set L" unfolding r sets [symmetric] using kept by auto
    moreover have "\<exists>x \<in> set result. ver x = ver e \<and> depth e \<le> depth x" if "e \<in> set L" for e
    proof (cases "e = last L")
      case False
      with that sets have "e \<in> set (rev (butlast L))" by auto
      with kept show ?thesis unfolding r set_rev by blast
    qed (simp add: r)
    ultimately show ?thesis unfolding setL by blast
  next
    case False
    have "ver a \<noteq> ver b" if "a \<in> set L" "b \<in> set L" "a \<noteq> b" for a b
    proof
      assume "ver a = ver b"
      moreover have "ee_transaction_uuid a = ee_transaction_uuid b"
        using single_transaction [OF _ that(1,2), of ee_transaction_uuid] False by simp
      ultimately show False using that assms(1) [of a b] setL by simp
    qed
    then have "sorted_wrt (\<lambda>a b. ver a < ver b) L"
      by (intro sorted_wrt_mono_rel [OF _ sorted_wrt_distinct [OF lex distL]]) fastforce
    with False res setL show ?thesis by auto
  qed
qed

text \<open>C7: the events a snapshot is built from, inside a chain of nested transactions. They are events of
  the entity in transactions of the chain, their versions increase strictly, and every version the
  entity has in the chain occurs once, taken from the innermost transaction that has it.\<close>

theorem visible_history:
  assumes "db_ok w"
  shows "\<exists>es. get_event_entries (db_repos c g) name u txs w = (Inr es, w)
    \<and> sorted_wrt (\<lambda>a b. the (ee_version a) < the (ee_version b)) es
    \<and> (\<forall>x \<in> set es. x \<in> set (db_log w) \<and> ee_uuid x = u \<and> ee_name x = name \<and> ee_transaction_uuid x \<in> set txs)
    \<and> (\<forall>e \<in> set (db_log w). ee_uuid e = u \<and> ee_name e = name \<and> ee_transaction_uuid e \<in> set txs \<longrightarrow>
        (\<exists>x \<in> set es. the (ee_version x) = the (ee_version e)
           \<and> index_of (ee_transaction_uuid e) txs \<le> index_of (ee_transaction_uuid x) txs))"
proof -
  let ?es = "filter (\<lambda>e. ee_uuid e = u \<and> ee_name e = name) (db_log w)"
  have filt: "db_ev_filter (ev_all\<lparr>eq_name := Some name, eq_uuid := Some u\<rparr>) = (\<lambda>e. ee_uuid e = u \<and> ee_name e = name)"
    by (simp add: fun_eq_iff db_ev_filter_def ev_all_def sql_cmp_def)
  have run: "get_event_entries (db_repos c g) name u txs w = (Inr (effective_entries txs ?es), w)"
    by (simp add: get_event_entries_def bindE_apply db_proto.ev_select_filter [OF assms] filt)
  have keys: "distinct (map (\<lambda>e. (ee_uuid e, ee_version e, ee_transaction_uuid e)) (db_log w))"
    and st: "\<forall>e \<in> set (db_log w). stored e"
    using assms db_ev.einv_keys db_ev.einv_log unfolding world_ok_def log_ok_def by blast+
  have "a = b" if "a \<in> set ?es" "b \<in> set ?es" "ver a = ver b" "ee_transaction_uuid a = ee_transaction_uuid b" for a b
  proof -
    have "a \<in> set (db_log w)" "b \<in> set (db_log w)" using that by auto
    then have "stored a" "stored b" using st by blast+
    with that(3) have "ee_version a = ee_version b" by (auto simp: stored_def)
    then show ?thesis
      using keys that by (auto simp: distinct_map inj_on_def)
  qed
  moreover have "distinct ?es" using keys by (simp add: distinct_map)
  ultimately show ?thesis
    using effective_entries_lemma [of ?es txs] run by auto
qed

theorem visible_history_witness:
  "\<exists>es. get_event_entries demo_db ''Car'' 7 [0, 1] world_open = (Inr es, world_open)
    \<and> sorted_wrt (\<lambda>a b. the (ee_version a) < the (ee_version b)) es"
  using visible_history [OF world_open_ok(1), of demo_codec Suc "''Car''" 7 "[0, 1]"] by blast

section \<open>Reading\<close>

definition reads :: "('e, 't, 'a) wop \<Rightarrow> bool" where
  "reads m \<longleftrightarrow> (\<forall>w. snd (m w) = w)"

lemma reads_bindE: "reads m \<Longrightarrow> (\<And>a. reads (f a)) \<Longrightarrow> reads (bindE m f)"
  unfolding reads_def bindE_def by (auto split: prod.splits sum.splits) (metis snd_conv)+

lemma reads_simps [simp]: "reads (retE a)" "reads (liftE r)" "reads (getsE f)" "reads (tx_get R u)" "reads (ev_select R q)"
  by (simp_all add: reads_def tx_get_def ev_select_def)

lemma reads_drop_rejected: "reads (drop_rejected R us)"
proof (induction R us rule: drop_rejected.induct)
  case (1 R us)
  then show ?case by (subst drop_rejected.simps) (auto intro!: reads_bindE)
qed

lemma reads_mem_snap_get: "reads (mem_snap_get R E name u tx)"
  unfolding mem_snap_get_def get_transaction_uuids_def get_event_entries_def
  by (intro reads_bindE reads_drop_rejected) (auto simp: reads_def ev_select_def split: option.splits)

lemma find_loop_fails:
  "\<lbrakk>u \<in> set us; fst (mem_snap_get R E name u tx w) = Inl x\<rbrakk> \<Longrightarrow> \<exists>y. fst (find_loop R E name cond ex tx us w) = Inl y"
proof (induction us)
  case (Cons v us)
  obtain r where r: "mem_snap_get R E name v tx w = (r, w)"
    using reads_mem_snap_get unfolding reads_def by (metis prod.collapse)
  show ?case
  proof (cases r)
    case (Inl y)
    with r show ?thesis by (simp add: bindE_apply)
  next
    case (Inr s)
    with Cons.prems r have "u \<in> set us" by auto
    then obtain y where y: "fst (find_loop R E name cond ex tx us w) = Inl y" using Cons by blast
    then obtain w' where "find_loop R E name cond ex tx us w = (Inl y, w')" by (metis prod.collapse)
    with Inr r show ?thesis
      by (cases "selects E cond ex s") (auto simp: bindE_apply)
  qed
qed simp

text \<open>Over the in-memory snapshot, an entity that exists only inside a transaction makes every
  query of its class outside the transaction fail, also the query for another entity: the loop
  over all identifiers of the class builds an instance from no events. With no transaction active,
  \<open>get\<close> of any identifier and \<open>get_all\<close> raise an exception.\<close>

theorem hidden_entity_breaks_queries:
  assumes "world_ok tx_inv mem_ev_inv w" "w_ctx w = []"
    and "r \<in> set (me_storage (w_events w))" "ee_name r = name"
    and "\<forall>x \<in> set (me_storage (w_events w)). ee_uuid x = ee_uuid r \<and> ee_name x = name \<longrightarrow> ee_transaction_uuid x \<noteq> NULL_UUID"
  shows "(\<exists>y. fst (snapshot_get (mem_repos c g) E name u None w) = Inl y)
    \<and> (\<exists>y. fst (snapshot_get_all (mem_repos c g) E name None None None w) = Inl y)"
proof -
  let ?R = "mem_repos c g"
  have sel: "ev_select ?R q w = (Inr (filter (db_ev_filter q) (me_storage (w_events w))), w)" for q
    by (rule mem_proto.ev_select_filter [OF assms(1)])
  have filt: "db_ev_filter (ev_all\<lparr>eq_name := Some name, eq_uuid := Some v\<rparr>) = (\<lambda>e. ee_uuid e = v \<and> ee_name e = name)"
    "db_ev_filter (ev_all\<lparr>eq_name := Some name\<rparr>) = (\<lambda>e. ee_name e = name)" for v
    by (simp_all add: fun_eq_iff db_ev_filter_def ev_all_def sql_cmp_def)
  have "effective_entries [NULL_UUID] (filter (\<lambda>e. ee_uuid e = ee_uuid r \<and> ee_name e = name) (me_storage (w_events w))) = []"
    using assms(5) by (simp add: effective_entries_def filter_empty_conv)
  then have "fst (mem_snap_get ?R E name (ee_uuid r) None w) = Inl IndexError"
    by (simp add: mem_snap_get_def get_transaction_uuids_def drop_rejected.simps get_event_entries_def bindE_apply
        sel filt build_instance_def)
  moreover have "ee_uuid r \<in> set (uniq (map ee_uuid (filter (\<lambda>e. ee_name e = name) (me_storage (w_events w)))))"
    using assms(3,4) by simp
  ultimately have loop: "\<exists>y. fst (find_loop ?R E name cond ex None
      (uniq (map ee_uuid (filter (\<lambda>e. ee_name e = name) (me_storage (w_events w))))) w) = Inl y" for cond ex
    by (intro find_loop_fails) auto
  have "\<exists>y. fst (find_entries ?R E name cond None None None ex w) = Inl y" for cond ex
  proof -
    obtain y w' where "find_loop ?R E name cond ex None
      (uniq (map ee_uuid (filter (\<lambda>e. ee_name e = name) (me_storage (w_events w))))) w = (Inl y, w')"
      using loop by (metis prod.collapse)
    then show ?thesis
      using assms(2) by (simp add: find_entries_def mem_find_entries_def bindE_apply current_entry_def sel filt)
  qed
  then have fe: "\<exists>y w'. find_entries ?R E name cond None None None ex w = (Inl y, w')" for cond ex
    by (metis prod.collapse)
  show ?thesis
    using fe [of "EQUAL ''uuid'' (Plain (VUuid u))" False] fe [of TRUE True]
    by (auto simp: snapshot_get_def get_entry_def snapshot_get_all_def snapshot_find_def bindE_apply)
qed

definition demo_env :: snap_env where
  "demo_env = \<lparr>sn_codec = \<lparr>enc_schema = (\<lambda>_. []), enc_data = (\<lambda>_. []), dec_entity = (\<lambda>_ _. Inr ([], []))\<rparr>,
     sn_class = (\<lambda>n. Inr demo_class)\<rparr>"

definition world_hidden :: "(mem_events, mem_tx) world" where
  "world_hidden = runs [submits_entry demo_mem (demo_entry 7 0), saves_tx demo_mem (demo_tx 1 PENDING),
     submits_entry demo_mem (demo_entry 8 1)] (demo_world mem_events_init [])"

theorem hidden_entity_breaks_queries_witness:
  "\<exists>y. fst (snapshot_get demo_mem demo_env ''Car'' 7 None world_hidden) = Inl y"
proof -
  have "world_ok tx_inv mem_ev_inv world_hidden" "w_ctx world_hidden = []" by code_simp+
  moreover have "\<exists>r \<in> set (me_storage (w_events world_hidden)). ee_name r = ''Car'' \<and>
     (\<forall>x \<in> set (me_storage (w_events world_hidden)). ee_uuid x = ee_uuid r \<and> ee_name x = ''Car'' \<longrightarrow> ee_transaction_uuid x \<noteq> NULL_UUID)"
    by code_simp
  then obtain r where "r \<in> set (me_storage (w_events world_hidden))" "ee_name r = ''Car''"
     "\<forall>x \<in> set (me_storage (w_events world_hidden)). ee_uuid x = ee_uuid r \<and> ee_name x = ''Car'' \<longrightarrow> ee_transaction_uuid x \<noteq> NULL_UUID"
    by blast
  ultimately show ?thesis
    using hidden_entity_breaks_queries [of world_hidden r "''Car''" demo_codec Suc demo_env 7] by blast
qed

section \<open>Reading back what was created\<close>

text \<open>
  What the program relies on of an application class: fields with distinct ordinary names, whose
  assigned values are well formed and stored unchanged when assigned again. And of the encoding of
  entities: decoding undoes it.
\<close>

definition class_ok :: "entity_class \<Rightarrow> bool" where
  "class_ok C \<longleftrightarrow> distinct (map fst (ec_fields C)) \<and> (\<forall>(n, t) \<in> set (ec_fields C). field_name n)
     \<and> (\<forall>n t a v. ec_set C n t a = Inr v \<longrightarrow> value_wf v \<and> ec_set C n t (Some (FieldValue v)) = Inr v)"

definition entity_codec_ok :: "entity_codec \<Rightarrow> bool" where
  "entity_codec_ok c \<longleftrightarrow> (\<forall>e. dec_entity c (enc_schema c e) (enc_data c (re_fields e)) = Inr (re_name e, re_fields e))"

lemma build_snapshot: "entity_codec_ok c \<Longrightarrow> build_entry c (snapshot_from_root_entity c e tx) = Inr e"
  by (simp add: build_entry_def snapshot_from_root_entity_def entity_codec_ok_def)

lemma build_fields_class:
  "\<lbrakk>build_fields C ds kw = Inr fs;
    \<forall>n t a v. ec_set C n t a = Inr v \<longrightarrow> value_wf v \<and> ec_set C n t (Some (FieldValue v)) = Inr v\<rbrakk> \<Longrightarrow>
   map (\<lambda>(n, f). (n, f_type f)) fs = ds \<and> (\<forall>(n, f) \<in> set fs. value_wf (f_value f)
      \<and> ec_set C n (f_type f) (Some (FieldValue (f_value f))) = Inr (f_value f))"
proof (induction ds arbitrary: fs)
  case (Cons d ds)
  obtain n t where d: "d = (n, t)" by fastforce
  obtain v gs where "ec_set C n t (dict_get kw n) = Inr v" "build_fields C ds kw = Inr gs"
    "fs = (n, \<lparr>f_type = t, f_value = v\<rparr>) # gs"
    using Cons.prems(1) d by (auto split: sum.splits)
  with Cons.IH [of gs] Cons.prems(2) d show ?case by fastforce
qed simp

lemma init_ok:
  assumes "class_ok C" "RootEntity_init C u v ca ua kw = Inr e"
  shows "entity_wf e" "class_stores C e" "re_name e = ec_name C" "ec_fields C = map (\<lambda>(n, f). (n, f_type f)) (re_fields e)"
proof -
  obtain fs where fs: "build_fields C (ec_fields C) kw = Inr fs" and e: "re_fields e = fs" "re_name e = ec_name C"
    using assms(2) by (auto simp: RootEntity_init_def split: sum.splits)
  have cls: "map (\<lambda>(n, f). (n, f_type f)) fs = ec_fields C" "\<forall>(n, f) \<in> set fs. value_wf (f_value f)
      \<and> ec_set C n (f_type f) (Some (FieldValue (f_value f))) = Inr (f_value f)"
    using build_fields_class [OF fs] assms(1) by (simp_all add: class_ok_def)
  have "map fst fs = map fst (ec_fields C)" unfolding cls(1) [symmetric] by (simp add: case_prod_beta)
  then have "distinct (map fst fs)" using assms(1) by (simp add: class_ok_def)
  moreover have "field_name n" if "(n, f) \<in> set fs" for n f
  proof -
    have "(n, f_type f) \<in> set (ec_fields C)" unfolding cls(1) [symmetric] using that by force
    then show ?thesis using assms(1) by (auto simp: class_ok_def)
  qed
  ultimately show "entity_wf e" using cls(2) e by (auto simp: entity_wf_def)
  show "class_stores C e" using cls(2) e by (auto simp: class_stores_def)
  show "re_name e = ec_name C" "ec_fields C = map (\<lambda>(n, f). (n, f_type f)) (re_fields e)" using e cls(1) by simp_all
qed

text \<open>The event of an entity whose base fields changed is the same event with those fields.\<close>

lemma from_root_entity_rebase:
  "from_root_entity e CREATE = Inr ev \<Longrightarrow> entity_wf e \<Longrightarrow>
   from_root_entity (e\<lparr>re_uuid := u, re_version := v, re_created_at := t, re_updated_at := t\<rparr>) CREATE
   = Inr (ev\<lparr>ev_uuid := u, ev_version := v, ev_created_at := t\<rparr>)"
  by (auto simp: from_root_entity_def from_model_own entity_wf_def)

text \<open>The single entry of a new entity gives the entity back.\<close>

lemma build_instance_created:
  assumes "class_ok C" "codec_ok c" "sn_class E (ec_name C) = Inr C"
    and "entity_wf e" "class_stores C e" "re_name e = ec_name C" "ec_fields C = map (\<lambda>(n, f). (n, f_type f)) (re_fields e)"
    and "from_root_entity e CREATE = Inr ev"
    and "completes t u ((from_event c ev None)) r" "ee_version r = Some v"
    and "re_uuid e = NULL_UUID"
  shows "build_instance E c (effective_entries [NULL_UUID] [r])
    = Inr (snapshot_from_root_entity (sn_codec E) (e\<lparr>re_uuid := u, re_version := v, re_created_at := t, re_updated_at := t\<rparr>) NULL_UUID)"
proof -
  let ?e = "e\<lparr>re_uuid := u, re_version := v, re_created_at := t, re_updated_at := t\<rparr>"
  have evs: "ev_uuid ev = NULL_UUID" "ev_action ev = CREATE" "ev_name ev = ec_name C"
    using assms(6,8,11) by (auto simp: from_root_entity_def split: sum.splits)
  have r: "ee_uuid r = u" "ee_name r = ec_name C" "ee_action r = Some CREATE" "ee_transaction_uuid r = NULL_UUID"
    "ee_created_at r = Some t" "ee_data r = avro_bytes c (ev_fields_diff ev)"
    using assms(9) evs by (simp_all add: completes_def from_event_def)
  have "entry_event c r = Inr (ev\<lparr>ev_uuid := u, ev_version := v, ev_created_at := t\<rparr>)"
    using r assms(2,10) evs by (cases ev) (simp add: entry_event_def field_diff_container_def codec_ok_def)
  moreover have "from_diff C (ev\<lparr>ev_uuid := u, ev_version := v, ev_created_at := t\<rparr>) = Inr ?e"
  proof -
    have "entity_wf ?e" "class_stores C ?e" "re_name ?e = ec_name C" "ec_fields C = map (\<lambda>(n, f). (n, f_type f)) (re_fields ?e)"
      using assms(4-7) by (simp_all add: entity_wf_def class_stores_def)
    from creation_rebuild [OF this] from_root_entity_rebase [OF assms(8,4)] show ?thesis by simp
  qed
  ultimately show ?thesis
    using r assms(3)
    by (simp add: build_instance_def effective_entries_def replay_def is_delete_def)
qed

lemma mem_snap_get_main:
  assumes "world_ok tx_inv mem_ev_inv w"
  shows "mem_snap_get (mem_repos c g) E name u None w
    = (build_instance E c (effective_entries [NULL_UUID]
        (filter (\<lambda>e. ee_uuid e = u \<and> ee_name e = name) (me_storage (w_events w)))), w)"
proof -
  have "db_ev_filter (ev_all\<lparr>eq_name := Some name, eq_uuid := Some u\<rparr>) = (\<lambda>e. ee_uuid e = u \<and> ee_name e = name)"
    by (simp add: fun_eq_iff db_ev_filter_def ev_all_def sql_cmp_def)
  then show ?thesis
    by (simp add: mem_snap_get_def get_transaction_uuids_def drop_rejected.simps get_event_entries_def bindE_apply
        mem_proto.ev_select_filter [OF assms])
qed

lemma find_loop_last:
  assumes "\<forall>u \<in> set us. \<exists>s. mem_snap_get R E name u tx w = (Inr s, w) \<and> selects E cond ex s = Inr False"
    and "mem_snap_get R E name v tx w = (Inr s, w)" "selects E cond ex s = Inr True"
  shows "find_loop R E name cond ex tx (us @ [v]) w = (Inr [s], w)"
  using assms(1)
proof (induction us)
  case Nil
  with assms(2,3) show ?case by (simp add: bindE_apply)
next
  case (Cons u us)
  then obtain s' where "mem_snap_get R E name u tx w = (Inr s', w)" "selects E cond ex s' = Inr False" by auto
  with Cons show ?case by (simp add: bindE_apply)
qed

lemma selects_uuid:
  assumes "build_entry (sn_codec E) s = Inl AlreadyDeletedException \<or> (\<exists>e. build_entry (sn_codec E) s = Inr e)"
  shows "selects E (EQUAL ''uuid'' (Plain (VUuid u))) False s = Inr (se_uuid s = u)"
proof -
  have "re_uuid e = se_uuid s" if "build_entry (sn_codec E) s = Inr e" for e
    using that by (auto simp: build_entry_def split: option.splits sum.splits prod.splits)
  with assms show ?thesis
    by (auto simp: selects_def with_field_def attrgetter_def get_attr_def all_fields_def entry_attr_def)
qed

lemma mem_submit_new:
  assumes "world_ok tx_inv mem_ev_inv w" "w_ctx w = []" "ev_uuid ev = NULL_UUID"
    and "\<forall>r \<in> set (me_storage (w_events w)). ee_uuid r \<noteq> NULL_UUID"
  shows "\<exists>r w'. submit (mem_repos c g) (AnEvent ev) None w = (Inr r, w') \<and> world_ok tx_inv mem_ev_inv w'
    \<and> me_storage (w_events w') = me_storage (w_events w) @ [r] \<and> w_ctx w' = []
    \<and> completes (w_now w) (g (w_uuid4 w)) (from_event c ev None) r"
proof -
  let ?e = "from_event c ev None"
  have ent: "?e = to_entry c (current_tx w) (AnEvent ev)" using assms(2) by (simp add: to_entry_def current_tx_def)
  have act: "ee_action ?e \<noteq> None" "ee_version ?e = None" "ee_uuid ?e = NULL_UUID"
    using assms(3) by (simp_all add: from_event_def)
  have nb: "\<not> blocked (dict_get (w_txs w)) (me_storage (w_events w)) (ee_uuid ?e) (ee_transaction_uuid ?e) None"
    using assms(4) act(3) by (auto simp: blocked_def)
  obtain r s' where sub: "mem_ev_submit (w_now w) (g (w_uuid4 w)) (stored_chain (mem_repos c g) (w_txs w)) ?e (w_events w) = (Inr r, s')"
    using act(2) by (auto simp: mem_ev_submit_cases Let_def)
  have inv: "mem_ev_inv (w_events w)" using assms(1) by (simp add: world_ok_def)
  note ok = mem_ev.ev_submit_ok [OF inv sub]
  have "submit (mem_repos c g) (AnEvent ev) None w = (Inr r, w\<lparr>w_events := s', w_uuid4 := Suc (w_uuid4 w),
      w_sent := w_sent w @ published c r\<rparr>)"
    using mem_proto.submit_stored [where c = c and g = g, unfolded mem_repos_simps, OF assms(1) ent act(1) nb sub] act(3) by simp
  with ok assms(1,2) show ?thesis by (simp add: world_ok_def)
qed


text \<open>An encoding for concrete inputs: differences and fields are countable.\<close>

instance "value" :: countable
  by countable_datatype

instance item :: countable
  by countable_datatype

instance field_value :: countable
  by countable_datatype

instance Action :: countable
  by countable_datatype

instance FieldDiff :: countable
  by countable_datatype

definition number_codec :: codec where
  "number_codec = \<lparr>avro_bytes = (\<lambda>d. [to_nat d]), from_avro_bytes = (\<lambda>b. from_nat (hd b))\<rparr>"

definition number_entity_codec :: entity_codec where
  "number_entity_codec = \<lparr>enc_schema = (\<lambda>e. [to_nat (re_name e)]),
     enc_data = (\<lambda>fs. [to_nat (map (\<lambda>(n, f). (n, f_type f, f_value f)) fs)]),
     dec_entity = (\<lambda>s d. Inr (from_nat (hd s), map (\<lambda>(n, t, v). (n, \<lparr>f_type = t, f_value = v\<rparr>)) (from_nat (hd d))))\<rparr>"

lemma number_codec_ok: "codec_ok number_codec"
  by (simp add: codec_ok_def number_codec_def)

lemma number_entity_codec_ok: "entity_codec_ok number_entity_codec"
proof -
  have "map ((\<lambda>(n, t, v). (n, \<lparr>f_type = t, f_value = v\<rparr>)) \<circ> (\<lambda>(n, f). (n, f_type f, f_value f))) fs = fs"
    for fs :: "(string, field) dict"
    by (rule map_idI) auto
  then show ?thesis
    by (simp add: entity_codec_ok_def number_entity_codec_def)
qed

definition demo_args :: "(string, field_arg) dict" where
  "demo_args = [(''color'', FieldValue (Plain (VStr ''red''))), (''tags'', FieldValue (ISet ''str'' [])),
     (''owners'', FieldValue (ESet ''Owner'' []))]"

lemma demo_class_ok: "class_ok demo_class"
  unfolding class_ok_def demo_class_def
  by (auto simp: field_name_def special_names_def split: option.splits field_arg.splits if_splits)


end
