(* ===== verification/Snapshot_Refinement.thy ===== *)
theory Snapshot_Refinement
  imports Snapshot_Sync
begin

text \<open>
  The loop of the synchronization, and the properties of the database snapshot: it holds what the
  in-memory snapshot computes, and the two situations in which it stops doing so.
\<close>

section \<open>Events of transactions\<close>

definition committed :: "EventEntry list \<Rightarrow> EventEntry list" where
  "committed es = filter (\<lambda>e. ee_transaction_uuid e = NULL_UUID) es"

lemma committed_simps [simp]:
  "committed [] = []" "committed (xs @ ys) = committed xs @ committed ys"
  "committed (e # es) = (if ee_transaction_uuid e = NULL_UUID then e # committed es else committed es)"
  by (simp_all add: committed_def)

lemma committed_all: "committed es = es \<longleftrightarrow> (\<forall>e \<in> set es. ee_transaction_uuid e = NULL_UUID)"
  by (simp add: committed_def filter_id_conv)

lemma keeps_on_world: "(\<And>w. snd (m w) = w) \<Longrightarrow> keeps (\<lambda>x. x = y) (on_world m)"
  by (auto simp: keeps_def on_world_def split: prod.splits) (metis snd_conv)

lemma keeps_snap_get_now: "keeps (\<lambda>x. x = y) (snap_get_now R P name u tx)"
  unfolding snap_get_now_def snap_find_now_def snap_find_entries_def
  by (intro keeprules keeps_on_world) (auto split: list.split option.split simp: snap_uuids_def)

lemma keeps_snap_build_instance: "keeps (\<lambda>x. x = y) (snap_build_instance R E P e)"
  unfolding snap_build_instance_def update_instance_if_exists_def
  by (intro keeprules keeps_on_world keeps_snap_get_now) (auto simp: tx_get_def split: if_splits)

definition same_rows :: "(uuid \<Rightarrow> SnapshotEntry list) \<Rightarrow> int option \<Rightarrow> ('e, 't) world \<Rightarrow> snapshot_db \<times> ('e, 't) world \<Rightarrow> bool" where
  "same_rows f n w x \<longleftrightarrow> row_of (sd_rows (fst x)) = f \<and> sd_offset (fst x) = n \<and> snd x = w"

lemma submit_elsewhere:
  assumes "se_transaction_uuid s \<noteq> NULL_UUID"
  shows "keeps (same_rows f n w) (submit_snapshot s)"
proof
  fix x :: "snapshot_db \<times> ('a, 'b) world"
  assume x: "same_rows f n w x"
  have "row_of rows' u = row_of rows u" if "build_submit_snapshot s rows = Inr rows'" for rows rows' u
  proof -
    let ?f = "\<lambda>r. if same_row s r
      then r\<lparr>se_version := se_version s, se_schema := se_schema s, se_data := se_data s, se_updated_at := se_updated_at s\<rparr> else r"
    have "row_of (map ?f rows) u = map ?f (row_of rows u)" by (rule row_of_map) auto
    also have "\<dots> = row_of rows u"
      using assms by (intro map_idI) (auto simp: row_of_def same_row_def)
    finally show ?thesis
      using that assms by (auto simp: build_submit_snapshot_def row_of_append split: if_splits)
  qed
  then have "row_of rows' = row_of rows" if "build_submit_snapshot s rows = Inr rows'" for rows rows'
    using that by blast
  with x show "same_rows f n w (snd (submit_snapshot s x))"
    by (cases x) (auto simp: submit_snapshot_def same_rows_def split: sum.split option.split)
qed

lemma dispatch_elsewhere:
  assumes "ee_transaction_uuid e \<noteq> NULL_UUID"
  shows "keeps (same_rows f n w) (dispatch_one R E P e)"
proof -
  have "keeps (same_rows f n w) (snap_build_instance R E P e)"
    using keeps_snap_build_instance [of _ R E P e] unfolding keeps_def by metis
  then show ?thesis
    using assms unfolding dispatch_one_def
    by (intro keeprules submit_elsewhere | simp add: from_event_entry_def snapshot_from_root_entity_def split: option.split)+
qed

lemma dispatch_elsewhere_result:
  assumes "ee_transaction_uuid e \<noteq> NULL_UUID"
  shows "\<exists>r rows. dispatch_one R E P e (d, w) = (r, (d\<lparr>sd_rows := rows\<rparr>, w)) \<and> row_of rows = row_of (sd_rows d)"
proof -
  obtain r d' w' where run: "dispatch_one R E P e (d, w) = (r, (d', w'))" by (metis prod.collapse)
  have "same_rows (row_of (sd_rows d)) (sd_offset d) w (d', w')"
    by (rule keepsD_eq [OF dispatch_elsewhere [OF assms] run]) (simp add: same_rows_def)
  then have "d' = d\<lparr>sd_rows := sd_rows d'\<rparr>" "w' = w" "row_of (sd_rows d') = row_of (sd_rows d)"
    by (simp_all add: same_rows_def)
  with run show ?thesis by metis
qed

section \<open>The loop\<close>

definition last_id :: "EventEntry list \<Rightarrow> int \<Rightarrow> int" where
  "last_id es n = fold (\<lambda>e. max (the (ee_id e))) es n"

lemma sync_loop_mirrors:
  assumes "entity_codec_ok (sn_codec E)" "w_ctx w = []" "r_codec R = c"
    and "get_in R (w_txs w) NULL_UUID = Inl TransactionNotFoundException"
  shows "\<lbrakk>mirrors E c (committed ps) (sd_rows d); good_from E c (committed ps) (committed es); \<forall>e \<in> set es. ee_id e \<noteq> None\<rbrakk>
    \<Longrightarrow> \<exists>r rows k. sync_loop R E P es n (d, w) = (r, (d\<lparr>sd_rows := rows\<rparr>, w))
      \<and> mirrors E c (committed (ps @ take k es)) rows
      \<and> (case r of Inl _ \<Rightarrow> committed es \<noteq> es | Inr n' \<Rightarrow> k = length es \<and> n' = last_id es n)"
proof (induction es arbitrary: ps d n)
  case Nil
  then show ?case by (intro exI [of _ "Inr n"] exI [of _ "sd_rows d"]) (simp add: last_id_def)
next
  case (Cons e es)
  let ?catch = "\<lambda>x. if x = SnapshotRepositoryConflictException then Some (retE ()) else None"
  obtain i where i: "ee_id e = Some i" using Cons.prems(3) by auto
  have continue: "\<exists>r rows k. sync_loop R E P (e # es) n (d, w) = (r, (d\<lparr>sd_rows := rows\<rparr>, w))
      \<and> mirrors E c (committed (ps @ take k (e # es))) rows
      \<and> (case r of Inl _ \<Rightarrow> committed (e # es) \<noteq> e # es | Inr n' \<Rightarrow> k = length (e # es) \<and> n' = last_id (e # es) n)"
    if step: "catchE (dispatch_one R E P e) ?catch (d, w) = (Inr (), (d\<lparr>sd_rows := rows\<rparr>, w))"
      and m: "mirrors E c (committed (ps @ [e])) rows" for rows
  proof -
    have good: "good_from E c (committed (ps @ [e])) (committed es)"
      using Cons.prems(2) by (auto split: if_splits)
    have ids: "\<forall>e \<in> set es. ee_id e \<noteq> None" using Cons.prems(3) by simp
    have m': "mirrors E c (committed (ps @ [e])) (sd_rows (d\<lparr>sd_rows := rows\<rparr>))" using m by simp
    from Cons.IH [OF m' good ids, of "max i n"] obtain r rows' k where
      "sync_loop R E P es (max i n) (d\<lparr>sd_rows := rows\<rparr>, w) = (r, (d\<lparr>sd_rows := rows'\<rparr>, w))"
      "mirrors E c (committed ((ps @ [e]) @ take k es)) rows'"
      "case r of Inl _ \<Rightarrow> committed es \<noteq> es | Inr n' \<Rightarrow> k = length es \<and> n' = last_id es (max i n)"
      by auto
    moreover have "committed (e # es) \<noteq> e # es" if "committed es \<noteq> es"
    proof -
      have "length (committed es) \<le> length es" by (simp add: committed_def)
      with that show ?thesis by auto
    qed
    ultimately show ?thesis
      using i by (intro exI [of _ r] exI [of _ rows'] exI [of _ "Suc k"])
        (auto simp: bindE_apply step last_id_def split: sum.split)
  qed
  show ?case
  proof (cases "ee_transaction_uuid e = NULL_UUID")
    case True
    with Cons.prems(2) have "continues E c (history (committed ps) (ee_uuid e)) e" by simp
    from dispatch_mirrors [OF Cons.prems(1) this assms] obtain rows where
      "dispatch_one R E P e (d, w) = (Inr (), (d\<lparr>sd_rows := rows\<rparr>, w))" "mirrors E c (committed ps @ [e]) rows" by blast
    with True show ?thesis by (intro continue) (simp_all add: catchE_def)
  next
    case False
    from dispatch_elsewhere_result [OF this] obtain r rows where
      r: "dispatch_one R E P e (d, w) = (r, (d\<lparr>sd_rows := rows\<rparr>, w))" "row_of rows = row_of (sd_rows d)" by metis
    have m: "mirrors E c (committed ps) rows" using Cons.prems(1) r(2) by (simp add: mirrors_def)
    show ?thesis
    proof (cases "r = Inr () \<or> r = Inl SnapshotRepositoryConflictException")
      case True
      then show ?thesis using m False r(1) by (intro continue) (auto simp: catchE_def retE_def)
    next
      case fails: False
      then obtain x where "r = Inl x" "x \<noteq> SnapshotRepositoryConflictException" by (cases r) auto
      then have "sync_loop R E P (e # es) n (d, w) = (Inl x, (d\<lparr>sd_rows := rows\<rparr>, w))"
        using r(1) by (simp add: bindE_apply catchE_def)
      moreover have "committed (e # es) \<noteq> e # es"
      proof -
        have "length (committed es) \<le> length es" by (simp add: committed_def)
        with False show ?thesis by (auto dest: arg_cong [of _ _ length])
      qed
      ultimately show ?thesis using m by (intro exI [of _ "Inl x"] exI [of _ rows] exI [of _ 0]) simp
    qed
  qed
qed

section \<open>Synchronizing\<close>

lemma good_from_append: "good_from E c ps (xs @ ys) \<longleftrightarrow> good_from E c ps xs \<and> good_from E c (ps @ xs) ys"
  by (induction xs arbitrary: ps) auto

definition id_le :: "int \<Rightarrow> EventEntry \<Rightarrow> bool" where
  "id_le n e \<longleftrightarrow> the (ee_id e) \<le> n"

lemma sorted_split: "sorted_wrt (<) (map f xs) \<Longrightarrow> xs = filter (\<lambda>x. f x \<le> n) xs @ filter (\<lambda>x. \<not> f x \<le> n) xs"
  for f :: "'a \<Rightarrow> int"
proof (induction xs)
  case (Cons x xs)
  show ?case
  proof (cases "f x \<le> n")
    case False
    with Cons.prems have "\<forall>y \<in> set xs. \<not> f y \<le> n" by auto
    with False show ?thesis by (simp add: filter_empty_conv)
  qed (use Cons in auto)
qed simp

lemma log_split:
  assumes "db_ok w"
  shows "db_log w = filter (id_le n) (db_log w) @ filter (\<lambda>e. \<not> id_le n e) (db_log w)"
proof -
  have "sorted_wrt (<) (map (\<lambda>e. the (ee_id e)) (db_log w))"
    using assms db_ev.einv_log unfolding world_ok_def log_ok_def by fastforce
  from sorted_split [OF this] show ?thesis unfolding id_le_def .
qed

lemma db_stored: "db_ok w \<Longrightarrow> e \<in> set (db_log w) \<Longrightarrow> stored e"
  using db_ev.einv_log unfolding world_ok_def log_ok_def by blast

lemma select_after:
  assumes "db_ok w"
  shows "ev_select (db_repos c g) (ev_all\<lparr>eq_id_gt := Some n\<rparr>) w = (Inr (filter (\<lambda>e. \<not> id_le n e) (db_log w)), w)"
    and "ev_select (db_repos c g) (ev_all\<lparr>eq_id_gt := Some n, eq_name := Some name\<rparr>) w
      = (Inr (filter (\<lambda>e. \<not> id_le n e \<and> ee_name e = name) (db_log w)), w)"
proof -
  have "db_ev_filter (ev_all\<lparr>eq_id_gt := Some n\<rparr>) e \<longleftrightarrow> \<not> id_le n e"
    "db_ev_filter (ev_all\<lparr>eq_id_gt := Some n, eq_name := Some name\<rparr>) e \<longleftrightarrow> \<not> id_le n e \<and> ee_name e = name"
    if "e \<in> set (db_log w)" for e
    using db_stored [OF assms that] by (auto simp: db_ev_filter_def ev_all_def sql_cmp_def stored_def id_le_def)
  then show "ev_select (db_repos c g) (ev_all\<lparr>eq_id_gt := Some n\<rparr>) w = (Inr (filter (\<lambda>e. \<not> id_le n e) (db_log w)), w)"
    "ev_select (db_repos c g) (ev_all\<lparr>eq_id_gt := Some n, eq_name := Some name\<rparr>) w
      = (Inr (filter (\<lambda>e. \<not> id_le n e \<and> ee_name e = name) (db_log w)), w)"
    by (simp_all add: db_proto.ev_select_filter [OF assms] cong: filter_cong)
qed

lemma entry_of_uuid: "te_uuid (entry_of b t) = te_uuid t"
  by (cases t) (simp add: entry_of_def tx_core.extend_def)

lemma clean_rows:
  assumes "db_ok w" "db_txs w NULL_UUID = None"
  shows "\<exists>rows. clean_transactions (db_repos c g) n (d, w) = (Inr (), (d\<lparr>sd_rows := rows\<rparr>, w))
    \<and> row_of rows = row_of (sd_rows d)"
proof -
  let ?q = "tx_all\<lparr>tq_event_offset_gt := Some n, tq_status_in := Some [COMMITTED, REJECTED]\<rparr>"
  obtain ts where ts: "tx_select (db_repos c g) ?q w = (Inr ts, w)"
    "set ts = entry_of False ` {t \<in> set (dict_values (w_txs w)). db_tx_filter ?q t}"
    by (auto simp: tx_select_def db_tx_select_def)
  have "te_uuid e \<noteq> NULL_UUID" if "e \<in> set ts" for e
  proof
    assume "te_uuid e = NULL_UUID"
    with that have e: "e \<in> set ts" "te_uuid e = NULL_UUID" by auto
    from e(1) [unfolded ts(2)] obtain t where "t \<in> set (dict_values (w_txs w))" "e = entry_of False t" by blast
    with e(2) have t: "t \<in> set (dict_values (w_txs w))" "te_uuid t = NULL_UUID" by (simp_all add: entry_of_uuid)
    then obtain u where "(u, t) \<in> set (w_txs w)" by auto
    moreover from this have "u = NULL_UUID" using assms(1) t(2) by (fastforce simp: world_ok_def tx_inv_def)
    ultimately show False using assms(2) by (force simp: map_of_eq_None_iff)
  qed
  then have del: "row_of (build_delete_transactions (map te_uuid ts) rows) = row_of rows" for rows
    by (fastforce simp: row_of_def build_delete_transactions_def intro!: filter_cong)
  show ?thesis
  proof (cases "ts = []")
    case True
    then show ?thesis using ts(1) by (intro exI [of _ "sd_rows d"]) (simp add: clean_transactions_def bindE_apply on_world_def)
  next
    case False
    then show ?thesis
      using ts(1) del by (intro exI [of _ "build_delete_transactions (map te_uuid ts) (sd_rows d)"])
        (simp add: clean_transactions_def bindE_apply on_world_def modifyE_def)
  qed
qed

definition offset_of :: "snapshot_db \<Rightarrow> int" where
  "offset_of d = (case sd_offset d of None \<Rightarrow> 0 | Some n \<Rightarrow> n)"

lemma load_offset_run [simp]: "load_offset (d, w) = (Inr (offset_of d), (d, w))"
  by (simp add: load_offset_def offset_of_def)

lemma last_id_le: "(\<forall>e \<in> set es. id_le m e) \<and> n \<le> m \<longleftrightarrow> last_id es n \<le> m"
proof (induction es arbitrary: n)
  case (Cons e es)
  from Cons.IH [of "max (the (ee_id e)) n"] show ?case by (auto simp: last_id_def id_le_def)
qed (simp add: last_id_def)

lemma synchronize_cases:
  fixes E c P w d g
  defines "old \<equiv> filter (id_le (offset_of d)) (db_log w)" and "new \<equiv> filter (\<lambda>e. \<not> id_le (offset_of d) e) (db_log w)"
  assumes "db_ok w" "w_ctx w = []" "db_txs w NULL_UUID = None" "entity_codec_ok (sn_codec E)"
    and "good_from E c [] (committed (db_log w))" "mirrors E c (committed old) (sd_rows d)"
  shows "\<exists>r d' k. synchronize (db_repos c g) E P (d, w) = (r, (d', w)) \<and> mirrors E c (committed (old @ take k new)) (sd_rows d')
    \<and> (case r of Inl _ \<Rightarrow> sd_offset d' = sd_offset d \<and> committed new \<noteq> new
       | Inr _ \<Rightarrow> k = length new \<and> offset_of d' = last_id new (offset_of d))"
proof -
  let ?R = "db_repos c g"
  have none: "get_in ?R (w_txs w) NULL_UUID = Inl TransactionNotFoundException"
    using assms(3,5) by (intro db_proto.get_in_None) (auto simp: world_ok_def)
  have log: "db_log w = old @ new" unfolding old_def new_def by (rule log_split [OF assms(3)])
  then have good: "good_from E c (committed old) (committed new)" using assms(7) by (simp add: good_from_append)
  have ids: "\<forall>e \<in> set new. ee_id e \<noteq> None" using db_stored [OF assms(3)] by (auto simp: new_def stored_def)
  from sync_loop_mirrors [OF assms(6,4) _ none assms(8) good ids, where P = P and n = "offset_of d"] obtain r rows k where
    loop: "sync_loop ?R E P new (offset_of d) (d, w) = (r, (d\<lparr>sd_rows := rows\<rparr>, w))"
      "mirrors E c (committed (old @ take k new)) rows"
      "case r of Inl _ \<Rightarrow> committed new \<noteq> new | Inr n' \<Rightarrow> k = length new \<and> n' = last_id new (offset_of d)"
    by auto
  note sel = select_after(1) [OF assms(3), of c g "offset_of d", folded new_def]
  show ?thesis
  proof (cases r)
    case (Inl x)
    then have "synchronize ?R E P (d, w) = (Inl x, (d\<lparr>sd_rows := rows\<rparr>, w))"
      using loop(1) sel by (simp add: synchronize_def bindE_apply on_world_def)
    with loop(2,3) Inl show ?thesis by (intro exI [of _ "Inl x"] exI [of _ "d\<lparr>sd_rows := rows\<rparr>"] exI [of _ k]) simp
  next
    case (Inr n')
    have ge: "offset_of d \<le> n'" using last_id_le [of new n' "offset_of d"] loop(3) Inr by simp
    obtain rows' where clean: "whenE (offset_of d < n') (clean_transactions ?R (offset_of d)) (d\<lparr>sd_rows := rows\<rparr>, w)
        = (Inr (), (d\<lparr>sd_rows := rows'\<rparr>, w))" "row_of rows' = row_of rows"
      using clean_rows [OF assms(3,5), of c g "offset_of d" "d\<lparr>sd_rows := rows\<rparr>"]
      by (cases "offset_of d < n'") auto
    let ?d = "d\<lparr>sd_rows := rows', sd_offset := build_submit_offset n' (sd_offset d)\<rparr>"
    have "synchronize ?R E P (d, w) = (Inr (), (?d, w))"
      using loop(1) sel clean(1) Inr by (simp add: synchronize_def bindE_apply on_world_def store_offset_def modifyE_def)
    moreover have "offset_of ?d = n'" using ge by (auto simp: offset_of_def build_submit_offset_def split: option.splits)
    moreover have "mirrors E c (committed (old @ take k new)) rows'" using loop(2) clean(2) by (simp add: mirrors_def)
    ultimately show ?thesis using loop(3) Inr by (intro exI [of _ "Inr ()"] exI [of _ ?d] exI [of _ k]) simp
  qed
qed

lemma synchronize_outcome:
  assumes "db_ok w" "w_ctx w = []" "db_txs w NULL_UUID = None" "entity_codec_ok (sn_codec E)"
    and "good_from E c [] (committed (db_log w))"
    and "mirrors E c (committed (filter (id_le (offset_of d)) (db_log w))) (sd_rows d)"
  shows "\<exists>r d'. synchronize (db_repos c g) E P (d, w) = (r, (d', w)) \<and>
    (case r of
       Inr _ \<Rightarrow> mirrors E c (committed (db_log w)) (sd_rows d')
         \<and> (\<forall>name. is_synced (db_repos c g) name (d', w) = (Inr True, (d', w)))
     | Inl _ \<Rightarrow> committed (db_log w) \<noteq> db_log w \<and> sd_offset d' = sd_offset d
         \<and> (\<exists>k. mirrors E c (committed (take k (db_log w))) (sd_rows d')))"
proof -
  let ?old = "filter (id_le (offset_of d)) (db_log w)" and ?new = "filter (\<lambda>e. \<not> id_le (offset_of d) e) (db_log w)"
  from synchronize_cases [OF assms] obtain r d' k where run: "synchronize (db_repos c g) E P (d, w) = (r, (d', w))"
    and m: "mirrors E c (committed (?old @ take k ?new)) (sd_rows d')"
    and out: "case r of Inl _ \<Rightarrow> sd_offset d' = sd_offset d \<and> committed ?new \<noteq> ?new
      | Inr _ \<Rightarrow> k = length ?new \<and> offset_of d' = last_id ?new (offset_of d)" by blast
  note log = log_split [OF assms(1), of "offset_of d"]
  show ?thesis
  proof (cases r)
    case (Inl x)
    have "take (length ?old + k) (?old @ ?new) = ?old @ take k ?new" by simp
    with m log have "mirrors E c (committed (take (length ?old + k) (db_log w))) (sd_rows d')" by metis
    moreover have "committed (db_log w) \<noteq> db_log w"
      using out Inl by (auto simp: committed_all)
    ultimately show ?thesis using run out Inl by auto
  next
    case (Inr x)
    then have "take k ?new = ?new" using out by simp
    then have "mirrors E c (committed (db_log w)) (sd_rows d')" using m log by metis
    moreover have "id_le (offset_of d') e" if "e \<in> set (db_log w)" for e
    proof -
      from last_id_le [of ?new "offset_of d'" "offset_of d"] out Inr
      have "\<forall>e \<in> set ?new. id_le (offset_of d') e" "offset_of d \<le> offset_of d'" by simp_all
      with that show ?thesis by (auto simp: id_le_def)
    qed
    then have "is_synced (db_repos c g) name (d', w) = (Inr True, (d', w))" for name
      using select_after(2) [OF assms(1), where c = c and g = g and n = "offset_of d'" and name = name]
      by (simp add: is_synced_def bindE_apply on_world_def filter_empty_conv)
    ultimately show ?thesis using run Inr by auto
  qed
qed

section \<open>A concrete service\<close>

definition car_codec :: codec where
  "car_codec = \<lparr>avro_bytes = (\<lambda>_. []), from_avro_bytes = (\<lambda>b. if b = [1]
     then [FieldDiff ''color'' ''str'' (Plain (VStr ''red'')), FieldDiff ''tags'' ''set'' (ISet ''str'' []),
           FieldDiff ''owners'' ''EntitySet'' (ESet ''Owner'' [])]
     else [FieldDiff ''color'' ''str'' (Plain (VStr ''blue''))])\<rparr>"

definition car_event :: "uuid \<Rightarrow> int \<Rightarrow> int \<Rightarrow> Action \<Rightarrow> uuid \<Rightarrow> EventEntry" where
  "car_event u v n a tx = \<lparr>ee_uuid = u, ee_name = ''app.Car'', ee_version = Some v,
     ee_data = (case a of CREATE \<Rightarrow> [1] | UPDATE \<Rightarrow> [2] | DELETE \<Rightarrow> []), ee_id = Some n, ee_action = Some a,
     ee_created_at = Some (10 * n), ee_transaction_uuid = tx\<rparr>"

definition car_world :: "EventEntry list \<Rightarrow> (db_events, db_tx) world" where
  "car_world es = demo_world \<lparr>de_rows = es, de_sequence = int (length es)\<rparr> []"

definition car_log :: "EventEntry list" where
  "car_log = [car_event 7 1 1 CREATE 0, car_event 8 1 2 CREATE 0, car_event 7 2 3 UPDATE 0, car_event 8 2 4 DELETE 0]"

text \<open>Which histories are good does not depend on the encoding of the entities.\<close>

definition car_env :: "entity_codec \<Rightarrow> snap_env" where
  "car_env x = \<lparr>sn_codec = x, sn_class = (\<lambda>n. Inr demo_class)\<rparr>"

definition no_codec :: entity_codec where
  "no_codec = \<lparr>enc_schema = (\<lambda>_. []), enc_data = (\<lambda>_. []), dec_entity = (\<lambda>_ _. Inr ([], []))\<rparr>"

lemma build_instance_codec:
  "(case build_instance (car_env x) c h of Inl _ \<Rightarrow> False | Inr _ \<Rightarrow> True)
   = (case build_instance (car_env y) c h of Inl _ \<Rightarrow> False | Inr _ \<Rightarrow> True)"
  by (simp add: build_instance_def car_env_def split: option.split sum.split)

lemma good_from_codec: "good_from (car_env x) c ps es = good_from (car_env y) c ps es"
proof (induction es arbitrary: ps)
  case (Cons e es)
  have "continues (car_env x) c h e = continues (car_env y) c h e" for h
    using build_instance_codec [of x c "h @ [e]" y] by (simp add: continues_def car_env_def)
  with Cons show ?case by simp
qed simp

lemma car_good: "good_from (car_env number_entity_codec) car_codec [] car_log"
proof -
  let ?E = "car_env no_codec" and ?e = car_event
  let ?built = "\<lambda>h. case build_instance ?E car_codec h of Inl _ \<Rightarrow> False | Inr _ \<Rightarrow> True"
  have fine: "\<forall>d \<in> set (flatten_values (field_diff_container car_codec (?e 7 v n a 0))). diff_name d \<notin> set special_names"
    if "a \<in> {CREATE, UPDATE, DELETE}" for v n a
  proof -
    have "field_diff_container car_codec (?e 7 v n CREATE 0) = from_avro_bytes car_codec [1]"
      "field_diff_container car_codec (?e 7 v n UPDATE 0) = from_avro_bytes car_codec [2]"
      "field_diff_container car_codec (?e 7 v n DELETE 0) = container_empty"
      by (simp_all add: field_diff_container_def car_event_def)
    moreover have "list_all (\<lambda>d. diff_name d \<notin> set special_names) (flatten_values x)"
      if "x \<in> {from_avro_bytes car_codec [1], from_avro_bytes car_codec [2], container_empty}" for x
    proof -
      have "list_all (\<lambda>x. list_all (\<lambda>d. diff_name d \<notin> set special_names) (flatten_values x))
        [from_avro_bytes car_codec [1], from_avro_bytes car_codec [2], container_empty]" by code_simp
      with that show ?thesis by auto
    qed
    ultimately show ?thesis using that unfolding list_all_iff by auto
  qed
  have plain: "plain_entry car_codec (?e u v n a 0) \<longleftrightarrow> u < 2 ^ 128" for u v n a
  proof -
    have "field_diff_container car_codec (?e u v n a 0) = field_diff_container car_codec (?e 7 v n a 0)"
      by (simp add: field_diff_container_def car_event_def)
    with fine [of a v n] show ?thesis
      by (cases a) (simp_all add: plain_entry_def car_event_def [of u] stored_def NULL_UUID_def)
  qed
  have one: "?built [?e 7 1 1 CREATE 0]" "?built [?e 8 1 2 CREATE 0]"
    "?built [?e 7 1 1 CREATE 0, ?e 7 2 3 UPDATE 0]" "?built [?e 8 1 2 CREATE 0, ?e 8 2 4 DELETE 0]"
    by code_simp+
  have cls: "sn_class ?E n = Inr demo_class" "ec_name demo_class = ''app.Car''" for n by (simp_all add: car_env_def demo_class_def)
  have keys: "ee_uuid (?e u v n a tx) = u" "ee_name (?e u v n a tx) = ''app.Car''" "ee_version (?e u v n a tx) = Some v"
    "ee_action (?e u v n a tx) = Some a" for u v n a tx by (simp_all add: car_event_def)
  show ?thesis
    unfolding good_from_codec [of number_entity_codec _ _ _ no_codec] car_log_def
    by (simp add: continues_def history_def plain keys one cls)
qed

lemma mirrors_nothing: "mirrors E c [] []"
  by (simp add: mirrors_def mirrored_def history_def row_of_def)

abbreviation no_table :: snapshot_db where
  "no_table \<equiv> \<lparr>sd_rows = [], sd_offset = None\<rparr>"

lemma nothing_synchronized: "db_ok (car_world es) \<Longrightarrow> filter (id_le (offset_of no_table)) (db_log (car_world es)) = []"
  using db_ev.einv_log by (fastforce simp: world_ok_def log_ok_def offset_of_def id_le_def filter_empty_conv)

text \<open>C9: the synchronized table refines the events. A service whose committed events form good histories (each
  continues the one before it and can be applied) synchronizes its database snapshot, whose rows mirror
  the events up to the stored offset, at a time when no transaction is active. If the synchronization
  returns, the rows mirror all committed events (the row of each entity is the entry that replaying its
  events gives, and there is none for other identifiers) and the repository counts as synced for every
  class; events of transactions have not touched these rows. If it raises, then because of an event of a
  transaction: the offset is the old one, and the rows mirror a prefix of the log.\<close>

theorem synchronize_refines:
  assumes "db_ok w" "w_ctx w = []" "db_txs w NULL_UUID = None" "entity_codec_ok (sn_codec E)"
    and "good_from E c [] (committed (db_log w))"
    and "mirrors E c (committed (filter (id_le (offset_of d)) (db_log w))) (sd_rows d)"
  shows "\<exists>r d'. synchronize (db_repos c g) E P (d, w) = (r, (d', w)) \<and>
    (case r of
       Inr _ \<Rightarrow> mirrors E c (committed (db_log w)) (sd_rows d')
         \<and> (\<forall>name. is_synced (db_repos c g) name (d', w) = (Inr True, (d', w)))
     | Inl _ \<Rightarrow> committed (db_log w) \<noteq> db_log w \<and> sd_offset d' = sd_offset d
         \<and> (\<exists>k. mirrors E c (committed (take k (db_log w))) (sd_rows d')))"
  by (rule synchronize_outcome [OF assms])

theorem synchronize_refines_witness:
  "\<exists>r d'. synchronize (db_repos car_codec Suc) (car_env number_entity_codec) demo_postgres
       (no_table, car_world (car_log @ [car_event 7 3 5 UPDATE 1])) = (r, (d', car_world (car_log @ [car_event 7 3 5 UPDATE 1])))
     \<and> (r = Inr () \<or> sd_offset d' = None)"
proof -
  let ?w = "car_world (car_log @ [car_event 7 3 5 UPDATE 1])"
  have w: "db_ok ?w" "w_ctx ?w = []" "db_txs ?w NULL_UUID = None" "committed (db_log ?w) = car_log" by code_simp+
  have "entity_codec_ok (sn_codec (car_env number_entity_codec))" by (simp add: car_env_def number_entity_codec_ok)
  moreover have "good_from (car_env number_entity_codec) car_codec [] (committed (db_log ?w))"
    using car_good w(4) by simp
  moreover have "mirrors (car_env number_entity_codec) car_codec (committed (filter (id_le (offset_of no_table)) (db_log ?w))) (sd_rows no_table)"
    unfolding nothing_synchronized [OF w(1)] by (simp add: mirrors_nothing)
  ultimately obtain r d' where "synchronize (db_repos car_codec Suc) (car_env number_entity_codec) demo_postgres (no_table, ?w) = (r, (d', ?w))"
    "case r of Inl _ \<Rightarrow> sd_offset d' = sd_offset no_table | Inr _ \<Rightarrow> True"
    using synchronize_refines [OF w(1-3), where g = Suc and P = demo_postgres] by (fastforce split: sum.split_asm)
  then show ?thesis by (cases r) auto
qed

section \<open>The same answers as the in-memory snapshot\<close>

lemma good_history:
  assumes "good_from E c [] es" "history es u \<noteq> []"
  shows "(\<forall>x \<in> set (history es u). plain_entry c x \<and> ee_name x = ee_name (last (history es u)))
    \<and> sorted_wrt (\<lambda>a b. the (ee_version a) < the (ee_version b)) (history es u)
    \<and> (case build_instance E c (history es u) of Inl _ \<Rightarrow> False
       | Inr s \<Rightarrow> se_uuid s = u \<and> se_name s = ee_name (last (history es u)) \<and> se_version s \<noteq> None
           \<and> (se_data s = None \<or> (\<exists>i. s = snapshot_from_root_entity (sn_codec E) i NULL_UUID)))"
  using assms
proof (induction es rule: rev_induct)
  case (snoc e es)
  then have good: "good_from E c [] es" "continues E c (history es (ee_uuid e)) e"
    by (simp_all add: good_from_append)
  show ?case
  proof (cases "ee_uuid e = u")
    case False
    then have h: "history (es @ [e]) u = history es u" by (simp add: history_snoc)
    show ?thesis unfolding h by (rule snoc.IH [OF good(1)]) (use snoc.prems(2) h in simp)
  next
    case True
    let ?h = "history es u"
    have h: "history (es @ [e]) u = ?h @ [e]" using True by (simp add: history_snoc)
    have cont: "plain_entry c e" "\<forall>x \<in> set ?h. plain_entry c x \<and> ee_name x = ee_name e \<and> the (ee_version x) < the (ee_version e)"
      using good(2) True by (simp_all add: continues_def)
    have "sorted_wrt (\<lambda>a b. the (ee_version a) < the (ee_version b)) ?h"
    proof (cases "?h = []")
      case False
      from snoc.IH [OF good(1) this] show ?thesis by blast
    qed simp
    then have "sorted_wrt (\<lambda>a b. the (ee_version a) < the (ee_version b)) (?h @ [e])"
      using cont(2) by (simp add: sorted_wrt_append)
    moreover have "case build_instance E c (?h @ [e]) of Inl _ \<Rightarrow> False
       | Inr s \<Rightarrow> se_uuid s = u \<and> se_name s = ee_name e \<and> se_version s \<noteq> None
           \<and> (se_data s = None \<or> (\<exists>i. s = snapshot_from_root_entity (sn_codec E) i NULL_UUID))"
    proof (cases "ee_action e = Some DELETE")
      case del: True
      then show ?thesis using True cont(1)
        by (simp add: build_instance_def is_delete_def from_event_entry_def plain_entry_def stored_def)
    next
      case False
      from built_continued [OF good(2) False] obtain C i where
        b: "ec_name C = ee_name e" "sn_class E (ee_name e) = Inr C"
          "build_instance E c (history es (ee_uuid e) @ [e]) = Inr (snapshot_from_root_entity (sn_codec E) i NULL_UUID)" by blast
      obtain a where a: "ee_action e = Some a" "\<not> is_delete a"
        using cont(1) False by (cases "ee_action e") (auto simp: plain_entry_def is_delete_def)
      have hd_name: "ee_name (hd (?h @ [e])) = ee_name e" using cont(2) by (cases ?h) auto
      have "build_instance E c (?h @ [e]) = (case replay C c (?h @ [e]) of Inl x \<Rightarrow> Inl x
          | Inr i \<Rightarrow> Inr (snapshot_from_root_entity (sn_codec E) i NULL_UUID))"
        using a b(2) hd_name by (intro build_live [where a = a]) simp_all
      with b(3) True obtain i' where i': "replay C c (?h @ [e]) = Inr i'"
        "build_instance E c (?h @ [e]) = Inr (snapshot_from_root_entity (sn_codec E) i' NULL_UUID)"
        by (auto split: sum.split_asm)
      have "\<forall>x \<in> set (?h @ [e]). plain_entry c x" using cont by auto
      from replay_base [OF i'(1) _ this] have "re_uuid i' = u" "re_name i' = ee_name e" using b(1) True by simp_all
      then have "se_uuid (snapshot_from_root_entity (sn_codec E) i' NULL_UUID) = u"
        "se_name (snapshot_from_root_entity (sn_codec E) i' NULL_UUID) = ee_name e"
        "se_version (snapshot_from_root_entity (sn_codec E) i' NULL_UUID) \<noteq> None"
        by (simp_all add: snapshot_from_root_entity_def)
      then show ?thesis unfolding i'(2) by auto
    qed
    ultimately show ?thesis unfolding h last_snoc using cont by auto
  qed
qed (simp add: history_def)

lemma effective_plain:
  assumes "sorted_wrt (\<lambda>a b. the (ee_version a) < the (ee_version b)) es" "\<forall>e \<in> set es. ee_transaction_uuid e = NULL_UUID"
  shows "effective_entries [NULL_UUID] es = es"
proof -
  let ?depth = "\<lambda>e. index_of (ee_transaction_uuid e) [NULL_UUID]"
  have "filter (\<lambda>e. ee_transaction_uuid e \<in> set [NULL_UUID]) es = es" using assms(2) by (simp add: filter_id_conv)
  moreover have "sort_key ?depth es = es"
  proof (rule sort_key_id_if_sorted)
    have "map ?depth es = map (\<lambda>_. 0) es" using assms(2) by (simp only: map_eq_conv) simp
    then show "sorted (map ?depth es)" by (simp add: sorted_iff_nth_mono)
  qed
  moreover have "sort_key (\<lambda>e. the (ee_version e)) es = es"
    using assms(1) by (intro sort_key_id_if_sorted) (simp add: sorted_map, erule sorted_wrt_mono_rel [rotated], simp)
  moreover have "length (uniq (map ee_transaction_uuid es)) \<le> 1"
  proof -
    have "set (uniq (map ee_transaction_uuid es)) \<subseteq> {NULL_UUID}" using assms(2) by auto
    then have "card (set (uniq (map ee_transaction_uuid es))) \<le> card {NULL_UUID}" by (intro card_mono) auto
    then show ?thesis unfolding distinct_card [OF distinct_uniq] by simp
  qed
  ultimately show ?thesis unfolding effective_entries_def Let_def by (simp add: not_less)
qed

lemma mem_snap_get_plain:
  assumes "db_ok w" "good_from E c [] (committed (db_log w))"
  shows "mem_snap_get (db_repos c g) E name u None w
    = (build_instance E c (filter (\<lambda>e. ee_name e = name) (history (committed (db_log w)) u)), w)"
proof -
  let ?es = "filter (\<lambda>e. ee_name e = name) (history (committed (db_log w)) u)"
  have q: "db_ev_filter (ev_all\<lparr>eq_name := Some name, eq_uuid := Some u\<rparr>) = (\<lambda>e. ee_uuid e = u \<and> ee_name e = name)"
    by (simp add: fun_eq_iff db_ev_filter_def ev_all_def sql_cmp_def)
  have "sorted_wrt (\<lambda>a b. the (ee_version a) < the (ee_version b)) (history (committed (db_log w)) u)"
  proof (cases "history (committed (db_log w)) u = []")
    case False
    from good_history [OF assms(2) this] show ?thesis by blast
  qed simp
  then have "effective_entries [NULL_UUID] ?es = ?es"
    by (intro effective_plain sorted_wrt_filter) (auto simp: history_def committed_def)
  moreover have "effective_entries [NULL_UUID] (filter (\<lambda>e. ee_uuid e = u \<and> ee_name e = name) (db_log w)) = effective_entries [NULL_UUID] ?es"
    unfolding effective_entries_def history_def committed_def by (simp add: conj_commute conj_left_commute)
  ultimately show ?thesis
    by (simp add: mem_snap_get_def get_transaction_uuids_def drop_rejected.simps get_event_entries_def bindE_apply
        db_proto.ev_select_filter [OF assms(1)] q)
qed

lemma history_named:
  assumes "good_from E c [] es" "ee_name e = name" "e \<in> set (history es u)"
  shows "filter (\<lambda>e. ee_name e = name) (history es u) = history es u" "ee_name (last (history es u)) = name"
proof -
  have "history es u \<noteq> []" using assms(3) by auto
  from good_history [OF assms(1) this] assms(2,3)
  show "ee_name (last (history es u)) = name" by auto
  with good_history [OF assms(1) \<open>history es u \<noteq> []\<close>]
  show "filter (\<lambda>e. ee_name e = name) (history es u) = history es u" by (simp add: filter_id_conv)
qed

lemma find_loop_by_uuid:
  assumes "\<And>y. y \<in> set us \<Longrightarrow> mem_snap_get R E name y tx w = (Inr (S y), w) \<and> selects E cond ex (S y) = Inr (y = u)"
  shows "find_loop R E name cond ex tx us w = (Inr (map S (filter (\<lambda>y. y = u) us)), w)"
  using assms by (induction us) (simp_all add: bindE_apply)

lemma filter_eq_distinct: "distinct us \<Longrightarrow> filter (\<lambda>y. y = u) us = (if u \<in> set us then [u] else [])"
  by (induction us) auto

definition build_of :: "snap_env \<Rightarrow> codec \<Rightarrow> EventEntry list \<Rightarrow> SnapshotEntry" where
  "build_of E c h = (case build_instance E c h of Inr s \<Rightarrow> s | Inl _ \<Rightarrow> undefined)"

lemma build_of_history:
  assumes "good_from E c [] es" "history es u \<noteq> []" "entity_codec_ok (sn_codec E)"
  shows "build_instance E c (history es u) = Inr (build_of E c (history es u))"
    and "se_uuid (build_of E c (history es u)) = u"
    and "se_name (build_of E c (history es u)) = ee_name (last (history es u))"
    and "build_entry (sn_codec E) (build_of E c (history es u)) = Inl AlreadyDeletedException
      \<or> (\<exists>e. build_entry (sn_codec E) (build_of E c (history es u)) = Inr e)"
proof -
  obtain s where s: "build_instance E c (history es u) = Inr s" "se_uuid s = u" "se_name s = ee_name (last (history es u))"
    "se_data s = None \<or> (\<exists>i. s = snapshot_from_root_entity (sn_codec E) i NULL_UUID)"
    using good_history [OF assms(1,2)] by (auto split: sum.split_asm)
  then show "build_instance E c (history es u) = Inr (build_of E c (history es u))"
    "se_uuid (build_of E c (history es u)) = u" "se_name (build_of E c (history es u)) = ee_name (last (history es u))"
    by (simp_all add: build_of_def)
  show "build_entry (sn_codec E) (build_of E c (history es u)) = Inl AlreadyDeletedException
      \<or> (\<exists>e. build_entry (sn_codec E) (build_of E c (history es u)) = Inr e)"
    using s(4)
  proof
    assume "se_data s = None"
    with s(1) show ?thesis by (simp add: build_of_def build_entry_def)
  next
    assume "\<exists>i. s = snapshot_from_root_entity (sn_codec E) i NULL_UUID"
    then obtain i where i: "s = snapshot_from_root_entity (sn_codec E) i NULL_UUID" ..
    from s(1) build_snapshot [OF assms(3), of i NULL_UUID] show ?thesis unfolding build_of_def i by simp
  qed
qed

text \<open>The in-memory snapshot on good histories.\<close>

lemma memory_get:
  assumes "db_ok w" "w_ctx w = []" "good_from E c [] (committed (db_log w))" "committed (db_log w) = db_log w"
    and "entity_codec_ok (sn_codec E)"
  shows "snapshot_get (db_repos c g) E name u None w =
    (if filter (\<lambda>e. ee_name e = name) (history (db_log w) u) = [] then Inl NotFoundException
     else build_entry (sn_codec E) (build_of E c (history (db_log w) u)), w)"
proof -
  let ?log = "db_log w" and ?S = "\<lambda>y. build_of E c (history (db_log w) y)"
  let ?us = "uniq (map ee_uuid (filter (\<lambda>e. ee_name e = name) ?log))"
  note good = assms(3) [unfolded assms(4)]
  have q: "db_ev_filter (ev_all\<lparr>eq_name := Some name\<rparr>) = (\<lambda>e. ee_name e = name)"
    by (simp add: fun_eq_iff db_ev_filter_def ev_all_def sql_cmp_def)
  have "mem_snap_get (db_repos c g) E name y None w = (Inr (?S y), w)
      \<and> selects E (EQUAL ''uuid'' (Plain (VUuid u))) False (?S y) = Inr (y = u)" if "y \<in> set ?us" for y
  proof -
    from that obtain e where e: "ee_name e = name" "e \<in> set (history ?log y)" by (auto simp: history_def)
    then have ne: "history ?log y \<noteq> []" by auto
    note b = build_of_history [OF good ne assms(5)]
    show ?thesis
      using mem_snap_get_plain [OF assms(1,3), of g name y] history_named(1) [OF good e] b(1,2) selects_uuid [OF b(4), of u]
      by (simp add: assms(4))
  qed
  from find_loop_by_uuid [of ?us, OF this]
  have loop: "find_loop (db_repos c g) E name (EQUAL ''uuid'' (Plain (VUuid u))) False None ?us w
      = (Inr (if u \<in> set ?us then [?S u] else []), w)"
    by (simp add: filter_eq_distinct)
  have "u \<in> set ?us \<longleftrightarrow> filter (\<lambda>e. ee_name e = name) (history ?log u) \<noteq> []"
    by (auto simp: history_def filter_empty_conv)
  with loop show ?thesis
    using assms(2) by (simp add: snapshot_get_def get_entry_def find_entries_def mem_find_entries_def bindE_apply
        current_entry_def db_proto.ev_select_filter [OF assms(1)] q)
qed



section \<open>Where the synchronization stops being right\<close>

lemma filter_head: "filter P xs = x # ys \<Longrightarrow> x \<in> set xs \<and> P x"
  by (induction xs) (auto split: if_splits)

lemma synchronize_fails:
  assumes "db_ok w" "filter (\<lambda>e. \<not> id_le (offset_of d) e) (db_log w) = e # es"
    and "dispatch_one (db_repos c g) E P e (d, w) = (Inl x, (d, w))" "x \<noteq> SnapshotRepositoryConflictException"
  shows "synchronize (db_repos c g) E P (d, w) = (Inl x, (d, w))"
  using select_after(1) [OF assms(1), of c g "offset_of d"] assms(2-4)
  by (simp add: synchronize_def bindE_apply on_world_def catchE_def)

text \<open>A synchronization that is repeated stops at a deleted entity. If the first event to process is not
  a deletion and the row of its entity says that the entity is deleted (as after a synchronization that
  stored the rows but not the offset, when a later event failed or the process ended), then
  synchronizing raises \<open>AlreadyDeletedException\<close> and changes nothing. It is not caught, so every later
  synchronization does the same, and with it every \<open>get\<close> and every \<open>find\<close> of any class.\<close>

theorem deletion_blocks_synchronization:
  assumes "db_ok w" "w_ctx w = []" "db_txs w NULL_UUID = None"
    and "filter (\<lambda>e. \<not> id_le (offset_of d) e) (db_log w) = e # es"
    and "ee_transaction_uuid e = NULL_UUID" "ee_uuid e < 2 ^ 128" "ee_action e = Some a" "a \<noteq> DELETE"
    and "row_of (sd_rows d) (ee_uuid e) = [r]" "se_name r = ee_name e" "se_data r = None"
  shows "synchronize (db_repos c g) E P (d, w) = (Inl AlreadyDeletedException, (d, w))
    \<and> snap_get (db_repos c g) E P name u None (d, w) = (Inl AlreadyDeletedException, (d, w))
    \<and> snap_find (db_repos c g) E P name cond orderBy limit None (d, w) = (Inl AlreadyDeletedException, (d, w))"
proof -
  let ?R = "db_repos c g"
  have "stored e" using filter_head [OF assms(4)] db_stored [OF assms(1)] by blast
  then obtain ev where ev: "entry_event c e = Inr ev" using assms(7) by (auto simp: entry_event_def stored_def)
  have none: "tx_get ?R NULL_UUID w = (Inl TransactionNotFoundException, w)"
    using assms(1,3) db_proto.get_in_None [where t = "w_txs w"] by (simp add: tx_get_def world_ok_def)
  have get: "snap_get_now ?R P (ev_name ev) (ev_uuid ev) None (d, w) = (Inr r, (d, w))"
    using snap_get_now_row [OF assms(2,6)] entry_event_base [OF ev] assms(9,10) by simp
  have "build_entry (sn_codec E) r = Inl AlreadyDeletedException" using assms(11) by (simp add: build_entry_def)
  with ev none get assms(5) have "snap_build_instance ?R E P e (d, w) = (Inl AlreadyDeletedException, (d, w))"
    by (simp add: snap_build_instance_def update_instance_if_exists_def bindE_apply catchE_def on_world_def)
  with assms(7,8) have "dispatch_one ?R E P e (d, w) = (Inl AlreadyDeletedException, (d, w))"
    by (cases a) (simp_all add: dispatch_one_def bindE_apply is_delete_def)
  from synchronize_fails [OF assms(1,4) this] have "synchronize ?R E P (d, w) = (Inl AlreadyDeletedException, (d, w))" by simp
  then show ?thesis using assms(2) by (simp add: snap_get_def snap_find_def bindE_apply on_world_def current_entry_def)
qed

text \<open>The rows of the events were stored, the offset was not.\<close>

definition deleted_row :: SnapshotEntry where
  "deleted_row = from_event_entry (car_event 8 2 2 DELETE 0)"

theorem deletion_blocks_synchronization_witness:
  "synchronize (db_repos car_codec Suc) (car_env number_entity_codec) demo_postgres
     (\<lparr>sd_rows = [deleted_row], sd_offset = None\<rparr>, car_world [car_event 8 1 1 CREATE 0, car_event 8 2 2 DELETE 0])
   = (Inl AlreadyDeletedException,
     (\<lparr>sd_rows = [deleted_row], sd_offset = None\<rparr>, car_world [car_event 8 1 1 CREATE 0, car_event 8 2 2 DELETE 0]))"
proof -
  let ?w = "car_world [car_event 8 1 1 CREATE 0, car_event 8 2 2 DELETE 0]" and ?d = "\<lparr>sd_rows = [deleted_row], sd_offset = None\<rparr>"
  let ?e = "car_event 8 1 1 CREATE 0"
  have "db_ok ?w" "w_ctx ?w = []" "db_txs ?w NULL_UUID = None"
    "filter (\<lambda>e. \<not> id_le (offset_of ?d) e) (db_log ?w) = ?e # [car_event 8 2 2 DELETE 0]"
    "ee_transaction_uuid ?e = NULL_UUID" "ee_action ?e = Some CREATE" "CREATE \<noteq> DELETE"
    "row_of (sd_rows ?d) (ee_uuid ?e) = [deleted_row]" "se_name deleted_row = ee_name ?e" "se_data deleted_row = None"
    by code_simp+
  moreover have "ee_uuid ?e < 2 ^ 128" by (simp add: car_event_def)
  ultimately show ?thesis using deletion_blocks_synchronization [where w = ?w and d = ?d and e = ?e] by blast
qed

text \<open>C37: a synchronization inside a transaction loses events. While a transaction is active in the calling
  task, an event from outside of transactions is compared with the state that the transaction sees
  instead of the committed one: \<open>get\<close> replaces the missing transaction by the active one. If that state
  has the version of the event or a higher one, the event counts as a conflict and is skipped; the offset
  moves past it, the repository counts as synced, and the committed row is as before for every later
  query.\<close>

theorem synchronize_in_transaction_loses_event:
  assumes "db_ok w" "db_txs w NULL_UUID = None"
    and "current_entry w = Some t" "uuids (db_repos c g) (w_txs w) t = Inr txs"
    and "filter (\<lambda>e. \<not> id_le (offset_of d) e) (db_log w) = [e]"
    and "ee_transaction_uuid e = NULL_UUID" "ee_uuid e < 2 ^ 128" "ee_action e = Some a" "a \<noteq> DELETE"
    and "innermost (ee_name e) txs (sd_rows d) (ee_uuid e) = Some r" "build_entry (sn_codec E) r = Inr i"
    and "the (ee_version e) \<le> re_version i"
  shows "\<exists>d'. synchronize (db_repos c g) E P (d, w) = (Inr (), (d', w))
    \<and> row_of (sd_rows d') = row_of (sd_rows d) \<and> offset_of d' = the (ee_id e)
    \<and> (\<forall>name. is_synced (db_repos c g) name (d', w) = (Inr True, (d', w)))"
proof -
  let ?R = "db_repos c g"
  have e: "e \<in> set (db_log w)" "\<not> id_le (offset_of d) e" using filter_head [OF assms(5)] by blast+
  have st: "stored e" by (rule db_stored [OF assms(1) e(1)])
  then obtain ev where ev: "entry_event c e = Inr ev" using assms(8) by (auto simp: entry_event_def stored_def)
  have none: "tx_get ?R NULL_UUID w = (Inl TransactionNotFoundException, w)"
    using assms(1,2) db_proto.get_in_None [where t = "w_txs w"] by (simp add: tx_get_def world_ok_def)
  have get: "snap_get_now ?R P (ev_name ev) (ev_uuid ev) None (d, w) = (Inr r, (d, w))"
    using entry_event_base [OF ev] assms(3,4,7,10)
    by (simp add: snap_get_now_def snap_find_now_def snap_find_entries_def on_world_def bindE_apply snap_uuids_def query_uuid)
  have "snap_build_instance ?R E P e (d, w) = (Inl SnapshotRepositoryConflictException, (d, w))"
    using ev none get assms(6,11,12) entry_event_base [OF ev]
    by (simp add: snap_build_instance_def update_instance_if_exists_def bindE_apply catchE_def on_world_def)
  with assms(8,9) have "dispatch_one ?R E P e (d, w) = (Inl SnapshotRepositoryConflictException, (d, w))"
    by (cases a) (simp_all add: dispatch_one_def bindE_apply is_delete_def)
  moreover obtain n where n: "ee_id e = Some n" "offset_of d < n" using st e(2) by (auto simp: stored_def id_le_def)
  ultimately have loop: "sync_loop ?R E P [e] (offset_of d) (d, w) = (Inr n, (d, w))"
    by (simp add: bindE_apply catchE_def)
  obtain rows where clean: "clean_transactions ?R (offset_of d) (d, w) = (Inr (), (d\<lparr>sd_rows := rows\<rparr>, w))"
    "row_of rows = row_of (sd_rows d)" using clean_rows [OF assms(1,2)] by blast
  let ?d = "d\<lparr>sd_rows := rows, sd_offset := build_submit_offset n (sd_offset d)\<rparr>"
  have sync: "synchronize ?R E P (d, w) = (Inr (), (?d, w))"
    using select_after(1) [OF assms(1), of c g "offset_of d"] loop clean(1) n(2) assms(5)
    by (simp add: synchronize_def bindE_apply on_world_def store_offset_def modifyE_def del: sync_loop.simps)
  have off: "offset_of ?d = n" using n(2) by (auto simp: offset_of_def build_submit_offset_def split: option.splits)
  have "id_le n x" if "x \<in> set (db_log w)" for x
  proof (cases "id_le (offset_of d) x")
    case False
    with that have "x \<in> set [e]" unfolding assms(5) [symmetric] by simp
    with n(1) show ?thesis by (simp add: id_le_def)
  qed (use n(2) in \<open>simp add: id_le_def\<close>)
  then have "is_synced ?R name (?d, w) = (Inr True, (?d, w))" for name
    using select_after(2) [OF assms(1), where c = c and g = g and n = n and name = name] off
    by (simp add: is_synced_def bindE_apply on_world_def filter_empty_conv)
  with sync clean(2) off n(1) show ?thesis by (intro exI [of _ ?d]) simp
qed

text \<open>Transaction 1 is active and has a second version of the car; another client submits its own second
  version.\<close>

definition car_tx :: tx_core where
  "car_tx = core_of (demo_tx 1 PENDING)"

definition car_world_rival :: "(db_events, db_tx) world" where
  "car_world_rival = (car_world [car_event 7 1 1 CREATE 0, car_event 7 2 2 UPDATE 1, car_event 7 2 3 UPDATE 0])
     \<lparr>w_txs := [(1, car_tx)], w_ctx := [car_tx]\<rparr>"

definition car_root :: "int \<Rightarrow> RootEntity" where
  "car_root v = \<lparr>re_uuid = 7, re_version = v, re_created_at = 10, re_updated_at = 10 * v, re_name = ''app.Car'', re_fields = []\<rparr>"

definition rival_table :: snapshot_db where
  "rival_table = \<lparr>sd_rows = [snapshot_from_root_entity number_entity_codec (car_root 1) 0,
     snapshot_from_root_entity number_entity_codec (car_root 2) 1], sd_offset = Some 2\<rparr>"

theorem synchronize_in_transaction_loses_event_witness:
  "\<exists>d'. synchronize (db_repos car_codec Suc) (car_env number_entity_codec) demo_postgres (rival_table, car_world_rival) = (Inr (), (d', car_world_rival))
    \<and> row_of (sd_rows d') = row_of (sd_rows rival_table) \<and> offset_of d' = 3"
proof -
  let ?e = "car_event 7 2 3 UPDATE 0" and ?t = "the (current_entry car_world_rival)"
  let ?r = "snapshot_from_root_entity number_entity_codec (car_root 2) 1"
  have w: "db_ok car_world_rival" "db_txs car_world_rival NULL_UUID = None" "current_entry car_world_rival = Some ?t"
    "uuids (db_repos car_codec Suc) (w_txs car_world_rival) ?t = Inr [0, 1]" by code_simp+
  have new: "filter (\<lambda>e. \<not> id_le (offset_of rival_table) e) (db_log car_world_rival) = [?e]"
    by (simp add: rival_table_def offset_of_def car_world_rival_def car_world_def demo_world_def id_le_def car_event_def)
  have e: "ee_transaction_uuid ?e = NULL_UUID" "ee_uuid ?e < 2 ^ 128" "ee_action ?e = Some UPDATE" "UPDATE \<noteq> DELETE"
    by (simp_all add: car_event_def NULL_UUID_def)
  have "innermost (ee_name ?e) [0, 1] (sd_rows rival_table) (ee_uuid ?e) = Some ?r"
    by (simp add: innermost_def rival_table_def snapshot_from_root_entity_def car_root_def car_event_def)
  moreover have "build_entry (sn_codec (car_env number_entity_codec)) ?r = Inr (car_root 2)"
    by (simp add: car_env_def build_snapshot number_entity_codec_ok)
  moreover have "the (ee_version ?e) \<le> re_version (car_root 2)" by (simp add: car_event_def car_root_def)
  ultimately show ?thesis
    using synchronize_in_transaction_loses_event [OF w new e, of ?r "car_env number_entity_codec" "car_root 2" demo_postgres]
    by (auto simp: car_event_def)
qed

end
