(* ===== verification/Saga_Definitions.thy ===== *)
theory Saga_Definitions
  imports Saga_Base
begin

text \<open>
  Saga definitions: \<open>SagaOperation\<close> (\<open>definitions/operations.py\<close>), the three kinds of steps
  (\<open>definitions/steps\<close>) and \<open>Saga\<close> (\<open>definitions/saga.py\<close>), with the fluent interface that builds
  them, their validation, and their serialized form with the way back.

  A callback is its dotted name, which is what \<open>classname\<close> gives and \<open>import_module\<close> takes; what the
  callbacks do is a parameter of the executors. The reference a step keeps to its saga is only read
  by the fluent interface, where the step in hand is always the last one of the saga; a step
  that is handed over says whether it already has one.
\<close>

section \<open>Combinators\<close>

text \<open>A loop that stops at the first exception, without and with results.\<close>

fun checkE :: "('a \<Rightarrow> 'e + unit) \<Rightarrow> 'a list \<Rightarrow> 'e + unit" where
  "checkE f [] = Inr ()"
| "checkE f (x # xs) = (case f x of Inl e \<Rightarrow> Inl e | Inr _ \<Rightarrow> checkE f xs)"

fun mapE :: "('a \<Rightarrow> 'e + 'b) \<Rightarrow> 'a list \<Rightarrow> 'e + 'b list" where
  "mapE f [] = Inr []"
| "mapE f (x # xs) = (case f x of Inl e \<Rightarrow> Inl e | Inr y \<Rightarrow>
     (case mapE f xs of Inl e \<Rightarrow> Inl e | Inr ys \<Rightarrow> Inr (y # ys)))"

lemma checkE_cong [fundef_cong]: "xs = ys \<Longrightarrow> (\<And>x. x \<in> set ys \<Longrightarrow> f x = g x) \<Longrightarrow> checkE f xs = checkE g ys"
  by (induction ys arbitrary: xs) (auto split: sum.splits)

lemma mapE_cong [fundef_cong]: "xs = ys \<Longrightarrow> (\<And>x. x \<in> set ys \<Longrightarrow> f x = g x) \<Longrightarrow> mapE f xs = mapE g ys"
  by (induction ys arbitrary: xs) (auto split: sum.splits)

lemma checkE_ok: "checkE f xs = Inr () \<longleftrightarrow> (\<forall>x \<in> set xs. f x = Inr ())"
  by (induction xs) (auto split: sum.splits)

lemma mapE_map: "(\<And>x. x \<in> set xs \<Longrightarrow> f (g x) = Inr (h x)) \<Longrightarrow> mapE f (map g xs) = Inr (map h xs)"
  by (induction xs) auto

section \<open>Operations, steps and sagas\<close>

record SagaOperation =
  op_callback :: string
  op_parameters :: "SagaContext option"

datatype Saga = Saga (sg_steps: "SagaStep list") (sg_committed: bool)
and SagaStep =
    RemoteSagaStep "SagaOperation option" "SagaOperation option" "SagaOperation option" "SagaOperation option"
  | LocalSagaStep "SagaOperation option" "SagaOperation option"
  | ConditionalSagaStep "IfThenAlternative list" "ElseThenAlternative option"
and IfThenAlternative = IfThenAlternative (if_condition: SagaOperation) (if_saga: Saga)
and ElseThenAlternative = ElseThenAlternative (else_saga: Saga)

lemma size_if_saga [termination_simp]: "a \<in> set ifs \<Longrightarrow> size (if_saga a) < Suc (size_list size ifs + n)"
  by (induction ifs) (auto, cases a, auto)

lemma size_else_saga [termination_simp]: "size (else_saga a) < Suc (Suc (n + size a))"
  by (cases a) simp

text \<open>The arguments of \<open>RemoteSagaStep\<close> are \<open>on_execute\<close>, \<open>on_success\<close>, \<open>on_error\<close>, \<open>on_failure\<close>, those
  of \<open>LocalSagaStep\<close> are \<open>on_execute\<close>, \<open>on_failure\<close>.\<close>

definition parameterized :: "SagaOperation \<Rightarrow> bool" where
  "parameterized o' = (op_parameters o' \<noteq> None)"

text \<open>\<open>SagaOperation(callback, parameters, **kwargs)\<close>: the named arguments are used when no
  parameters are given.\<close>

definition SagaOperation_init :: "string \<Rightarrow> SagaContext option \<Rightarrow> SagaContext \<Rightarrow> SagaOperation" where
  "SagaOperation_init cb ps kw =
     \<lparr>op_callback = cb, op_parameters = (if ps = None \<and> kw \<noteq> [] then Some kw else ps)\<rparr>"

section \<open>Validation\<close>

fun validate_saga :: "Saga \<Rightarrow> saga_error + unit" and validate_step :: "SagaStep \<Rightarrow> saga_error + unit" where
  "validate_saga (Saga steps committed) =
     (if steps = [] then Inl EmptySagaException
      else (case checkE validate_step steps of
          Inl e \<Rightarrow> Inl e
        | Inr _ \<Rightarrow> if committed then Inr () else Inl SagaNotCommittedException))"
| "validate_step (RemoteSagaStep on_execute on_success on_error on_failure) =
     (if on_execute = None \<and> on_failure = None \<and> on_success = None \<and> on_error = None then Inl EmptySagaStepException
      else if on_execute = None then Inl UndefinedOnExecuteException else Inr ())"
| "validate_step (LocalSagaStep on_execute on_failure) =
     (if on_execute = None \<and> on_failure = None then Inl EmptySagaStepException
      else if on_execute = None then Inl UndefinedOnExecuteException else Inr ())"
| "validate_step (ConditionalSagaStep ifs els) =
     (if ifs = [] \<and> els = None then Inl EmptySagaStepException
      else (case checkE (\<lambda>a. validate_saga (if_saga a)) ifs of
          Inl e \<Rightarrow> Inl e
        | Inr _ \<Rightarrow> (case els of None \<Rightarrow> Inr () | Some a \<Rightarrow> validate_saga (else_saga a))))"

section \<open>The fluent interface\<close>

datatype step_class = RemoteClass | LocalClass | ConditionalClass

fun class_of :: "SagaStep \<Rightarrow> step_class" where
  "class_of (RemoteSagaStep _ _ _ _) = RemoteClass"
| "class_of (LocalSagaStep _ _) = LocalClass"
| "class_of (ConditionalSagaStep _ _) = ConditionalClass"

text \<open>\<open>step_cls(step, saga=self)\<close>.\<close>

fun new_step :: "step_class \<Rightarrow> SagaOperation option \<Rightarrow> SagaStep" where
  "new_step RemoteClass x = RemoteSagaStep x None None None"
| "new_step LocalClass x = LocalSagaStep x None"
| "new_step ConditionalClass x = ConditionalSagaStep [] None"

text \<open>The argument of the methods that add a step: nothing, a callback already wrapped in an
  operation, or a step and whether it belongs to a saga. \<open>conditional_step\<close> takes no operation.\<close>

datatype step_arg = NoStep | OpStep SagaOperation | GivenStep SagaStep bool

definition add_step :: "step_class \<Rightarrow> step_arg \<Rightarrow> Saga \<Rightarrow> saga_error + Saga" where
  "add_step cls arg sg =
     (if sg_committed sg then Inl AlreadyCommittedException
      else (case (case arg of
            NoStep \<Rightarrow> Inr (new_step cls None)
          | OpStep x \<Rightarrow> Inr (new_step cls (Some x))
          | GivenStep st attached \<Rightarrow>
              if class_of st \<noteq> cls then Inl (Agg TypeError)
              else if attached then Inl AlreadyOnSagaException else Inr st) of
          Inl e \<Rightarrow> Inl e
        | Inr st \<Rightarrow> Inr (Saga (sg_steps sg @ [st]) (sg_committed sg))))"

definition saga_commit :: "SagaOperation option \<Rightarrow> Saga \<Rightarrow> saga_error + Saga" where
  "saga_commit callback sg =
     (if sg_committed sg then Inl AlreadyCommittedException
      else (case callback of
          None \<Rightarrow> Inr (Saga (sg_steps sg) True)
        | Some x \<Rightarrow> (case add_step LocalClass (OpStep x) sg of
              Inl e \<Rightarrow> Inl e | Inr sg' \<Rightarrow> Inr (Saga (sg_steps sg') True))))"

definition set_once :: "saga_error \<Rightarrow> 'a \<Rightarrow> 'a option \<Rightarrow> saga_error + 'a option" where
  "set_once exc x slot = (if slot \<noteq> None then Inl exc else Inr (Some x))"

fun on_execute :: "SagaOperation \<Rightarrow> SagaStep \<Rightarrow> saga_error + SagaStep" where
  "on_execute x (RemoteSagaStep a b c d) =
     (case set_once MultipleOnExecuteException x a of Inl e \<Rightarrow> Inl e | Inr a' \<Rightarrow> Inr (RemoteSagaStep a' b c d))"
| "on_execute x (LocalSagaStep a b) =
     (case set_once MultipleOnExecuteException x a of Inl e \<Rightarrow> Inl e | Inr a' \<Rightarrow> Inr (LocalSagaStep a' b))"
| "on_execute x _ = Inl (Agg AttributeError)"

fun on_failure :: "SagaOperation \<Rightarrow> SagaStep \<Rightarrow> saga_error + SagaStep" where
  "on_failure x (RemoteSagaStep a b c d) =
     (case set_once MultipleOnFailureException x d of Inl e \<Rightarrow> Inl e | Inr d' \<Rightarrow> Inr (RemoteSagaStep a b c d'))"
| "on_failure x (LocalSagaStep a b) =
     (case set_once MultipleOnFailureException x b of Inl e \<Rightarrow> Inl e | Inr b' \<Rightarrow> Inr (LocalSagaStep a b'))"
| "on_failure x _ = Inl (Agg AttributeError)"

fun on_success :: "SagaOperation \<Rightarrow> SagaStep \<Rightarrow> saga_error + SagaStep" where
  "on_success x (RemoteSagaStep a b c d) =
     (case set_once MultipleOnSuccessException x b of Inl e \<Rightarrow> Inl e | Inr b' \<Rightarrow> Inr (RemoteSagaStep a b' c d))"
| "on_success x _ = Inl (Agg AttributeError)"

fun on_error :: "SagaOperation \<Rightarrow> SagaStep \<Rightarrow> saga_error + SagaStep" where
  "on_error x (RemoteSagaStep a b c d) =
     (case set_once MultipleOnErrorException x c of Inl e \<Rightarrow> Inl e | Inr c' \<Rightarrow> Inr (RemoteSagaStep a b c' d))"
| "on_error x _ = Inl (Agg AttributeError)"

fun if_then :: "SagaOperation \<Rightarrow> Saga \<Rightarrow> SagaStep \<Rightarrow> saga_error + SagaStep" where
  "if_then c s (ConditionalSagaStep ifs els) = Inr (ConditionalSagaStep (ifs @ [IfThenAlternative c s]) els)"
| "if_then c s _ = Inl (Agg AttributeError)"

fun else_then :: "Saga \<Rightarrow> SagaStep \<Rightarrow> saga_error + SagaStep" where
  "else_then s (ConditionalSagaStep ifs els) =
     (case set_once MultipleElseThenException (ElseThenAlternative s) els of
        Inl e \<Rightarrow> Inl e | Inr els' \<Rightarrow> Inr (ConditionalSagaStep ifs els'))"
| "else_then s _ = Inl (Agg AttributeError)"

text \<open>
  One call of a chain \<open>Saga().local_step(...).on_failure(...).remote_step(...). ... .commit()\<close>. The
  receiver is the last step; it is the saga itself at the start, when there is no step, and after
  \<open>commit\<close>. A step checks itself before it adds another step or commits; \<open>None\<close> for \<open>attached\<close>-less
  steps does not arise, since every step of a chain has its saga.
\<close>

datatype fluent_call =
    AddStep step_class step_arg
  | OnExecute SagaOperation | OnFailure SagaOperation | OnSuccess SagaOperation | OnError SagaOperation
  | IfThen SagaOperation Saga | ElseThen Saga
  | Commit "SagaOperation option"

definition on_last :: "(SagaStep \<Rightarrow> saga_error + SagaStep) \<Rightarrow> Saga \<Rightarrow> saga_error + Saga" where
  "on_last f sg =
     (if sg_steps sg = [] \<or> sg_committed sg then Inl (Agg AttributeError)
      else (case f (last (sg_steps sg)) of
          Inl e \<Rightarrow> Inl e | Inr st \<Rightarrow> Inr (Saga (butlast (sg_steps sg) @ [st]) (sg_committed sg))))"

definition checked :: "(Saga \<Rightarrow> saga_error + Saga) \<Rightarrow> Saga \<Rightarrow> saga_error + Saga" where
  "checked k sg =
     (if sg_steps sg = [] \<or> sg_committed sg then k sg
      else (case validate_step (last (sg_steps sg)) of Inl e \<Rightarrow> Inl e | Inr _ \<Rightarrow> k sg))"

fun fluent :: "fluent_call \<Rightarrow> Saga \<Rightarrow> saga_error + Saga" where
  "fluent (AddStep cls arg) sg = checked (add_step cls arg) sg"
| "fluent (OnExecute x) sg = on_last (on_execute x) sg"
| "fluent (OnFailure x) sg = on_last (on_failure x) sg"
| "fluent (OnSuccess x) sg = on_last (on_success x) sg"
| "fluent (OnError x) sg = on_last (on_error x) sg"
| "fluent (IfThen c s) sg = on_last (if_then c s) sg"
| "fluent (ElseThen s) sg = on_last (else_then s) sg"
| "fluent (Commit cb) sg = checked (saga_commit cb) sg"

fun fluent_chain :: "fluent_call list \<Rightarrow> Saga \<Rightarrow> saga_error + Saga" where
  "fluent_chain [] sg = Inr sg"
| "fluent_chain (c # cs) sg = (case fluent c sg of Inl e \<Rightarrow> Inl e | Inr sg' \<Rightarrow> fluent_chain cs sg')"


section \<open>Serialized form\<close>

text \<open>
  \<open>rv_import\<close> stands for \<open>import_module\<close>, \<open>rv_context_str\<close> and \<open>rv_context_of\<close> for \<open>avro_str\<close> and
  \<open>from_avro_str\<close> of a context.
\<close>

record raw_env =
  rv_import :: "string \<Rightarrow> saga_error + string"
  rv_context_str :: "SagaContext \<Rightarrow> string"
  rv_context_of :: "string \<Rightarrow> saga_error + SagaContext"

definition operation_raw :: "raw_env \<Rightarrow> SagaOperation \<Rightarrow> raw" where
  "operation_raw E x = RDict ((''callback'', RStr (op_callback x)) #
     (case op_parameters x of None \<Rightarrow> [] | Some ps \<Rightarrow> [(''parameters'', RStr (rv_context_str E ps))]))"

definition operation_option_raw :: "raw_env \<Rightarrow> SagaOperation option \<Rightarrow> raw" where
  "operation_option_raw E x = (case x of None \<Rightarrow> RNone | Some y \<Rightarrow> operation_raw E y)"

definition remote_classname :: string where "remote_classname = ''minos.saga.definitions.steps.remote.RemoteSagaStep''"
definition local_classname :: string where "local_classname = ''minos.saga.definitions.steps.local.LocalSagaStep''"
definition conditional_classname :: string where
  "conditional_classname = ''minos.saga.definitions.steps.conditional.ConditionalSagaStep''"

fun saga_raw :: "raw_env \<Rightarrow> Saga \<Rightarrow> raw" and step_raw :: "raw_env \<Rightarrow> SagaStep \<Rightarrow> raw"
  and if_then_raw :: "raw_env \<Rightarrow> IfThenAlternative \<Rightarrow> raw" and else_then_raw :: "raw_env \<Rightarrow> ElseThenAlternative \<Rightarrow> raw" where
  "saga_raw E (Saga steps committed) =
     RDict [(''steps'', RList (map (step_raw E) steps)), (''committed'', RBool committed)]"
| "step_raw E (RemoteSagaStep execute success error failure) =
     RDict [(''cls'', RStr remote_classname),
       (''on_execute'', operation_option_raw E execute), (''on_failure'', operation_option_raw E failure),
       (''on_success'', operation_option_raw E success), (''on_error'', operation_option_raw E error)]"
| "step_raw E (LocalSagaStep execute failure) =
     RDict [(''cls'', RStr local_classname),
       (''on_execute'', operation_option_raw E execute), (''on_failure'', operation_option_raw E failure)]"
| "step_raw E (ConditionalSagaStep ifs els) =
     RDict [(''cls'', RStr conditional_classname), (''if_then'', RList (map (if_then_raw E) ifs)),
       (''else_then'', case els of None \<Rightarrow> RNone | Some a \<Rightarrow> else_then_raw E a)]"
| "if_then_raw E (IfThenAlternative c s) = RDict [(''condition'', operation_raw E c), (''saga'', saga_raw E s)]"
| "else_then_raw E (ElseThenAlternative s) = RDict [(''saga'', saga_raw E s)]"

definition operation_from_raw :: "raw_env \<Rightarrow> raw \<Rightarrow> saga_error + SagaOperation" where
  "operation_from_raw E r = (case raw_item r ''callback'' of
     Inl e \<Rightarrow> Inl e
   | Inr cb \<Rightarrow> (case raw_str cb of
       Inl e \<Rightarrow> Inl e
     | Inr name \<Rightarrow> (case rv_import E name of
         Inl e \<Rightarrow> Inl e
       | Inr f \<Rightarrow> (case raw_item r ''parameters'' of
           Inl _ \<Rightarrow> Inr \<lparr>op_callback = f, op_parameters = None\<rparr>
         | Inr ps \<Rightarrow> (case raw_str ps of
             Inl e \<Rightarrow> Inl e
           | Inr s \<Rightarrow> (case rv_context_of E s of
               Inl e \<Rightarrow> Inl e | Inr c \<Rightarrow> Inr \<lparr>op_callback = f, op_parameters = Some c\<rparr>))))))"

text \<open>\<open>SagaOperation.from_raw(raw[key])\<close>: a missing key is a \<open>KeyError\<close>, \<open>None\<close> stays \<open>None\<close>.\<close>

definition operation_at :: "raw_env \<Rightarrow> raw \<Rightarrow> string \<Rightarrow> saga_error + SagaOperation option" where
  "operation_at E r k = (case raw_item r k of
     Inl e \<Rightarrow> Inl e
   | Inr RNone \<Rightarrow> Inr None
   | Inr x \<Rightarrow> (case operation_from_raw E x of Inl e \<Rightarrow> Inl e | Inr y \<Rightarrow> Inr (Some y)))"

definition remote_from_raw :: "raw_env \<Rightarrow> raw \<Rightarrow> saga_error + SagaStep" where
  "remote_from_raw E r = (case operation_at E r ''on_execute'' of
     Inl e \<Rightarrow> Inl e
   | Inr a \<Rightarrow> (case operation_at E r ''on_failure'' of
       Inl e \<Rightarrow> Inl e
     | Inr d \<Rightarrow> (case operation_at E r ''on_success'' of
         Inl e \<Rightarrow> Inl e
       | Inr b \<Rightarrow> (case operation_at E r ''on_error'' of
           Inl e \<Rightarrow> Inl e | Inr c \<Rightarrow> Inr (RemoteSagaStep a b c d)))))"

definition local_from_raw :: "raw_env \<Rightarrow> raw \<Rightarrow> saga_error + SagaStep" where
  "local_from_raw E r = (case operation_at E r ''on_execute'' of
     Inl e \<Rightarrow> Inl e
   | Inr a \<Rightarrow> (case operation_at E r ''on_failure'' of Inl e \<Rightarrow> Inl e | Inr b \<Rightarrow> Inr (LocalSagaStep a b)))"

lemma size_raw_item: "raw_item r k = Inr x \<Longrightarrow> size x < size r"
proof (cases r)
  case (RDict d)
  assume "raw_item r k = Inr x"
  with RDict have "(k, x) \<in> set d" by (auto split: option.splits dest: map_of_SomeD)
  then have "size x \<le> size_list (size_prod (\<lambda>x. 0) size) d"
    by (induction d) auto
  with RDict show "size x < size r" by simp
qed simp_all

lemma size_raw_list: "raw_list x = Inr rs \<Longrightarrow> y \<in> set rs \<Longrightarrow> size y < size x"
  by (cases x) (auto dest: size_list_estimation' [where f = size])

function saga_from_raw :: "raw_env \<Rightarrow> raw \<Rightarrow> saga_error + Saga"
  and step_from_raw :: "raw_env \<Rightarrow> raw \<Rightarrow> saga_error + SagaStep"
  and if_then_from_raw :: "raw_env \<Rightarrow> raw \<Rightarrow> saga_error + IfThenAlternative"
  and else_then_from_raw :: "raw_env \<Rightarrow> raw \<Rightarrow> saga_error + ElseThenAlternative" where
  "saga_from_raw E r = (case raw_item r ''steps'' of
     Inl e \<Rightarrow> Inl e
   | Inr x \<Rightarrow> (case raw_list x of
       Inl e \<Rightarrow> Inl e
     | Inr rs \<Rightarrow> (case mapE (step_from_raw E) rs of
         Inl e \<Rightarrow> Inl e
       | Inr steps \<Rightarrow> (case raw_bool (raw_get r ''committed'' (RBool False)) of
           Inl e \<Rightarrow> Inl e | Inr b \<Rightarrow> Inr (Saga steps b)))))"
| "step_from_raw E r = (case raw_item r ''cls'' of
     Inl (Agg KeyError) \<Rightarrow> Inl NotImplementedError
   | Inl _ \<Rightarrow> Inl (Agg AttributeError)
   | Inr c \<Rightarrow> (case raw_str c of
       Inl e \<Rightarrow> Inl e
     | Inr name \<Rightarrow>
        (if name = remote_classname then remote_from_raw E r
         else if name = local_classname then local_from_raw E r
         else if name = conditional_classname then
          (case (case raw_item r ''if_then'' of
              Inl _ \<Rightarrow> Inr []
            | Inr RNone \<Rightarrow> Inr []
            | Inr x \<Rightarrow> (case raw_list x of Inl e \<Rightarrow> Inl e | Inr rs \<Rightarrow> mapE (if_then_from_raw E) rs)) of
            Inl e \<Rightarrow> Inl e
          | Inr ifs \<Rightarrow>
             (case raw_item r ''else_then'' of
                Inl _ \<Rightarrow> Inr (ConditionalSagaStep ifs None)
              | Inr RNone \<Rightarrow> Inr (ConditionalSagaStep ifs None)
              | Inr x \<Rightarrow> (case else_then_from_raw E x of
                  Inl e \<Rightarrow> Inl e | Inr a \<Rightarrow> Inr (ConditionalSagaStep ifs (Some a)))))
         else (case rv_import E name of Inl e \<Rightarrow> Inl e | Inr _ \<Rightarrow> Inl (Agg TypeError)))))"
| "if_then_from_raw E r = (case raw_item r ''condition'' of
     Inl e \<Rightarrow> Inl e
   | Inr x \<Rightarrow> (case operation_from_raw E x of
       Inl e \<Rightarrow> Inl e
     | Inr c \<Rightarrow> (case raw_item r ''saga'' of
         Inl e \<Rightarrow> Inl e
       | Inr y \<Rightarrow> (case saga_from_raw E y of Inl e \<Rightarrow> Inl e | Inr s \<Rightarrow> Inr (IfThenAlternative c s)))))"
| "else_then_from_raw E r = (case raw_item r ''saga'' of
     Inl e \<Rightarrow> Inl e
   | Inr y \<Rightarrow> (case saga_from_raw E y of Inl e \<Rightarrow> Inl e | Inr s \<Rightarrow> Inr (ElseThenAlternative s)))"
  by pat_completeness auto
termination
  by (relation "measure (\<lambda>x. case x of Inl (Inl (E, r)) \<Rightarrow> size r | Inl (Inr (E, r)) \<Rightarrow> size r
        | Inr (Inl (E, r)) \<Rightarrow> size r | Inr (Inr (E, r)) \<Rightarrow> size r)")
    (auto dest!: size_raw_item size_raw_list, auto dest: size_list_estimation' [where f = size])

declare saga_from_raw.simps [simp del] step_from_raw.simps [simp del]
  if_then_from_raw.simps [simp del] else_then_from_raw.simps [simp del]

text \<open>Round trip.\<close>

fun saga_operations :: "Saga \<Rightarrow> SagaOperation list" and step_operations :: "SagaStep \<Rightarrow> SagaOperation list" where
  "saga_operations (Saga steps _) = concat (map step_operations steps)"
| "step_operations (RemoteSagaStep a b c d) = concat (map (\<lambda>x. case x of None \<Rightarrow> [] | Some y \<Rightarrow> [y]) [a, b, c, d])"
| "step_operations (LocalSagaStep a b) = concat (map (\<lambda>x. case x of None \<Rightarrow> [] | Some y \<Rightarrow> [y]) [a, b])"
| "step_operations (ConditionalSagaStep ifs els) =
     concat (map (\<lambda>a. if_condition a # saga_operations (if_saga a)) ifs)
     @ (case els of None \<Rightarrow> [] | Some a \<Rightarrow> saga_operations (else_saga a))"

definition operation_ok :: "raw_env \<Rightarrow> SagaOperation \<Rightarrow> bool" where
  "operation_ok E x \<longleftrightarrow> rv_import E (op_callback x) = Inr (op_callback x)
    \<and> (\<forall>ps. op_parameters x = Some ps \<longrightarrow> rv_context_of E (rv_context_str E ps) = Inr ps)"

lemma operation_roundtrip [simp]: "operation_ok E x \<Longrightarrow> operation_from_raw E (operation_raw E x) = Inr x"
  by (cases x) (auto simp: operation_from_raw_def operation_raw_def operation_ok_def split: option.splits)

lemma operation_at_raw:
  "raw_item r k = Inr (operation_option_raw E x) \<Longrightarrow> (\<And>y. x = Some y \<Longrightarrow> operation_ok E y) \<Longrightarrow> operation_at E r k = Inr x"
  by (cases x) (auto simp: operation_at_def operation_option_raw_def operation_raw_def [of E] split: raw.splits
      dest: operation_roundtrip)

lemma saga_roundtrip:
  "(\<forall>x \<in> set (saga_operations s). operation_ok E x) \<Longrightarrow> saga_from_raw E (saga_raw E s) = Inr s"
  "(\<forall>x \<in> set (step_operations st). operation_ok E x) \<Longrightarrow> step_from_raw E (step_raw E st) = Inr st"
  "(\<forall>x \<in> set (if_condition i # saga_operations (if_saga i)). operation_ok E x) \<Longrightarrow> if_then_from_raw E (if_then_raw E i) = Inr i"
  "(\<forall>x \<in> set (saga_operations (else_saga l)). operation_ok E x) \<Longrightarrow> else_then_from_raw E (else_then_raw E l) = Inr l"
proof (induction E s and E st and E i and E l rule: saga_raw_step_raw_if_then_raw_else_then_raw.induct)
  case (1 E steps committed)
  then have "mapE (step_from_raw E) (map (step_raw E) steps) = Inr (map id steps)"
    by (intro mapE_map) auto
  then show ?case by (simp add: saga_from_raw.simps raw_get_def)
next
  case (2 E a b c d)
  then show ?case
    by (simp add: step_from_raw.simps remote_from_raw_def operation_at_raw remote_classname_def)
next
  case (3 E a b)
  then show ?case
    by (simp add: step_from_raw.simps local_from_raw_def operation_at_raw local_classname_def remote_classname_def)
next
  case (4 E ifs els)
  from 4(3) have ops: "operation_ok E (if_condition a) \<and> (\<forall>x \<in> set (saga_operations (if_saga a)). operation_ok E x)"
    if "a \<in> set ifs" for a
    using that by auto
  have "mapE (if_then_from_raw E) (map (if_then_raw E) ifs) = Inr (map id ifs)"
    using 4(1) ops by (intro mapE_map) simp
  with 4 show ?case
    by (cases els; cases "the els") (simp_all add: step_from_raw.simps local_classname_def remote_classname_def conditional_classname_def split: raw.splits)
next
  case (5 E c s)
  then show ?case by (simp add: if_then_from_raw.simps)
next
  case (6 E s)
  then show ?case by (simp add: else_then_from_raw.simps)
qed

end
