(* ===== verification/Saga_Executors.thy ===== *)
theory Saga_Executors
  imports Saga_Definitions Transactions
begin

text \<open>
  The executors (\<open>executions/executors\<close>): how the callbacks of a step are run. Every callback runs
  inside a transaction of the aggregate package whose identifier is the one of the execution, so
  the events it submits belong to the saga and are reserved, committed or rejected with it.

  The record \<open>saga_env\<close> holds what the executors call and this package does not define: the
  repositories of the aggregate package, the application's callbacks, whether the broker publisher
  takes a message after those already sent, and the messages that arrive within the timeout at the
  client the reserve messages are sent with. A callback acts on the world of the aggregate package and may
  raise. \<open>sv_local\<close> also returns what the call left in the copy of the context it was given.
  Conditions do not change the context, as their type says. The record \<open>saga_world\<close> is what the
  package reads and writes: the world, the messages published, the context variables of the
  request and the storage of the paused executions.
\<close>

record ('e, 't) saga_world =
  sw_world :: "('e, 't) world"
  sw_out :: "BrokerMessage list"
  sw_headers :: "(string, string) dict option"
  sw_reply_topic :: "string option"
  sw_user :: "uuid option"
  sw_storage :: "(uuid, raw) dict"

type_synonym ('e, 't, 'a) cop = "(('e, 't) world, saga_error, 'a) op"
type_synonym ('e, 't, 'a) sop = "(('e, 't) saga_world, saga_error, 'a) op"

record ('e, 't) saga_env =
  sv_repos :: "('e, 't) repos"
  sv_name :: string
  sv_pool_topic :: string
  sv_local :: "string \<Rightarrow> SagaContext \<Rightarrow> SagaContext \<Rightarrow> ('e, 't, SagaContext \<times> SagaContext option) cop"
  sv_request :: "string \<Rightarrow> SagaContext \<Rightarrow> SagaContext \<Rightarrow> ('e, 't, SagaRequest) cop"
  sv_response :: "string \<Rightarrow> SagaContext \<Rightarrow> SagaContext \<Rightarrow> SagaResponse \<Rightarrow> ('e, 't, saga_error + SagaContext) cop"
  sv_condition :: "string \<Rightarrow> SagaContext \<Rightarrow> SagaContext \<Rightarrow> ('e, 't, bool) cop"
  sv_sends :: "BrokerMessage list \<Rightarrow> BrokerMessage \<Rightarrow> bool"
  sv_replies :: "BrokerMessage list \<Rightarrow> BrokerMessage list"
  sv_raw :: raw_env

section \<open>Running a callback\<close>

definition on_world :: "('e, 't, 'a) cop \<Rightarrow> ('e, 't, 'a) sop" where
  "on_world m = (\<lambda>s. case m (sw_world s) of (r, w) \<Rightarrow> (r, s\<lparr>sw_world := w\<rparr>))"

definition aggE :: "('e, 't, 'a) wop \<Rightarrow> ('e, 't, 'a) cop" where
  "aggE m = (\<lambda>w. case m w of (Inl x, w') \<Rightarrow> (Inl (Agg x), w') | (Inr a, w') \<Rightarrow> (Inr a, w'))"

text \<open>\<open>async with TransactionEntry(uuid=..., autocommit=False): m\<close>. Leaving the block happens after an
  exception too; it does not happen when entering failed.\<close>

definition in_transaction :: "('e, 't) repos \<Rightarrow> uuid \<Rightarrow> ('e, 't, 'a) cop \<Rightarrow> ('e, 't, 'a) cop" where
  "in_transaction R u m =
     bindE (aggE (TransactionEntry_init R (Some u) StatusNone None None None False)) (\<lambda>e w.
     (case aenter R (e, w) of
        (Inl x, (_, w1)) \<Rightarrow> (Inl (Agg x), w1)
      | (Inr _, (e1, w1)) \<Rightarrow> (case m w1 of (r, w2) \<Rightarrow>
          (case aexit R (e1, w2) of
             (Inl x, (_, w3)) \<Rightarrow> (Inl (Agg x), w3)
           | (Inr _, (_, w3)) \<Rightarrow> (r, w3)))))"

definition exec_function :: "('e, 't) repos \<Rightarrow> uuid \<Rightarrow> ('e, 't, 'a) cop \<Rightarrow> ('e, 't, 'a) cop" where
  "exec_function R u m = catchE (in_transaction R u m) (\<lambda>x. Some (raiseE (ExecutorException x)))"

text \<open>\<open>Executor.exec\<close>: the parameters of the operation become named arguments.\<close>

definition exec :: "('e, 't) saga_env \<Rightarrow> uuid \<Rightarrow> (string \<Rightarrow> SagaContext \<Rightarrow> ('e, 't, 'a) cop) \<Rightarrow> SagaOperation \<Rightarrow> ('e, 't, 'a) sop" where
  "exec V u call x = on_world (exec_function (sv_repos V) u
     (call (op_callback x) (case op_parameters x of None \<Rightarrow> [] | Some ps \<Rightarrow> ps)))"

text \<open>\<open>except ExecutorException as exc: raise SagaFailedExecutionStepException(exc.exception)\<close>.\<close>

definition as_failed_step :: "('e, 't, 'a) sop \<Rightarrow> ('e, 't, 'a) sop" where
  "as_failed_step m = catchE m (\<lambda>x. case x of
     ExecutorException y \<Rightarrow> Some (raiseE (SagaFailedExecutionStepException y)) | _ \<Rightarrow> None)"

definition local_exec :: "('e, 't) saga_env \<Rightarrow> uuid \<Rightarrow> SagaOperation option \<Rightarrow> SagaContext \<Rightarrow> ('e, 't, SagaContext) sop" where
  "local_exec V u operation c = (case operation of
     None \<Rightarrow> retE c
   | Some x \<Rightarrow>
      bindE (as_failed_step (bindE (liftE (SagaContext_init c)) (\<lambda>c'. exec V u (\<lambda>cb ps. sv_local V cb ps c') x)))
        (\<lambda>(c', new). retE (case new of None \<Rightarrow> c' | Some n \<Rightarrow> n)))"

section \<open>Requests\<close>

definition send :: "('e, 't) saga_env \<Rightarrow> BrokerMessage \<Rightarrow> ('e, 't, unit) sop" where
  "send V m = (\<lambda>s. if sv_sends V (sw_out s) m then (Inr (), s\<lparr>sw_out := sw_out s @ [m]\<rparr>)
     else (Inl (Raised ''publisher''), s))"

definition publish_headers :: "uuid \<Rightarrow> uuid option \<Rightarrow> (string, string) dict \<Rightarrow> (string, string) dict" where
  "publish_headers u user h =
     (let h = dict_set ''saga'' (uuid_str u) h;
          h = (case user of None \<Rightarrow> h | Some v \<Rightarrow> dict_set ''user'' (uuid_str v) h)
      in case dict_get h ''transactions'' of
           None \<Rightarrow> dict_set ''transactions'' (uuid_str u) h
         | Some t \<Rightarrow> dict_set ''transactions'' (if t = [] then uuid_str u else t @ CHR '','' # uuid_str u) h)"

definition request_message :: "('e, 't) saga_env \<Rightarrow> ('e, 't) saga_world \<Rightarrow> uuid \<Rightarrow> uuid option \<Rightarrow> SagaRequest \<Rightarrow> BrokerMessage" where
  "request_message V s u user rq =
     \<lparr>bm_topic = rq_target rq, bm_content = rq_content rq,
      bm_headers = publish_headers u user (case sw_headers s of None \<Rightarrow> [] | Some d \<Rightarrow> d),
      bm_reply_topic = Some (case sw_reply_topic s of None \<Rightarrow> sv_name V @ ''Reply'' | Some t \<Rightarrow> t),
      bm_status = 200\<rparr>"

definition publish :: "('e, 't) saga_env \<Rightarrow> uuid \<Rightarrow> uuid option \<Rightarrow> SagaRequest \<Rightarrow> ('e, 't, unit) sop" where
  "publish V u user rq =
     bindE (getsE (\<lambda>s. request_message V s u user rq)) (\<lambda>m.
     catchE (send V m) (\<lambda>x. Some (raiseE (ExecutorException x))))"

definition request_exec :: "('e, 't) saga_env \<Rightarrow> uuid \<Rightarrow> uuid option \<Rightarrow> SagaOperation option \<Rightarrow> SagaContext \<Rightarrow> ('e, 't, unit) sop" where
  "request_exec V u user operation c = (case operation of
     None \<Rightarrow> retE ()
   | Some x \<Rightarrow> as_failed_step (bindE (liftE (SagaContext_init c)) (\<lambda>c'.
       bindE (exec V u (\<lambda>cb ps. sv_request V cb ps c') x) (\<lambda>rq. publish V u user rq))))"

section \<open>Responses\<close>

definition response_exec :: "('e, 't) saga_env \<Rightarrow> uuid \<Rightarrow> SagaOperation option \<Rightarrow> SagaContext \<Rightarrow> SagaResponse \<Rightarrow> ('e, 't, SagaContext) sop" where
  "response_exec V u operation c rs = (case operation of
     None \<Rightarrow> retE c
   | Some x \<Rightarrow>
      bindE (as_failed_step (bindE (liftE (SagaContext_init c)) (\<lambda>c'. exec V u (\<lambda>cb ps. sv_response V cb ps c' rs) x)))
        (\<lambda>r. case r of Inl y \<Rightarrow> raiseE (SagaFailedExecutionStepException y) | Inr c'' \<Rightarrow> retE c''))"

end
