(* ===== verification/Saga_Executions.thy ===== *)
theory Saga_Executions
  imports Saga_Executors
begin

text \<open>
  Saga executions: the executions of the three kinds of steps (\<open>executions/steps\<close>), the
  \<open>TransactionCommitter\<close> (\<open>executions/commit.py\<close>) and \<open>SagaExecution\<close> (\<open>executions/saga.py\<close>).

  A method of a step execution or of a saga execution changes the object and the world, and keeps
  what it changed when it raises. An execution and the steps it executes contain each other: a
  conditional step that was entered holds the execution of the saga it chose.
\<close>

datatype SagaExecution = SagaExecution (sx_uuid: uuid) (sx_definition: Saga) (sx_executed: "SagaStepExecution list")
    (sx_context: SagaContext) (sx_status: SagaStatus) (sx_already_rollback: bool)
    (sx_paused: "SagaStepExecution option") (sx_user: "uuid option")
and SagaStepExecution = SagaStepExecution (sp_definition: SagaStep) (sp_status: SagaStepStatus)
    (sp_already_rollback: bool) (sp_related: "string list") (sp_inner: "SagaExecution option")

text \<open>Attribute assignments.\<close>

fun set_uuid :: "uuid \<Rightarrow> SagaExecution \<Rightarrow> SagaExecution" where
  "set_uuid v (SagaExecution u d es c st ar p us) = SagaExecution v d es c st ar p us"
fun set_executed :: "SagaStepExecution list \<Rightarrow> SagaExecution \<Rightarrow> SagaExecution" where
  "set_executed v (SagaExecution u d es c st ar p us) = SagaExecution u d v c st ar p us"
fun set_context :: "SagaContext \<Rightarrow> SagaExecution \<Rightarrow> SagaExecution" where
  "set_context v (SagaExecution u d es c st ar p us) = SagaExecution u d es v st ar p us"
fun set_status :: "SagaStatus \<Rightarrow> SagaExecution \<Rightarrow> SagaExecution" where
  "set_status v (SagaExecution u d es c st ar p us) = SagaExecution u d es c v ar p us"
fun set_already :: "bool \<Rightarrow> SagaExecution \<Rightarrow> SagaExecution" where
  "set_already v (SagaExecution u d es c st ar p us) = SagaExecution u d es c st v p us"
fun set_paused :: "SagaStepExecution option \<Rightarrow> SagaExecution \<Rightarrow> SagaExecution" where
  "set_paused v (SagaExecution u d es c st ar p us) = SagaExecution u d es c st ar v us"
fun set_user :: "uuid option \<Rightarrow> SagaExecution \<Rightarrow> SagaExecution" where
  "set_user v (SagaExecution u d es c st ar p us) = SagaExecution u d es c st ar p v"

fun set_step_status :: "SagaStepStatus \<Rightarrow> SagaStepExecution \<Rightarrow> SagaStepExecution" where
  "set_step_status v (SagaStepExecution d st ar rel i) = SagaStepExecution d v ar rel i"
fun set_step_already :: "bool \<Rightarrow> SagaStepExecution \<Rightarrow> SagaStepExecution" where
  "set_step_already v (SagaStepExecution d st ar rel i) = SagaStepExecution d st v rel i"
fun set_related :: "string list \<Rightarrow> SagaStepExecution \<Rightarrow> SagaStepExecution" where
  "set_related v (SagaStepExecution d st ar rel i) = SagaStepExecution d st ar v i"
fun set_inner :: "SagaExecution option \<Rightarrow> SagaStepExecution \<Rightarrow> SagaStepExecution" where
  "set_inner v (SagaStepExecution d st ar rel i) = SagaStepExecution d st ar rel v"

text \<open>The execution inside a conditional step takes over the identifier, the user when there is one,
  and the context of the outer one.\<close>

definition adopt :: "uuid \<Rightarrow> uuid option \<Rightarrow> SagaContext \<Rightarrow> SagaExecution \<Rightarrow> SagaExecution" where
  "adopt u user c x = set_context c ((case user of None \<Rightarrow> id | Some v \<Rightarrow> set_user (Some v)) (set_uuid u x))"

type_synonym ('e, 't, 'a) spop = "(SagaStepExecution \<times> ('e, 't) saga_world, saga_error, 'a) op"
type_synonym ('e, 't, 'a) sxop = "(SagaExecution \<times> ('e, 't) saga_world, saga_error, 'a) op"

definition outside :: "('e, 't, 'a) sop \<Rightarrow> ('x \<times> ('e, 't) saga_world, saga_error, 'a) op" where
  "outside m = (\<lambda>(x, s). case m s of (r, s') \<Rightarrow> (r, (x, s')))"

definition selfs :: "('x \<Rightarrow> 'a) \<Rightarrow> ('x \<times> 's, 'err, 'a) op" where
  "selfs f = getsE (\<lambda>(x, s). f x)"

definition assigns :: "('x \<Rightarrow> 'x) \<Rightarrow> ('x \<times> 's, 'err, unit) op" where
  "assigns f = modifyE (\<lambda>(x, s). (f x, s))"

section \<open>Local steps\<close>

fun execute_operation :: "SagaStep \<Rightarrow> SagaOperation option" where
  "execute_operation (RemoteSagaStep a b c d) = a"
| "execute_operation (LocalSagaStep a b) = a"
| "execute_operation _ = None"

fun failure_operation :: "SagaStep \<Rightarrow> SagaOperation option" where
  "failure_operation (RemoteSagaStep a b c d) = d"
| "failure_operation (LocalSagaStep a b) = b"
| "failure_operation _ = None"

fun success_operation :: "SagaStep \<Rightarrow> SagaOperation option" where
  "success_operation (RemoteSagaStep a b c d) = b"
| "success_operation _ = None"

fun error_operation :: "SagaStep \<Rightarrow> SagaOperation option" where
  "error_operation (RemoteSagaStep a b c d) = c"
| "error_operation _ = None"

definition add_service :: "('e, 't) saga_env \<Rightarrow> ('e, 't, unit) spop" where
  "add_service V = assigns (\<lambda>p. set_related (adds (sv_name V) (sp_related p)) p)"

text \<open>\<open>except SagaFailedExecutionStepException as exc: h; raise exc\<close>.\<close>

definition on_failed :: "('s, saga_error, 'a) op \<Rightarrow> ('s, saga_error, unit) op \<Rightarrow> ('s, saga_error, 'a) op" where
  "on_failed m h = catchE m (\<lambda>x. case x of
     SagaFailedExecutionStepException y \<Rightarrow> Some (bindE h (\<lambda>_. raiseE x)) | _ \<Rightarrow> None)"

definition local_execute :: "('e, 't) saga_env \<Rightarrow> uuid \<Rightarrow> SagaContext \<Rightarrow> ('e, 't, SagaContext) spop" where
  "local_execute V u c =
     bindE (selfs id) (\<lambda>p.
     if sp_status p \<noteq> StepCreated then retE c else
     bindE (assigns (set_step_status RunningOnExecute)) (\<lambda>_.
     bindE (add_service V) (\<lambda>_.
     bindE (on_failed (outside (local_exec V u (execute_operation (sp_definition p)) c))
              (assigns (set_step_status ErroredOnExecute))) (\<lambda>c'.
     bindE (assigns (set_step_status StepFinished)) (\<lambda>_. retE c')))))"

text \<open>The first two checks of every \<open>rollback\<close> of a step.\<close>

definition check_rollback :: "('e, 't, SagaStepExecution) spop" where
  "check_rollback = bindE (selfs id) (\<lambda>p.
     if sp_status p = StepCreated \<or> sp_already_rollback p then raiseE SagaRollbackExecutionStepException else retE p)"

definition local_rollback :: "('e, 't) saga_env \<Rightarrow> uuid \<Rightarrow> SagaContext \<Rightarrow> ('e, 't, SagaContext) spop" where
  "local_rollback V u c =
     bindE check_rollback (\<lambda>p.
     bindE (add_service V) (\<lambda>_.
     bindE (outside (local_exec V u (failure_operation (sp_definition p)) c)) (\<lambda>c'.
     bindE (assigns (set_step_already True)) (\<lambda>_. retE c'))))"

section \<open>Remote steps\<close>

definition remote_rollback :: "('e, 't) saga_env \<Rightarrow> uuid \<Rightarrow> uuid option \<Rightarrow> SagaContext \<Rightarrow> ('e, 't, SagaContext) spop" where
  "remote_rollback V u user c =
     bindE check_rollback (\<lambda>p.
     bindE (outside (request_exec V u user (failure_operation (sp_definition p)) c)) (\<lambda>_.
     bindE (assigns (set_step_already True)) (\<lambda>_. retE c)))"

definition execute_on_execute :: "('e, 't) saga_env \<Rightarrow> uuid \<Rightarrow> uuid option \<Rightarrow> SagaContext \<Rightarrow> ('e, 't, unit) spop" where
  "execute_on_execute V u user c =
     bindE (selfs id) (\<lambda>p.
     if sp_status p \<noteq> StepCreated then retE () else
     bindE (assigns (set_step_status RunningOnExecute)) (\<lambda>_.
     bindE (add_service V) (\<lambda>_.
     bindE (on_failed (outside (request_exec V u user (execute_operation (sp_definition p)) c))
              (assigns (set_step_status ErroredOnExecute))) (\<lambda>_.
     assigns (set_step_status FinishedOnExecute)))))"

text \<open>\<open>_execute_on_success\<close> and \<open>_execute_on_error\<close> differ in the operation and the two statuses.\<close>

definition execute_on_response :: "('e, 't) saga_env \<Rightarrow> uuid \<Rightarrow> uuid option \<Rightarrow> (SagaStep \<Rightarrow> SagaOperation option)
    \<Rightarrow> SagaStepStatus \<Rightarrow> SagaStepStatus \<Rightarrow> SagaContext \<Rightarrow> SagaResponse \<Rightarrow> ('e, 't, SagaContext) spop" where
  "execute_on_response V u user operation running errored c rs =
     bindE (assigns (set_step_status running)) (\<lambda>_.
     bindE (add_service V) (\<lambda>_.
     bindE (selfs sp_definition) (\<lambda>d.
     on_failed (outside (response_exec V u (operation d) c rs))
       (bindE (assigns (set_step_status errored)) (\<lambda>_.
        bindE (remote_rollback V u user c) (\<lambda>_. retE ()))))))"

definition remote_execute :: "('e, 't) saga_env \<Rightarrow> uuid \<Rightarrow> uuid option \<Rightarrow> SagaResponse option \<Rightarrow> SagaContext \<Rightarrow> ('e, 't, SagaContext) spop" where
  "remote_execute V u user response c =
     bindE (execute_on_execute V u user c) (\<lambda>_.
     case response of
       None \<Rightarrow> bindE (assigns (set_step_status PausedByOnExecute)) (\<lambda>_. raiseE SagaPausedExecutionStepException)
     | Some rs \<Rightarrow>
         bindE (assigns (\<lambda>p. set_related (unions (sp_related p) (rs_related_services rs)) p)) (\<lambda>_.
         if rs_status rs = SYSTEM_ERROR then
           bindE (assigns (set_step_status ErroredByOnExecute))
             (\<lambda>_. raiseE (SagaFailedExecutionStepException SagaResponseException))
         else
           bindE (if rs_status rs = SUCCESS
                  then execute_on_response V u user success_operation RunningOnSuccess ErroredOnSuccess c rs
                  else execute_on_response V u user error_operation RunningOnError ErroredOnError c rs) (\<lambda>c'.
           bindE (assigns (set_step_status StepFinished)) (\<lambda>_. retE c'))))"

section \<open>The transaction committer\<close>

text \<open>The transactions of an execution: the services each step names, for a conditional step those of
  the steps inside it; without repetitions and sorted.\<close>

lemma size_sx_executed [termination_simp]: "p \<in> set (sx_executed x) \<Longrightarrow> size p < size x"
  by (cases x) (auto dest: size_list_estimation' [where f = size and x = p])

fun step_transactions :: "uuid \<Rightarrow> SagaStepExecution \<Rightarrow> (uuid \<times> string) list" where
  "step_transactions u (SagaStepExecution d st ar rel inner) =
     (if class_of d = ConditionalClass
      then (case inner of None \<Rightarrow> [] | Some x \<Rightarrow> concat (map (step_transactions (sx_uuid x)) (sx_executed x)))
      else map (Pair u) rel)"

definition transactions :: "uuid \<Rightarrow> SagaStepExecution list \<Rightarrow> (uuid \<times> string) list" where
  "transactions u es = sort (uniq (concat (map (step_transactions u) es)))"

text \<open>\<open>gather(*futures)\<close>: every message is sent, and the first exception is raised afterwards.\<close>

fun send_all :: "('e, 't) saga_env \<Rightarrow> BrokerMessage list \<Rightarrow> ('e, 't, unit) sop" where
  "send_all V [] = retE ()"
| "send_all V (m # ms) = (\<lambda>s. case send V m s of (r, s1) \<Rightarrow>
     (case send_all V ms s1 of (r', s2) \<Rightarrow> (case r of Inl x \<Rightarrow> Inl x | Inr _ \<Rightarrow> r', s2)))"

definition transaction_message :: "string \<Rightarrow> string option \<Rightarrow> uuid \<times> string \<Rightarrow> BrokerMessage" where
  "transaction_message verb reply t =
     \<lparr>bm_topic = ''_'' @ verb @ title (snd t) @ ''Transaction'', bm_content = VUuid (fst t), bm_headers = [],
      bm_reply_topic = reply, bm_status = 200\<rparr>"

text \<open>\<open>BrokerClient.receive_many\<close>: messages are collected until the list has \<open>count\<close> elements, so a
  count of zero is never reached; when no more messages arrive, the wait ends with an exception.\<close>

fun get_many :: "nat \<Rightarrow> 'm list \<Rightarrow> 'm list \<Rightarrow> saga_error + 'm list" where
  "get_many n result [] = Inl (Raised ''MinosHandlerNotFoundEnoughEntriesException'')"
| "get_many n result (m # ms) =
     (if length (result @ [m]) = n then Inr (result @ [m]) else get_many n (result @ [m]) ms)"

definition committer_reserve :: "('e, 't) saga_env \<Rightarrow> (uuid \<times> string) list \<Rightarrow> ('e, 't, bool) sop" where
  "committer_reserve V ts =
     bindE (send_all V (map (transaction_message ''Reserve'' (Some (sv_pool_topic V))) ts)) (\<lambda>_.
     bindE (getsE sw_out) (\<lambda>out.
     bindE (liftE (get_many (length ts) [] (sv_replies V out))) (\<lambda>ms.
     retE (list_all (\<lambda>m. bm_status m = 200) ms))))"

definition committer_reject :: "('e, 't) saga_env \<Rightarrow> (uuid \<times> string) list \<Rightarrow> ('e, 't, unit) sop" where
  "committer_reject V ts = send_all V (map (transaction_message ''Reject'' None) ts)"

definition committer_commit :: "('e, 't) saga_env \<Rightarrow> (uuid \<times> string) list \<Rightarrow> ('e, 't, unit) sop" where
  "committer_commit V ts =
     bindE (committer_reserve V ts) (\<lambda>ok.
     if \<not> ok then bindE (committer_reject V ts) (\<lambda>_. raiseE (Agg ValueError))
     else send_all V (map (transaction_message ''Commit'' None) ts))"

section \<open>Rollback\<close>

definition execution_reject :: "('e, 't) saga_env \<Rightarrow> ('e, 't, unit) sxop" where
  "execution_reject V =
     bindE (selfs (\<lambda>x. transactions (sx_uuid x) (sx_executed x))) (\<lambda>ts.
     catchE (outside (committer_reject V ts)) (\<lambda>y. Some (raiseE (SagaFailedCommitCallbackException y))))"

text \<open>The rest of \<open>SagaExecution.rollback\<close> after the loop over the executed steps, given what the loop
  left: an exception that is not one of a step execution, or whether some step failed.\<close>

definition rollback_end :: "('e, 't) saga_env \<Rightarrow> bool \<Rightarrow> SagaExecution
    \<Rightarrow> (saga_error + bool) \<times> SagaStepExecution list \<times> SagaContext \<times> ('e, 't) saga_world
    \<Rightarrow> (saga_error + unit) \<times> SagaExecution \<times> ('e, 't) saga_world" where
  "rollback_end V autoreject x loop = (case loop of (r, es, c, s) \<Rightarrow>
     let x1 = set_context c (set_executed es x) in
     (case r of
        Inl y \<Rightarrow> (Inl y, (x1, s))
      | Inr raised \<Rightarrow>
         (case (if autoreject then execution_reject V (x1, s) else (Inr (), (x1, s))) of (r', (x2, s2)) \<Rightarrow>
            (if raised \<or> r' \<noteq> Inr () then Inl SagaRollbackExecutionException else Inr (), (set_already True x2, s2)))))"

lemma size_inner_steps [termination_simp]: "size_list size (sx_executed x) < Suc (size x)"
  by (cases x) simp

lemma adopt_executed [simp]: "sx_executed (adopt u user c x) = sx_executed x"
  by (cases x) (simp add: adopt_def split: option.splits)

fun rollback_steps :: "('e, 't) saga_env \<Rightarrow> uuid \<Rightarrow> uuid option \<Rightarrow> SagaStepExecution list \<Rightarrow> SagaContext \<Rightarrow> ('e, 't) saga_world
    \<Rightarrow> (saga_error + bool) \<times> SagaStepExecution list \<times> SagaContext \<times> ('e, 't) saga_world"
  and step_rollback :: "('e, 't) saga_env \<Rightarrow> uuid \<Rightarrow> uuid option \<Rightarrow> SagaStepExecution \<Rightarrow> SagaContext \<Rightarrow> ('e, 't) saga_world
    \<Rightarrow> (saga_error + SagaContext) \<times> SagaStepExecution \<times> ('e, 't) saga_world" where
  "rollback_steps V u user [] c s = (Inr False, [], c, s)"
| "rollback_steps V u user (p # ps) c s =
     (case rollback_steps V u user ps c s of
        (Inl y, ps1, c1, s1) \<Rightarrow> (Inl y, p # ps1, c1, s1)
      | (Inr raised, ps1, c1, s1) \<Rightarrow>
         (case step_rollback V u user p c1 s1 of
            (Inr c2, (p2, s2)) \<Rightarrow> (Inr raised, p2 # ps1, c2, s2)
          | (Inl y, (p2, s2)) \<Rightarrow>
              (if is_step_execution_exception y then Inr True else Inl y, p2 # ps1, c1, s2)))"
| "step_rollback V u user (SagaStepExecution d st ar rel inner) c s =
     (case class_of d of
        LocalClass \<Rightarrow> local_rollback V u c (SagaStepExecution d st ar rel inner, s)
      | RemoteClass \<Rightarrow> remote_rollback V u user c (SagaStepExecution d st ar rel inner, s)
      | ConditionalClass \<Rightarrow>
         (if st = StepCreated \<or> ar then (Inl SagaRollbackExecutionStepException, (SagaStepExecution d st ar rel inner, s))
          else (case inner of
              None \<Rightarrow> (Inr c, (SagaStepExecution d st True rel inner, s))
            | Some x \<Rightarrow>
               (case (if sx_already_rollback x then (Inl SagaRollbackExecutionException, (adopt u user c x, s))
                      else rollback_end V False (adopt u user c x)
                             (rollback_steps V u (sx_user (adopt u user c x)) (sx_executed x) c s)) of
                  (Inl y, (x', s')) \<Rightarrow> (Inl y, (SagaStepExecution d st ar rel (Some x'), s'))
                | (Inr _, (x', s')) \<Rightarrow> (Inr (sx_context x'), (SagaStepExecution d st True rel (Some x'), s'))))))"

definition execution_rollback :: "('e, 't) saga_env \<Rightarrow> bool \<Rightarrow> ('e, 't, unit) sxop" where
  "execution_rollback V autoreject = (\<lambda>(x, s).
     if sx_already_rollback x then (Inl SagaRollbackExecutionException, (x, s))
     else rollback_end V autoreject x (rollback_steps V (sx_uuid x) (sx_user x) (sx_executed x) (sx_context x) s))"

definition execution_commit :: "('e, 't) saga_env \<Rightarrow> ('e, 't, unit) sxop" where
  "execution_commit V =
     bindE (selfs id) (\<lambda>x.
     if sx_status x \<noteq> Finished then raiseE (Agg ValueError) else
     catchE (outside (committer_commit V (transactions (sx_uuid x) (sx_executed x)))) (\<lambda>y. Some (
       bindE (catchE (execution_rollback V False)
                (\<lambda>z. if z = SagaRollbackExecutionException then Some (retE ()) else None)) (\<lambda>_.
       bindE (assigns (set_status Errored)) (\<lambda>_.
       raiseE (SagaFailedCommitCallbackException y))))))"

section \<open>Conditional steps\<close>

fun choose_alternative :: "('e, 't) saga_env \<Rightarrow> uuid \<Rightarrow> SagaContext \<Rightarrow> IfThenAlternative list \<Rightarrow> ('e, 't, Saga option) sop" where
  "choose_alternative V u c [] = retE None"
| "choose_alternative V u c (a # as) =
     bindE (exec V u (\<lambda>cb ps. sv_condition V cb ps c) (if_condition a)) (\<lambda>b.
     if b then retE (Some (if_saga a)) else choose_alternative V u c as)"

text \<open>\<open>SagaExecution(definition, uuid, context, user=user)\<close>: an invalid definition is refused.\<close>

definition SagaExecution_init :: "Saga \<Rightarrow> uuid \<Rightarrow> SagaContext \<Rightarrow> uuid option \<Rightarrow> saga_error + SagaExecution" where
  "SagaExecution_init d u c user = (case validate_saga d of
     Inl y \<Rightarrow> Inl y | Inr _ \<Rightarrow> Inr (SagaExecution u d [] c Created False None user))"

definition create_inner :: "('e, 't) saga_env \<Rightarrow> uuid \<Rightarrow> uuid option \<Rightarrow> SagaContext \<Rightarrow> ('e, 't, SagaExecution option) spop" where
  "create_inner V u user c =
     bindE (add_service V) (\<lambda>_.
     bindE (selfs sp_definition) (\<lambda>d.
     case d of
       ConditionalSagaStep ifs els \<Rightarrow>
         bindE (outside (choose_alternative V u c ifs)) (\<lambda>chosen.
         case (case chosen of Some sg \<Rightarrow> Some sg | None \<Rightarrow> map_option else_saga els) of
           None \<Rightarrow> retE None
         | Some sg \<Rightarrow> bindE (liftE (SagaExecution_init sg u c user)) (\<lambda>x. retE (Some x)))
     | _ \<Rightarrow> raiseE (Agg AttributeError)))"

text \<open>\<open>_execute_inner\<close>, given how the inner execution is executed. An execution that is over already
  is left alone.\<close>

definition execute_inner :: "(SagaResponse option \<Rightarrow> bool \<Rightarrow> ('e, 't, SagaContext) sxop)
    \<Rightarrow> uuid \<Rightarrow> uuid option \<Rightarrow> SagaResponse option \<Rightarrow> SagaContext \<Rightarrow> ('e, 't, SagaContext) spop" where
  "execute_inner run u user response c = (\<lambda>(p, s). case sp_inner p of
     None \<Rightarrow> (Inr c, (p, s))
   | Some x \<Rightarrow> (case run response False (adopt u user c x, s) of (r, (x', s')) \<Rightarrow>
       let p' = set_inner (Some x') p in
       (case r of
          Inr _ \<Rightarrow> (Inr (sx_context x'), (p', s'))
        | Inl y \<Rightarrow> (case y of
            SagaExecutionAlreadyExecutedException \<Rightarrow> (Inr (sx_context x'), (p', s'))
          | SagaPausedExecutionStepException \<Rightarrow> (Inl y, (set_step_status PausedByOnExecute p', s'))
          | SagaFailedExecutionStepException _ \<Rightarrow> (Inl y, (set_step_status ErroredByOnExecute p', s'))
          | _ \<Rightarrow> (Inl y, (p', s'))))))"

definition conditional_execute :: "(SagaResponse option \<Rightarrow> bool \<Rightarrow> ('e, 't, SagaContext) sxop)
    \<Rightarrow> ('e, 't) saga_env \<Rightarrow> uuid \<Rightarrow> uuid option \<Rightarrow> SagaResponse option \<Rightarrow> SagaContext \<Rightarrow> ('e, 't, SagaContext) spop" where
  "conditional_execute run V u user response c =
     bindE (selfs sp_status) (\<lambda>st.
     bindE (whenE (st = StepCreated)
       (bindE (create_inner V u user c) (\<lambda>x. assigns (set_inner x)))) (\<lambda>_.
     bindE (assigns (set_step_status RunningOnExecute)) (\<lambda>_.
     bindE (execute_inner run u user response c) (\<lambda>c'.
     bindE (assigns (set_step_status StepFinished)) (\<lambda>_. retE c')))))"

definition step_execute :: "(SagaResponse option \<Rightarrow> bool \<Rightarrow> ('e, 't, SagaContext) sxop)
    \<Rightarrow> ('e, 't) saga_env \<Rightarrow> uuid \<Rightarrow> uuid option \<Rightarrow> SagaResponse option \<Rightarrow> SagaContext \<Rightarrow> ('e, 't, SagaContext) spop" where
  "step_execute run V u user response c = bindE (selfs sp_definition) (\<lambda>d. case class_of d of
     LocalClass \<Rightarrow> local_execute V u c
   | RemoteClass \<Rightarrow> remote_execute V u user response c
   | ConditionalClass \<Rightarrow> conditional_execute run V u user response c)"

section \<open>Executing a saga\<close>

definition step_from_definition :: "SagaStep \<Rightarrow> SagaStepExecution" where
  "step_from_definition d = SagaStepExecution d StepCreated False [] None"

definition execute_one :: "(SagaResponse option \<Rightarrow> bool \<Rightarrow> ('e, 't, SagaContext) sxop)
    \<Rightarrow> ('e, 't) saga_env \<Rightarrow> SagaStepExecution \<Rightarrow> SagaResponse option \<Rightarrow> bool \<Rightarrow> ('e, 't, unit) sxop" where
  "execute_one run V p response autocommit = (\<lambda>(x, s).
     case step_execute run V (sx_uuid x) (sx_user x) response (sx_context x) (p, s) of
       (Inr c, (p', s')) \<Rightarrow> (Inr (), (set_executed (sx_executed x @ [p']) (set_context c x), s'))
     | (Inl y, (p', s')) \<Rightarrow> (case y of
         SagaFailedExecutionStepException _ \<Rightarrow>
           (case execution_rollback V autocommit (x, s') of
              (Inl z, (x2, s2)) \<Rightarrow> (Inl z, (x2, s2))
            | (Inr _, (x2, s2)) \<Rightarrow> (Inl y, (set_status Errored x2, s2)))
       | SagaPausedExecutionStepException \<Rightarrow> (Inl y, (set_status Paused (set_paused (Some p') x), s'))
       | _ \<Rightarrow> (Inl y, (x, s'))))"

definition pending_steps :: "SagaExecution \<Rightarrow> SagaStep list" where
  "pending_steps x = drop (length (sx_executed x)) (sg_steps (sx_definition x))"

text \<open>
  \<open>SagaExecution.execute\<close>. It calls itself through conditional steps; the fuel is the number of
  executions that may be nested inside each other, and \<open>execution_depth\<close> below is enough of it.
\<close>

fun execute_nested :: "nat \<Rightarrow> ('e, 't) saga_env \<Rightarrow> SagaResponse option \<Rightarrow> bool \<Rightarrow> ('e, 't, SagaContext) sxop" where
  "execute_nested 0 V response autocommit = raiseE (Agg NonTermination)"
| "execute_nested (Suc n) V response autocommit =
     bindE (selfs sx_status) (\<lambda>st.
     if st = Finished then raiseE SagaExecutionAlreadyExecutedException
     else if st = Errored then
       (if response = None then raiseE SagaExecutionAlreadyExecutedException else selfs sx_context)
     else
       bindE (assigns (set_status Running)) (\<lambda>_.
       bindE (selfs sx_paused) (\<lambda>paused.
       bindE (case paused of
           None \<Rightarrow> retE ()
         | Some p \<Rightarrow> finallyE (execute_one (execute_nested n V) V p response autocommit)
             (bindE (selfs sx_status) (\<lambda>st'. whenE (st' \<noteq> Paused) (assigns (set_paused None))))) (\<lambda>_.
       bindE (selfs pending_steps) (\<lambda>steps.
       bindE (forE steps (\<lambda>d. execute_one (execute_nested n V) V (step_from_definition d) None autocommit)) (\<lambda>_.
       bindE (assigns (set_status Finished)) (\<lambda>_.
       bindE (whenE autocommit (execution_commit V)) (\<lambda>_.
       selfs sx_context))))))))"

text \<open>How deep conditional steps are nested in a definition, and executions in an execution.\<close>

fun saga_depth :: "Saga \<Rightarrow> nat" and step_depth :: "SagaStep \<Rightarrow> nat" where
  "saga_depth (Saga steps _) = Max (insert 0 (set (map step_depth steps)))"
| "step_depth (RemoteSagaStep _ _ _ _) = 0"
| "step_depth (LocalSagaStep _ _) = 0"
| "step_depth (ConditionalSagaStep ifs els) =
     Suc (Max (insert 0 (set (map (\<lambda>a. saga_depth (if_saga a)) ifs
       @ (case els of None \<Rightarrow> [] | Some a \<Rightarrow> [saga_depth (else_saga a)])))))"

fun execution_depth :: "SagaExecution \<Rightarrow> nat" and step_execution_depth :: "SagaStepExecution \<Rightarrow> nat" where
  "execution_depth (SagaExecution u d es c st ar paused us) =
     max (saga_depth d) (case paused of None \<Rightarrow> 0 | Some p \<Rightarrow> step_execution_depth p)"
| "step_execution_depth (SagaStepExecution d st ar rel inner) =
     max (step_depth d) (case inner of None \<Rightarrow> 0 | Some x \<Rightarrow> Suc (execution_depth x))"

definition execution_execute :: "('e, 't) saga_env \<Rightarrow> SagaResponse option \<Rightarrow> bool \<Rightarrow> ('e, 't, SagaContext) sxop" where
  "execution_execute V response autocommit = (\<lambda>(x, s).
     execute_nested (Suc (execution_depth x)) V response autocommit (x, s))"

end
