(* ===== verification/Saga_Invariants.thy ===== *)
theory Saga_Invariants
  imports Saga_Executions "HOL-Library.Sublist"
begin

text \<open>
  What every outcome of the methods of an execution keeps: the executed steps are an initial part of
  the definition, the paused step is the next one, and the status only moves forward. Stated
  first for one call and then for every sequence of calls, by induction over a step relation.
\<close>

section \<open>Attributes\<close>

lemma set_execution [simp]:
  "sx_uuid (set_uuid v x) = v" "sx_definition (set_uuid v x) = sx_definition x" "sx_executed (set_uuid v x) = sx_executed x"
  "sx_context (set_uuid v x) = sx_context x" "sx_status (set_uuid v x) = sx_status x"
  "sx_already_rollback (set_uuid v x) = sx_already_rollback x" "sx_paused (set_uuid v x) = sx_paused x" "sx_user (set_uuid v x) = sx_user x"
  by (cases x; simp)+

lemma set_executed_attrs [simp]:
  "sx_uuid (set_executed es x) = sx_uuid x" "sx_definition (set_executed es x) = sx_definition x" "sx_executed (set_executed es x) = es"
  "sx_context (set_executed es x) = sx_context x" "sx_status (set_executed es x) = sx_status x"
  "sx_already_rollback (set_executed es x) = sx_already_rollback x" "sx_paused (set_executed es x) = sx_paused x" "sx_user (set_executed es x) = sx_user x"
  by (cases x; simp)+

lemma set_context_attrs [simp]:
  "sx_uuid (set_context c x) = sx_uuid x" "sx_definition (set_context c x) = sx_definition x" "sx_executed (set_context c x) = sx_executed x"
  "sx_context (set_context c x) = c" "sx_status (set_context c x) = sx_status x"
  "sx_already_rollback (set_context c x) = sx_already_rollback x" "sx_paused (set_context c x) = sx_paused x" "sx_user (set_context c x) = sx_user x"
  by (cases x; simp)+

lemma set_status_attrs [simp]:
  "sx_uuid (set_status st x) = sx_uuid x" "sx_definition (set_status st x) = sx_definition x" "sx_executed (set_status st x) = sx_executed x"
  "sx_context (set_status st x) = sx_context x" "sx_status (set_status st x) = st"
  "sx_already_rollback (set_status st x) = sx_already_rollback x" "sx_paused (set_status st x) = sx_paused x" "sx_user (set_status st x) = sx_user x"
  by (cases x; simp)+

lemma set_already_attrs [simp]:
  "sx_uuid (set_already b x) = sx_uuid x" "sx_definition (set_already b x) = sx_definition x" "sx_executed (set_already b x) = sx_executed x"
  "sx_context (set_already b x) = sx_context x" "sx_status (set_already b x) = sx_status x"
  "sx_already_rollback (set_already b x) = b" "sx_paused (set_already b x) = sx_paused x" "sx_user (set_already b x) = sx_user x"
  by (cases x; simp)+

lemma set_paused_attrs [simp]:
  "sx_uuid (set_paused p x) = sx_uuid x" "sx_definition (set_paused p x) = sx_definition x" "sx_executed (set_paused p x) = sx_executed x"
  "sx_context (set_paused p x) = sx_context x" "sx_status (set_paused p x) = sx_status x"
  "sx_already_rollback (set_paused p x) = sx_already_rollback x" "sx_paused (set_paused p x) = p" "sx_user (set_paused p x) = sx_user x"
  by (cases x; simp)+

lemma set_step_attrs [simp]:
  "sp_definition (set_step_status st p) = sp_definition p" "sp_definition (set_step_already b p) = sp_definition p"
  "sp_definition (set_related rel p) = sp_definition p" "sp_definition (set_inner i p) = sp_definition p"
  "sp_status (set_step_status st p) = st" "sp_status (set_step_already b p) = sp_status p"
  "sp_status (set_related rel p) = sp_status p" "sp_status (set_inner i p) = sp_status p"
  "sp_already_rollback (set_step_status st p) = sp_already_rollback p" "sp_already_rollback (set_step_already b p) = b"
  "sp_already_rollback (set_related rel p) = sp_already_rollback p" "sp_already_rollback (set_inner i p) = sp_already_rollback p"
  "sp_related (set_step_status st p) = sp_related p" "sp_related (set_step_already b p) = sp_related p"
  "sp_related (set_related rel p) = rel" "sp_related (set_inner i p) = sp_related p"
  "sp_inner (set_step_status st p) = sp_inner p" "sp_inner (set_step_already b p) = sp_inner p"
  "sp_inner (set_related rel p) = sp_inner p" "sp_inner (set_inner i p) = i"
  by (cases p; simp)+

lemma step_from_definition_attrs [simp]:
  "sp_definition (step_from_definition d) = d" "sp_status (step_from_definition d) = StepCreated"
  "sp_already_rollback (step_from_definition d) = False" "sp_inner (step_from_definition d) = None"
  "sp_related (step_from_definition d) = []"
  by (simp_all add: step_from_definition_def)

lemma outside_apply: "outside m (x, s) = (case m s of (r, s') \<Rightarrow> (r, (x, s')))"
  by (simp add: outside_def)

lemma selfs_apply [simp]: "selfs f (x, s) = (Inr (f x), (x, s))"
  by (simp add: selfs_def)

lemma assigns_apply [simp]: "assigns f (x, s) = (Inr (), (f x, s))"
  by (simp add: assigns_def)

section \<open>Steps keep their definition\<close>

lemma keeps_outside [keeprules]: "keeps (\<lambda>z. Q (fst z)) (outside m)"
  by (auto simp: keeps_def outside_def split: prod.splits)

lemma keeps_selfs [keeprules]: "keeps P (selfs f)"
  by (simp add: keeps_def selfs_def)

lemma keeps_assigns: "(\<And>x. Q x \<Longrightarrow> Q (f x)) \<Longrightarrow> keeps (\<lambda>z. Q (fst z)) (assigns f)"
  by (auto simp: keeps_def assigns_def)

abbreviation defined_by :: "SagaStep \<Rightarrow> SagaStepExecution \<times> ('e, 't) saga_world \<Rightarrow> bool" where
  "defined_by d \<equiv> \<lambda>z. sp_definition (fst z) = d"

lemma defined_assigns [keeprules]:
  "keeps (defined_by d) (assigns (set_step_status st))" "keeps (defined_by d) (assigns (set_step_already b))"
  "keeps (defined_by d) (assigns (set_inner i))" "keeps (defined_by d) (assigns (\<lambda>p. set_related (f p) p))"
  by (rule keeps_assigns, simp)+

lemma defined_add_service [keeprules]: "keeps (defined_by d) (add_service V)"
  unfolding add_service_def by (rule defined_assigns)

lemma keeps_on_failed [keeprules]: "keeps P m \<Longrightarrow> keeps P h \<Longrightarrow> keeps P (on_failed m h)"
  unfolding on_failed_def by (intro keeprules) (auto split: saga_error.splits intro!: keeps_bindE)

lemma defined_check_rollback [keeprules]: "keeps (defined_by d) check_rollback"
  unfolding check_rollback_def by (intro keeprules)

lemma defined_local_execute [keeprules]: "keeps (defined_by d) (local_execute V u c)"
  unfolding local_execute_def by (intro keeprules)

lemma defined_local_rollback [keeprules]: "keeps (defined_by d) (local_rollback V u c)"
  unfolding local_rollback_def by (intro keeprules)

lemma defined_remote_rollback [keeprules]: "keeps (defined_by d) (remote_rollback V u user c)"
  unfolding remote_rollback_def by (intro keeprules)

lemma defined_on_execute [keeprules]: "keeps (defined_by d) (execute_on_execute V u user c)"
  unfolding execute_on_execute_def by (intro keeprules)

lemma defined_on_response [keeprules]: "keeps (defined_by d) (execute_on_response V u user f a b c rs)"
  unfolding execute_on_response_def by (intro keeprules)

lemma defined_remote_execute [keeprules]: "keeps (defined_by d) (remote_execute V u user response c)"
  unfolding remote_execute_def by (intro keeprules)

lemma defined_create_inner [keeprules]: "keeps (defined_by d) (create_inner V u user c)"
  unfolding create_inner_def
  by (intro keeps_bindE keeprules) (auto split: SagaStep.splits intro!: keeprules)

lemma defined_execute_inner [keeprules]: "keeps (defined_by d) (execute_inner run u user response c)"
  unfolding execute_inner_def keeps_def
  by (auto simp: Let_def split: option.splits prod.splits sum.splits saga_error.splits)

lemma defined_conditional_execute [keeprules]: "keeps (defined_by d) (conditional_execute run V u user response c)"
  unfolding conditional_execute_def by (intro keeprules)

lemma defined_step_execute: "keeps (defined_by d) (step_execute run V u user response c)"
  unfolding step_execute_def
  by (intro keeps_bindE keeprules) (auto split: step_class.splits intro!: keeprules)

lemma step_execute_definition:
  "step_execute run V u user response c (p, s) = (r, (p', s')) \<Longrightarrow> sp_definition p' = sp_definition p"
  by (drule keepsD_eq [OF defined_step_execute [of "sp_definition p"]]) simp_all

lemma rollback_definitions:
  "rollback_steps V u user ps c s = (r, (ps', c', s')) \<Longrightarrow> map sp_definition ps' = map sp_definition ps"
  "step_rollback V u user p c s = (q, (p', s')) \<Longrightarrow> sp_definition p' = sp_definition p"
proof (induction V u user ps c s and V u user p c s arbitrary: r ps' c' s' and q p' s'
    rule: rollback_steps_step_rollback.induct)
  case (2 V u user p ps c s)
  then show ?case
    by (auto split: prod.splits sum.splits if_splits)
next
  case (3 V u user d st ar rel inner c s)
  let ?p = "SagaStepExecution d st ar rel inner"
  have "sp_definition p1 = d" if "local_rollback V u c (?p, s) = (r1, (p1, s1))" for r1 p1 s1
    using keepsD [OF defined_local_rollback, of "(?p, s)" d V u c] that by simp
  moreover have "sp_definition p1 = d" if "remote_rollback V u user c (?p, s) = (r1, (p1, s1))" for r1 p1 s1
    using keepsD [OF defined_remote_rollback, of "(?p, s)" d V u user c] that by simp
  ultimately show ?case
    using 3 by (auto split: step_class.splits prod.splits sum.splits if_splits option.splits)
qed simp

section \<open>One call\<close>

text \<open>What a rollback leaves: the steps may have changed, not what they are steps of.\<close>

definition rolled_back :: "SagaExecution \<Rightarrow> SagaExecution \<Rightarrow> bool" where
  "rolled_back x x' \<longleftrightarrow> (\<exists>es c b. map sp_definition es = map sp_definition (sx_executed x)
     \<and> x' = set_already b (set_context c (set_executed es x)))"

lemma rolled_back_refl [simp]: "rolled_back x x"
  unfolding rolled_back_def
  by (cases x) (intro exI [of _ "sx_executed x"] exI [of _ "sx_context x"] exI [of _ "sx_already_rollback x"], simp)

lemma rolled_back_attrs:
  "rolled_back x x' \<Longrightarrow> sx_definition x' = sx_definition x \<and> sx_status x' = sx_status x \<and> sx_paused x' = sx_paused x
     \<and> sx_uuid x' = sx_uuid x \<and> sx_user x' = sx_user x \<and> map sp_definition (sx_executed x') = map sp_definition (sx_executed x)
     \<and> length (sx_executed x') = length (sx_executed x)"
  by (auto simp: rolled_back_def dest: map_eq_imp_length_eq)

lemma reject_self: "execution_reject V (x, s) = (r, (x', s')) \<Longrightarrow> x' = x"
  by (auto simp: execution_reject_def bindE_apply catchE_def outside_def split: prod.splits sum.splits)

lemma rollback_end_self:
  "rollback_end V auto x (r0, es, c, s0) = (r, (x', s')) \<Longrightarrow> map sp_definition es = map sp_definition (sx_executed x) \<Longrightarrow> rolled_back x x'"
proof -
  assume r: "rollback_end V auto x (r0, es, c, s0) = (r, (x', s'))" and es: "map sp_definition es = map sp_definition (sx_executed x)"
  let ?x = "set_context c (set_executed es x)"
  have "x' = ?x \<or> x' = set_already True ?x"
    using r reject_self [of V ?x s0] by (auto simp: rollback_end_def Let_def split: sum.splits prod.splits if_splits)
  moreover have "?x = set_already (sx_already_rollback x) ?x" by (cases x) simp
  ultimately show ?thesis using es unfolding rolled_back_def by metis
qed

lemma rollback_self: "execution_rollback V auto (x, s) = (r, (x', s')) \<Longrightarrow> rolled_back x x'"
  by (cases "rollback_steps V (sx_uuid x) (sx_user x) (sx_executed x) (sx_context x) s")
    (auto simp: execution_rollback_def split: if_splits dest: rollback_definitions(1) rollback_end_self)

lemma commit_self:
  assumes "execution_commit V (x, s) = (r, (x', s'))"
  shows "x' = x \<or> (\<exists>y. r = Inl y) \<and> (\<exists>x1. rolled_back x x1 \<and> (x' = x1 \<or> x' = set_status Errored x1))"
proof -
  obtain r1 x1 s1 where rb: "execution_rollback V False (x, snd (committer_commit V (transactions (sx_uuid x) (sx_executed x)) s)) = (r1, (x1, s1))"
    by (metis prod_cases3)
  note rolled = rollback_self [OF rb]
  show ?thesis
  proof (cases "committer_commit V (transactions (sx_uuid x) (sx_executed x)) s")
    case (Pair q s2)
    show ?thesis
    proof (cases "sx_status x = Finished \<and> (\<exists>y. q = Inl y)")
      case True
      with assms rb Pair have "(\<exists>y. r = Inl y) \<and> (x' = x1 \<or> x' = set_status Errored x1)"
        by (cases r1) (auto simp: execution_commit_def catchE_def outside_apply bindE_apply split: if_splits)
      with rolled show ?thesis by blast
    next
      case False
      with assms Pair show ?thesis
        by (cases q) (auto simp: execution_commit_def bindE_apply catchE_def outside_apply split: if_splits)
    qed
  qed
qed

text \<open>An exception a rollback ends with is never one of a step execution.\<close>

lemma rollback_steps_raises: "rollback_steps V u user ps c s = (Inl y, z) \<Longrightarrow> \<not> is_step_execution_exception y"
proof (induction ps arbitrary: c s y z)
  case (Cons p ps)
  then show ?case
    by (cases "rollback_steps V u user ps c s" rule: prod_cases4)
      (auto split: sum.splits prod.splits if_splits)
qed simp

lemma rollback_raises: "execution_rollback V auto (x, s) = (Inl y, z) \<Longrightarrow> y \<noteq> SagaPausedExecutionStepException"
proof -
  assume r: "execution_rollback V auto (x, s) = (Inl y, z)"
  obtain q es c t where l: "rollback_steps V (sx_uuid x) (sx_user x) (sx_executed x) (sx_context x) s = (q, es, c, t)"
    by (rule prod_cases4)
  show ?thesis
  proof (cases q)
    case (Inl y')
    with l rollback_steps_raises [of V "sx_uuid x" "sx_user x" "sx_executed x" "sx_context x" s y'] r show ?thesis
      by (auto simp: execution_rollback_def rollback_end_def Let_def split: if_splits)
  next
    case (Inr b)
    with l r show ?thesis
      by (auto simp: execution_rollback_def rollback_end_def Let_def split: if_splits prod.splits)
  qed
qed

lemma execute_one_cases:
  assumes "execute_one run V p response auto (x, s) = (r, (x', s'))"
  obtains
    (executed) p' c where "r = Inr ()" "sp_definition p' = sp_definition p" "x' = set_executed (sx_executed x @ [p']) (set_context c x)"
  | (paused) p' where "r = Inl SagaPausedExecutionStepException" "sp_definition p' = sp_definition p"
      "x' = set_status Paused (set_paused (Some p') x)"
  | (failed) y x1 where "r = Inl y" "y \<noteq> SagaPausedExecutionStepException" "rolled_back x x1" "x' = x1 \<or> x' = set_status Errored x1"
proof -
  obtain q p' s1 where run: "step_execute run V (sx_uuid x) (sx_user x) response (sx_context x) (p, s) = (q, (p', s1))"
    by (metis prod_cases3)
  note def = step_execute_definition [OF run]
  show ?thesis
  proof (cases q)
    case (Inr c)
    with run assms def show ?thesis by (intro executed [of p' c]) (auto simp: execute_one_def)
  next
    case (Inl y)
    show ?thesis
    proof (cases "\<exists>z. y = SagaFailedExecutionStepException z")
      case True
      obtain r2 x2 s2 where "execution_rollback V auto (x, s1) = (r2, (x2, s2))" by (metis prod_cases3)
      with True Inl run assms show ?thesis
        by (intro failed [of "case r2 of Inl z \<Rightarrow> z | Inr _ \<Rightarrow> y" x2])
          (auto simp: execute_one_def split: sum.splits dest: rollback_self rollback_raises)
    next
      case False
      with Inl run assms def show ?thesis
        by (cases "y = SagaPausedExecutionStepException")
          (auto simp: execute_one_def split: saga_error.splits intro: paused [of p'] failed [of y x])
    qed
  qed
qed

section \<open>The invariant of an execution\<close>

definition execution_ok :: "SagaExecution \<Rightarrow> bool" where
  "execution_ok x \<longleftrightarrow>
     map sp_definition (sx_executed x) = take (length (sx_executed x)) (sg_steps (sx_definition x))
   \<and> (case sx_paused x of None \<Rightarrow> True | Some p \<Rightarrow> (\<exists>ds. pending_steps x = sp_definition p # ds))
   \<and> (sx_status x = Created \<longrightarrow> sx_executed x = [] \<and> sx_paused x = None)
   \<and> (sx_status x = Paused \<longrightarrow> sx_paused x \<noteq> None)
   \<and> (sx_status x = Finished \<longrightarrow> pending_steps x = [] \<and> sx_paused x = None)"

text \<open>From where to where one call may move the status.\<close>

fun status_step :: "SagaStatus \<Rightarrow> SagaStatus \<Rightarrow> bool" where
  "status_step Finished st = (st \<in> {Finished, Errored})"
| "status_step Errored st = (st = Errored)"
| "status_step Created st = True"
| "status_step _ st = (st \<noteq> Created)"

lemma status_step_refl [simp]: "status_step a a"
  by (cases a) simp_all

lemma status_step_trans: "status_step a b \<Longrightarrow> status_step b c \<Longrightarrow> status_step a c"
  by (cases a; cases b) auto

text \<open>One call leaves the same saga, at the same step or a later one.\<close>

definition evolves :: "SagaExecution \<Rightarrow> SagaExecution \<Rightarrow> bool" where
  "evolves x x' \<longleftrightarrow> sx_uuid x' = sx_uuid x \<and> sx_definition x' = sx_definition x \<and> sx_user x' = sx_user x
     \<and> prefix (map sp_definition (sx_executed x)) (map sp_definition (sx_executed x'))
     \<and> status_step (sx_status x) (sx_status x')"

lemma evolves_refl [simp]: "evolves x x"
  by (simp add: evolves_def)

lemma evolves_trans: "evolves x y \<Longrightarrow> evolves y z \<Longrightarrow> evolves x z"
  unfolding evolves_def by (auto intro: status_step_trans prefix_order.trans)

lemma rolled_back_ok:
  "rolled_back x x' \<Longrightarrow> execution_ok x \<Longrightarrow> execution_ok x' \<and> evolves x x'"
  by (frule rolled_back_attrs) (auto simp: execution_ok_def evolves_def pending_steps_def split: option.splits)

text \<open>While a call runs: no step is paused and the executed steps are an initial part.\<close>

definition running_ok :: "SagaExecution \<Rightarrow> bool" where
  "running_ok x \<longleftrightarrow> sx_status x = Running \<and> sx_paused x = None
     \<and> map sp_definition (sx_executed x) = take (length (sx_executed x)) (sg_steps (sx_definition x))"

lemma running_execution_ok: "running_ok x \<Longrightarrow> execution_ok x"
  by (simp add: running_ok_def execution_ok_def)

lemma take_Suc_drop: "drop n xs = y # ys \<Longrightarrow> take (Suc n) xs = take n xs @ [y] \<and> drop (Suc n) xs = ys"
  by (metis drop_eq_Nil2 drop_Suc hd_drop_conv_nth leI list.sel(1) list.sel(3) take_Suc_conv_app_nth tl_drop list.distinct(1))

lemma pending_executed:
  fixes c :: SagaContext
  assumes "pending_steps x = d # ds" "map sp_definition (sx_executed x) = take (length (sx_executed x)) (sg_steps (sx_definition x))"
    "sp_definition p = d"
  defines "y \<equiv> set_executed (sx_executed x @ [p]) (set_context c x)"
  shows "pending_steps y = ds \<and> map sp_definition (sx_executed y) = take (length (sx_executed y)) (sg_steps (sx_definition y))"
  using assms take_Suc_drop [of "length (sx_executed x)" "sg_steps (sx_definition x)" d ds]
  by (simp add: pending_steps_def y_def)

lemma pending_loop:
  assumes "forE ds (\<lambda>d. execute_one run V (step_from_definition d) None auto) (x, s) = (r, (x', s'))"
    "running_ok x" "pending_steps x = ds"
  shows "execution_ok x' \<and> evolves x x' \<and> (r = Inr () \<longrightarrow> running_ok x' \<and> pending_steps x' = [])"
  using assms
proof (induction ds arbitrary: x s)
  case Nil
  then show ?case by (auto dest: running_execution_ok)
next
  case (Cons d ds)
  obtain r1 x1 s1 where one: "execute_one run V (step_from_definition d) None auto (x, s) = (r1, (x1, s1))"
    by (metis prod_cases3)
  have st: "sx_status x = Running" and ok: "execution_ok x"
    using Cons.prems(2) running_execution_ok by (simp_all add: running_ok_def)
  from one show ?case
  proof (cases rule: execute_one_cases)
    case (executed p' c)
    have "running_ok x1 \<and> pending_steps x1 = ds"
      using pending_executed [OF Cons.prems(3), of p' c] Cons.prems(2) executed by (auto simp: running_ok_def)
    moreover have "evolves x x1" using executed by (simp add: evolves_def)
    ultimately show ?thesis
      using Cons.IH [of x1 s1] Cons.prems(1) one executed(1) by (auto intro: evolves_trans)
  next
    case (paused p')
    with Cons.prems one st show ?thesis
      by (auto simp: execution_ok_def running_ok_def evolves_def pending_steps_def)
  next
    case (failed y x2)
    with rolled_back_ok [OF failed(3) ok] st have "execution_ok x1 \<and> evolves x x1"
      using rolled_back_attrs [OF failed(3)] Cons.prems(2)
      by (auto simp: execution_ok_def evolves_def running_ok_def pending_steps_def)
    with Cons.prems(1) one failed(1) show ?thesis by auto
  qed
qed

lemma commit_ok:
  assumes "execution_commit V (x, s) = (r, (x', s'))" "execution_ok x"
  shows "execution_ok x' \<and> evolves x x'"
proof -
  have "status_step (sx_status x) Errored" by (cases "sx_status x") simp_all
  moreover have "execution_ok (set_status Errored x1)" if "execution_ok x1" for x1
    using that by (simp add: execution_ok_def pending_steps_def split: option.splits)
  ultimately show ?thesis
    using commit_self [OF assms(1)] assms(2) rolled_back_ok rolled_back_attrs
    by (auto simp: evolves_def) 
qed

text \<open>Taking up the paused step.\<close>

definition resume :: "(SagaResponse option \<Rightarrow> bool \<Rightarrow> ('e, 't, SagaContext) sxop)
    \<Rightarrow> ('e, 't) saga_env \<Rightarrow> SagaResponse option \<Rightarrow> bool \<Rightarrow> ('e, 't, unit) sxop" where
  "resume run V response auto = bindE (selfs sx_paused) (\<lambda>paused. case paused of
     None \<Rightarrow> retE ()
   | Some p \<Rightarrow> finallyE (execute_one run V p response auto)
       (bindE (selfs sx_status) (\<lambda>st'. whenE (st' \<noteq> Paused) (assigns (set_paused None)))))"

lemma resume_ok:
  assumes "resume run V response auto (x, s) = (r, (x', s'))" "execution_ok x0" "x = set_status Running x0"
    "sx_status x0 \<notin> {Finished, Errored}"
  shows "execution_ok x' \<and> evolves x0 x' \<and> (r = Inr () \<longrightarrow> running_ok x')"
proof (cases "sx_paused x0")
  case None
  with assms show ?thesis
    by (cases "sx_status x0") (auto simp: resume_def execution_ok_def running_ok_def evolves_def pending_steps_def)
next
  case (Some p)
  obtain r1 x1 s1 where one: "execute_one run V p response auto (x, s) = (r1, (x1, s1))"
    by (metis prod_cases3)
  have x': "r = r1" "x' = (if sx_status x1 \<noteq> Paused then set_paused None x1 else x1)"
    using assms(1,3) Some one by (auto simp: resume_def bindE_apply finallyE_def whenE_def split: if_splits)
  have pend: "map sp_definition (sx_executed x) = take (length (sx_executed x)) (sg_steps (sx_definition x))"
    and nxt: "\<exists>ds. pending_steps x = sp_definition p # ds"
    using assms(2,3) Some by (auto simp: execution_ok_def pending_steps_def)
  have st0: "status_step (sx_status x0) st" if "st \<noteq> Created" for st
    using assms(4) that by (cases "sx_status x0") auto
  from one show ?thesis
  proof (cases rule: execute_one_cases)
    case (executed p' c)
    obtain ds where "pending_steps x = sp_definition p # ds" using nxt by blast
    with pending_executed [OF this pend, of p' c] executed assms(3) x' have "running_ok x'"
      by (auto simp: running_ok_def)
    moreover from executed assms(3) x' st0 have "evolves x0 x'"
      by (simp add: evolves_def)
    ultimately show ?thesis by (simp add: running_execution_ok)
  next
    case (paused p')
    with pend nxt x' assms(3) st0 show ?thesis
      by (auto simp: execution_ok_def evolves_def pending_steps_def)
  next
    case (failed y x2)
    with x' rolled_back_attrs [OF failed(3)] pend assms(3) st0 show ?thesis
      by (auto simp: execution_ok_def evolves_def pending_steps_def)
  qed
qed

lemma execute_nested_resume:
  "execute_nested (Suc n) V response auto =
     bindE (selfs sx_status) (\<lambda>st.
     if st = Finished then raiseE SagaExecutionAlreadyExecutedException
     else if st = Errored then
       (if response = None then raiseE SagaExecutionAlreadyExecutedException else selfs sx_context)
     else
       bindE (assigns (set_status Running)) (\<lambda>_.
       bindE (resume (execute_nested n V) V response auto) (\<lambda>_.
       bindE (selfs pending_steps) (\<lambda>steps.
       bindE (forE steps (\<lambda>d. execute_one (execute_nested n V) V (step_from_definition d) None auto)) (\<lambda>_.
       bindE (assigns (set_status Finished)) (\<lambda>_.
       bindE (whenE auto (execution_commit V)) (\<lambda>_.
       selfs sx_context)))))))"
  by (simp add: resume_def bindE_assoc cong: if_cong)

lemma execute_nested_ok:
  assumes "execute_nested n V response auto (x, s) = (r, (x', s'))" "execution_ok x"
  shows "execution_ok x' \<and> evolves x x'"
proof (cases "n = 0 \<or> sx_status x \<in> {Finished, Errored}")
  case True
  with assms show ?thesis by (cases n) (auto simp: bindE_apply split: if_splits)
next
  case False
  then obtain m where n: "n = Suc m" by (cases n) auto
  let ?run = "execute_nested m V" and ?x = "set_status Running x"
  obtain r1 x1 s1 where res: "resume ?run V response auto (?x, s) = (r1, (x1, s1))" by (metis prod_cases3)
  note one = resume_ok [OF res assms(2) refl]
  obtain r2 x2 s2 where loop: "forE (pending_steps x1) (\<lambda>d. execute_one ?run V (step_from_definition d) None auto) (x1, s1) = (r2, (x2, s2))"
    by (metis prod_cases3)
  let ?f = "set_status Finished x2"
  obtain r3 x3 s3 where com: "whenE auto (execution_commit V) (?f, s2) = (r3, (x3, s3))" by (metis prod_cases3)
  have eq: "execute_nested n V response auto (x, s) =
      bindE (resume ?run V response auto) (\<lambda>_.
      bindE (selfs pending_steps) (\<lambda>steps.
      bindE (forE steps (\<lambda>d. execute_one ?run V (step_from_definition d) None auto)) (\<lambda>_.
      bindE (assigns (set_status Finished)) (\<lambda>_.
      bindE (whenE auto (execution_commit V)) (\<lambda>_. selfs sx_context))))) (?x, s)"
    unfolding n execute_nested_resume using False by (simp add: bindE_apply [of "selfs sx_status"] bindE_apply [of "assigns (set_status Running)"])
  show ?thesis
  proof (cases "r1 = Inr ()")
    case False
    with assms(1) eq res \<open>\<not> (n = 0 \<or> _)\<close> one show ?thesis
      by (cases r1) (auto simp: bindE_apply)
  next
    case r1: True
    with one False have x1: "execution_ok x1" "evolves x x1" "running_ok x1" by auto
    note two = pending_loop [OF loop x1(3) refl]
    show ?thesis
    proof (cases "r2 = Inr ()")
      case False
      with assms(1) eq res r1 loop \<open>\<not> (n = 0 \<or> _)\<close> two x1(2) show ?thesis
        by (cases r2) (auto simp: bindE_apply intro: evolves_trans)
    next
      case r2: True
      with two have fin: "execution_ok ?f" "evolves x2 ?f"
        by (auto simp: execution_ok_def running_ok_def evolves_def pending_steps_def)
      have "execution_ok x3 \<and> evolves ?f x3"
        using com fin commit_ok [of V ?f s2] by (cases auto) auto
      moreover have "x' = x3"
        using assms(1) eq res r1 loop r2 com
        by (cases r3) (auto simp: bindE_apply)
      ultimately show ?thesis using two x1(2) fin(2) by (blast intro: evolves_trans)
    qed
  qed
qed

section \<open>Every sequence of calls\<close>

lemma execute_ok:
  "execution_execute V response auto (x, s) = (r, (x', s')) \<Longrightarrow> execution_ok x \<Longrightarrow> execution_ok x' \<and> evolves x x'"
  unfolding execution_execute_def prod.case by (rule execute_nested_ok)

lemma rollback_ok:
  "execution_rollback V auto (x, s) = (r, (x', s')) \<Longrightarrow> execution_ok x \<Longrightarrow> execution_ok x' \<and> evolves x x'"
  by (rule rolled_back_ok [OF rollback_self])

text \<open>The methods a client may call, in any order, whatever they return or raise. Between two calls the
  world may have changed in any way.\<close>

inductive execution_step :: "('e, 't) saga_env \<Rightarrow> SagaExecution \<Rightarrow> SagaExecution \<Rightarrow> bool" for V where
  execute: "execution_execute V response auto (x, s) = (r, (x', s')) \<Longrightarrow> execution_step V x x'"
| rollback: "execution_rollback V auto (x, s) = (r, (x', s')) \<Longrightarrow> execution_step V x x'"
| commit: "execution_commit V (x, s) = (r, (x', s')) \<Longrightarrow> execution_step V x x'"
| reject: "execution_reject V (x, s) = (r, (x', s')) \<Longrightarrow> execution_step V x x'"

inductive_cases execution_stepE: "execution_step V x x'"

lemma execution_step_ok: "execution_step V x x' \<Longrightarrow> execution_ok x \<Longrightarrow> execution_ok x' \<and> evolves x x'"
  by (erule execution_stepE) (auto dest: execute_ok rollback_ok commit_ok reject_self)

lemma execution_run_ok:
  "(execution_step V)\<^sup>*\<^sup>* x x' \<Longrightarrow> execution_ok x \<Longrightarrow> execution_ok x' \<and> evolves x x'"
  by (induction rule: rtranclp_induct) (auto dest: execution_step_ok intro: evolves_trans)

lemma new_execution_ok: "SagaExecution_init d u c user = Inr x \<Longrightarrow> execution_ok x"
  by (auto simp: SagaExecution_init_def execution_ok_def split: sum.splits)

section \<open>The nesting bound\<close>

text \<open>
  The depth of an execution is enough fuel: with any larger number of nested executions allowed,
  \<open>execute\<close> gives the same outcome.
\<close>

lemma step_depth_le: "d \<in> set (sg_steps sg) \<Longrightarrow> step_depth d \<le> saga_depth sg"
  by (cases sg) (auto intro!: Max_ge)

lemma alternative_depth:
  "a \<in> set ifs \<Longrightarrow> Suc (saga_depth (if_saga a)) \<le> step_depth (ConditionalSagaStep ifs els)"
  "els = Some b \<Longrightarrow> Suc (saga_depth (else_saga b)) \<le> step_depth (ConditionalSagaStep ifs els)"
  by (cases els; auto intro!: Max_ge)+

lemma adopt_depth [simp]: "execution_depth (adopt u user c x) = execution_depth x"
  by (cases x) (simp add: adopt_def split: option.splits)

lemma choose_alternative_member:
  "choose_alternative V u c ifs s = (Inr (Some sg), s') \<Longrightarrow> \<exists>a \<in> set ifs. sg = if_saga a"
  by (induction ifs arbitrary: s) (auto simp: bindE_apply split: prod.splits sum.splits if_splits)

lemma create_inner_depth:
  assumes "create_inner V u user c (p, s) = (Inr (Some y), (p', s'))"
  shows "Suc (execution_depth y) \<le> step_depth (sp_definition p)"
proof -
  obtain ifs els where d: "sp_definition p = ConditionalSagaStep ifs els"
    using assms by (cases "sp_definition p") (auto simp: create_inner_def bindE_apply add_service_def)
  obtain q s1 where ch: "choose_alternative V u c ifs s = (q, s1)" by (cases "choose_alternative V u c ifs s")
  from assms d ch obtain sg where sg: "SagaExecution_init sg u c user = Inr y"
    "q = Inr (Some sg) \<or> (\<exists>b. els = Some b \<and> sg = else_saga b)"
    by (auto simp: create_inner_def bindE_apply add_service_def outside_apply split: sum.splits option.splits)
  have "Suc (saga_depth sg) \<le> step_depth (sp_definition p)"
    using sg(2) ch alternative_depth choose_alternative_member [of V u c ifs s sg s1] unfolding d
    by blast
  then show ?thesis using sg(1) by (auto simp: SagaExecution_init_def split: sum.splits)
qed

abbreviation agrees :: "(SagaResponse option \<Rightarrow> bool \<Rightarrow> ('e, 't, SagaContext) sxop)
    \<Rightarrow> (SagaResponse option \<Rightarrow> bool \<Rightarrow> ('e, 't, SagaContext) sxop) \<Rightarrow> nat \<Rightarrow> bool" where
  "agrees run run' n \<equiv> \<forall>r b y s. execution_depth y < n \<longrightarrow> run r b (y, s) = run' r b (y, s)"

lemma execute_inner_agrees:
  "agrees run run' n \<Longrightarrow> (\<forall>y. sp_inner p = Some y \<longrightarrow> execution_depth y < n) \<Longrightarrow>
     execute_inner run u user response c (p, s) = execute_inner run' u user response c (p, s)"
  by (auto simp: execute_inner_def split: option.splits)

lemma conditional_agrees:
  assumes "agrees run run' n" "step_execution_depth p \<le> n"
  shows "conditional_execute run V u user response c (p, s) = conditional_execute run' V u user response c (p, s)"
proof -
  have inner: "sp_inner p = Some y \<Longrightarrow> execution_depth y < n" and d: "step_depth (sp_definition p) \<le> n" for y
    using assms(2) by (cases p; simp)+
  show ?thesis
  proof (cases "sp_status p = StepCreated")
    case True
    obtain q p1 s1 where cr: "create_inner V u user c (p, s) = (q, (p1, s1))" by (metis prod_cases3)
    have "execution_depth y < n" if "q = Inr (Some y)" for y
      using create_inner_depth [of V u user c p s y p1 s1] cr that d by simp
    then have "execute_inner run u user response c (set_step_status RunningOnExecute (set_inner i p1), s1)
        = execute_inner run' u user response c (set_step_status RunningOnExecute (set_inner i p1), s1)" if "q = Inr i" for i
      using that by (intro execute_inner_agrees [OF assms(1)]) auto
    with True cr show ?thesis
      by (cases q) (simp_all add: conditional_execute_def bindE_apply)
  next
    case False
    have "execute_inner run u user response c (set_step_status RunningOnExecute p, s)
        = execute_inner run' u user response c (set_step_status RunningOnExecute p, s)"
      using inner by (intro execute_inner_agrees [OF assms(1)]) auto
    with False show ?thesis by (simp add: conditional_execute_def bindE_apply)
  qed
qed

lemma execute_one_agrees:
  assumes "agrees run run' n" "step_execution_depth p \<le> n"
  shows "execute_one run V p response auto = execute_one run' V p response auto"
proof -
  have "step_execute run V u user response c (p, s) = step_execute run' V u user response c (p, s)" for u user c s
    using conditional_agrees [OF assms] by (simp add: step_execute_def bindE_apply split: step_class.splits)
  then show ?thesis by (auto simp: execute_one_def fun_eq_iff)
qed

lemma forE_cong: "(\<And>x. x \<in> set xs \<Longrightarrow> f x = g x) \<Longrightarrow> forE xs f = forE xs g"
  by (induction xs) auto

lemma resume_definition: "resume run V response auto (x, s) = (r, (x', s')) \<Longrightarrow> sx_definition x' = sx_definition x"
proof -
  have "sx_definition x1 = sx_definition x" if "execute_one run V p response auto (x, s) = (r1, (x1, s1))" for p r1 x1 s1
    using that by (cases rule: execute_one_cases) (auto dest: rolled_back_attrs)
  then show "resume run V response auto (x, s) = (r, (x', s')) \<Longrightarrow> ?thesis"
    by (auto simp: resume_def bindE_apply finallyE_def whenE_def split: option.splits prod.splits if_splits)
qed

lemma execute_nested_agrees:
  "execution_depth x < n \<Longrightarrow> execution_depth x < m \<Longrightarrow>
     execute_nested n V response auto (x, s) = execute_nested m V response auto (x, s)"
proof (induction n arbitrary: m x s response auto)
  case (Suc n)
  from Suc.prems(2) obtain k where m: "m = Suc k" by (cases m) auto
  let ?d = "execution_depth x"
  have run: "agrees (execute_nested n V) (execute_nested k V) ?d"
  proof (intro allI impI)
    fix r b y s
    assume "execution_depth y < ?d"
    with Suc.prems m have "execution_depth y < n" "execution_depth y < k" by auto
    then show "execute_nested n V r b (y, s) = execute_nested k V r b (y, s)" by (rule Suc.IH)
  qed
  have le: "saga_depth (sx_definition x) \<le> ?d" "sx_paused x = Some p \<Longrightarrow> step_execution_depth p \<le> ?d" for p
    by (cases x; simp)+
  have res: "resume (execute_nested n V) V response auto (set_status Running x, s)
      = resume (execute_nested k V) V response auto (set_status Running x, s)"
    using execute_one_agrees [OF run le(2)] by (simp add: resume_def bindE_apply split: option.splits)
  obtain r1 x1 s1 where r1: "resume (execute_nested k V) V response auto (set_status Running x, s) = (r1, (x1, s1))"
    by (metis prod_cases3)
  have "step_execution_depth (step_from_definition d) \<le> ?d" if "d \<in> set (pending_steps x1)" for d
    using that le(1) step_depth_le [of d "sx_definition x"] resume_definition [OF r1]
    by (auto simp: pending_steps_def step_from_definition_def dest: in_set_dropD)
  then have loop: "forE (pending_steps x1) (\<lambda>d. execute_one (execute_nested n V) V (step_from_definition d) None auto)
      = forE (pending_steps x1) (\<lambda>d. execute_one (execute_nested k V) V (step_from_definition d) None auto)"
    by (intro forE_cong execute_one_agrees [OF run])
  show ?case
    unfolding m execute_nested_resume using res r1 loop
    by (cases r1) (simp_all add: bindE_apply)
qed simp

end
