(* ===== verification/Saga_Manager.thy ===== *)
theory Saga_Manager
  imports Saga_Invariants
begin

text \<open>
  Storing and running executions: the serialized form of an execution (\<open>raw\<close> and \<open>from_raw\<close> of
  \<open>SagaExecution\<close> and of the step executions), \<open>DatabaseSagaExecutionRepository\<close>, \<open>SagaManager\<close>
  (\<open>manager.py\<close>), the reply handler of \<open>SagaService\<close> and the \<open>transactional_command\<close> middleware that
  runs the commands a saga sends to another service inside the transactions of the saga.
\<close>

section \<open>Serialized executions\<close>

definition remote_execution_classname :: string where
  "remote_execution_classname = ''minos.saga.executions.steps.remote.RemoteSagaStepExecution''"
definition local_execution_classname :: string where
  "local_execution_classname = ''minos.saga.executions.steps.local.LocalSagaStepExecution''"
definition conditional_execution_classname :: string where
  "conditional_execution_classname = ''minos.saga.executions.steps.conditional.ConditionalSagaStepExecution''"

fun execution_classname :: "SagaStep \<Rightarrow> string" where
  "execution_classname (RemoteSagaStep _ _ _ _) = remote_execution_classname"
| "execution_classname (LocalSagaStep _ _) = local_execution_classname"
| "execution_classname (ConditionalSagaStep _ _) = conditional_execution_classname"

definition uuid_option_raw :: "uuid option \<Rightarrow> raw" where
  "uuid_option_raw u = (case u of None \<Rightarrow> RNone | Some v \<Rightarrow> RStr (uuid_str v))"

fun execution_raw :: "raw_env \<Rightarrow> SagaExecution \<Rightarrow> raw" and step_execution_raw :: "raw_env \<Rightarrow> SagaStepExecution \<Rightarrow> raw" where
  "execution_raw E (SagaExecution u d es c st ar p us) =
     RDict [(''definition'', saga_raw E d), (''uuid'', RStr (uuid_str u)), (''status'', RStr (SagaStatus_raw st)),
       (''executed_steps'', RList (map (step_execution_raw E) es)),
       (''paused_step'', case p of None \<Rightarrow> RNone | Some q \<Rightarrow> step_execution_raw E q),
       (''context'', RStr (rv_context_str E c)), (''already_rollback'', RBool ar), (''user'', uuid_option_raw us)]"
| "step_execution_raw E (SagaStepExecution d st ar rel inner) =
     RDict ([(''cls'', RStr (execution_classname d)), (''definition'', step_raw E d), (''status'', RStr (SagaStepStatus_raw st)),
       (''related_services'', RList (map RStr rel)), (''already_rollback'', RBool ar)]
       @ (if class_of d = ConditionalClass
          then [(''inner'', case inner of None \<Rightarrow> RNone | Some x \<Rightarrow> execution_raw E x)] else []))"

text \<open>
  The way back. The class of a step execution is the one its definition asks for, as in every value
  \<open>raw\<close> produces. \<open>ConditionalSagaStepExecution._from_raw\<close> builds the inner execution without asking
  whether there is one.
\<close>

definition user_from_raw :: "raw \<Rightarrow> saga_error + uuid option" where
  "user_from_raw r = (case r of
     RNone \<Rightarrow> Inr None | RStr s \<Rightarrow> (case uuid_of s of Inl e \<Rightarrow> Inl e | Inr u \<Rightarrow> Inr (Some u)) | _ \<Rightarrow> Inl (Agg TypeError))"

definition raw_strs :: "raw \<Rightarrow> saga_error + string list" where
  "raw_strs r = (case raw_list r of Inl e \<Rightarrow> Inl e | Inr rs \<Rightarrow> mapE raw_str rs)"

text \<open>The attributes that need no recursion.\<close>

definition step_execution_attrs :: "raw_env \<Rightarrow> raw \<Rightarrow> SagaStep option
    \<Rightarrow> saga_error + SagaStep \<times> SagaStepStatus \<times> bool \<times> string list" where
  "step_execution_attrs E r override =
     (case (case override of Some d \<Rightarrow> Inr d
        | None \<Rightarrow> (case raw_item r ''definition'' of Inl e \<Rightarrow> Inl e | Inr x \<Rightarrow> step_from_raw E x)) of
        Inl e \<Rightarrow> Inl e
      | Inr d \<Rightarrow> (case raw_item r ''status'' of
          Inl e \<Rightarrow> Inl e
        | Inr x \<Rightarrow> (case raw_str x of
            Inl e \<Rightarrow> Inl e
          | Inr s \<Rightarrow> (case SagaStepStatus_from_raw s of
              Inl e \<Rightarrow> Inl e
            | Inr st \<Rightarrow> (case raw_strs (raw_get r ''related_services'' (RList [])) of
                Inl e \<Rightarrow> Inl e
              | Inr rel \<Rightarrow> (case raw_bool (raw_get r ''already_rollback'' (RBool False)) of
                  Inl e \<Rightarrow> Inl e
                | Inr b \<Rightarrow> Inr (d, st, b, uniq rel)))))))"

definition execution_attrs :: "raw_env \<Rightarrow> raw \<Rightarrow> saga_error + Saga \<times> SagaStatus \<times> SagaContext" where
  "execution_attrs E r = (case raw_item r ''definition'' of
     Inl e \<Rightarrow> Inl e
   | Inr x \<Rightarrow> (case saga_from_raw E x of
       Inl e \<Rightarrow> Inl e
     | Inr d \<Rightarrow> (case raw_item r ''status'' of
         Inl e \<Rightarrow> Inl e
       | Inr y \<Rightarrow> (case raw_str y of
           Inl e \<Rightarrow> Inl e
         | Inr s \<Rightarrow> (case SagaStatus_from_raw s of
             Inl e \<Rightarrow> Inl e
           | Inr st \<Rightarrow> (case raw_item r ''context'' of
               Inl e \<Rightarrow> Inl e
             | Inr z \<Rightarrow> (case raw_str z of
                 Inl e \<Rightarrow> Inl e
               | Inr t \<Rightarrow> (case rv_context_of E t of
                   Inl e \<Rightarrow> Inl e | Inr c \<Rightarrow> Inr (d, st, c)))))))))"

definition execution_ids :: "raw \<Rightarrow> saga_error + uuid \<times> uuid option \<times> bool" where
  "execution_ids r = (case raw_item r ''uuid'' of
     Inl e \<Rightarrow> Inl e
   | Inr x \<Rightarrow> (case raw_str x of
       Inl e \<Rightarrow> Inl e
     | Inr s \<Rightarrow> (case uuid_of s of
         Inl e \<Rightarrow> Inl e
       | Inr u \<Rightarrow> (case raw_item r ''user'' of
           Inl e \<Rightarrow> Inl e
         | Inr y \<Rightarrow> (case user_from_raw y of
             Inl e \<Rightarrow> Inl e
           | Inr us \<Rightarrow> (case raw_bool (raw_get r ''already_rollback'' (RBool False)) of
               Inl e \<Rightarrow> Inl e | Inr b \<Rightarrow> Inr (u, us, b)))))))"

fun is_dict :: "raw \<Rightarrow> bool" where
  "is_dict (RDict _) = True"
| "is_dict _ = False"

lemma size_raw_items: "raw_item r k = Inr x \<Longrightarrow> raw_list x = Inr rs \<Longrightarrow> (d, y) \<in> set (zip ds rs) \<Longrightarrow> size y < size r"
  using size_raw_item size_raw_list set_zip_rightD less_trans by metis

function execution_from_raw :: "raw_env \<Rightarrow> raw \<Rightarrow> saga_error + SagaExecution"
  and step_execution_from_raw :: "raw_env \<Rightarrow> SagaStep option \<Rightarrow> raw \<Rightarrow> saga_error + SagaStepExecution" where
  "execution_from_raw E r =
     (if \<not> is_dict r then Inl (Agg AttributeError) else
      case execution_attrs E r of
        Inl e \<Rightarrow> Inl e
      | Inr (d, st, c) \<Rightarrow> (case (case raw_item r ''paused_step'' of
            Inl e \<Rightarrow> Inl e
          | Inr x \<Rightarrow> if x = RNone then Inr None
              else (case step_execution_from_raw E None x of Inl e \<Rightarrow> Inl e | Inr p \<Rightarrow> Inr (Some p))) of
          Inl e \<Rightarrow> Inl e
        | Inr p \<Rightarrow> (case execution_ids r of
            Inl e \<Rightarrow> Inl e
          | Inr (u, us, ar) \<Rightarrow> (case validate_saga d of
              Inl e \<Rightarrow> Inl e
            | Inr _ \<Rightarrow> (case raw_item r ''executed_steps'' of
                Inl e \<Rightarrow> Inl e
              | Inr y \<Rightarrow> (case raw_list y of
                  Inl e \<Rightarrow> Inl e
                | Inr rs \<Rightarrow> (case mapE (\<lambda>(sd, x). step_execution_from_raw E (Some sd) x) (zip (sg_steps d) rs) of
                    Inl e \<Rightarrow> Inl e
                  | Inr es \<Rightarrow> Inr (SagaExecution u d es c st ar p us))))))))"
| "step_execution_from_raw E override r =
     (case raw_item r ''cls'' of
        Inl _ \<Rightarrow> Inl (Agg TypeError)
      | Inr c \<Rightarrow> (case raw_str c of
          Inl e \<Rightarrow> Inl e
        | Inr name \<Rightarrow>
           (if name = remote_execution_classname \<or> name = local_execution_classname then
              (case step_execution_attrs E r override of
                 Inl e \<Rightarrow> Inl e | Inr (d, st, b, rel) \<Rightarrow> Inr (SagaStepExecution d st b rel None))
            else if name = conditional_execution_classname then
              (case raw_item r ''inner'' of
                 Inl e \<Rightarrow> Inl e
               | Inr x \<Rightarrow> (case execution_from_raw E x of
                   Inl e \<Rightarrow> Inl e
                 | Inr i \<Rightarrow> (case step_execution_attrs E r override of
                     Inl e \<Rightarrow> Inl e | Inr (d, st, b, rel) \<Rightarrow> Inr (SagaStepExecution d st b rel (Some i)))))
            else (case rv_import E name of Inl e \<Rightarrow> Inl e | Inr _ \<Rightarrow> Inl (Agg TypeError)))))"
  by pat_completeness auto
termination
  by (relation "measure (\<lambda>x. case x of Inl (E, r) \<Rightarrow> size r | Inr (E, d, r) \<Rightarrow> size r)")
    (auto intro: size_raw_item size_raw_items)

declare execution_from_raw.simps [simp del] step_execution_from_raw.simps [simp del]


text \<open>Executions whose serialized form can be read back.\<close>

definition context_codec_ok :: "raw_env \<Rightarrow> SagaContext \<Rightarrow> bool" where
  "context_codec_ok E c \<longleftrightarrow> rv_context_of E (rv_context_str E c) = Inr c"

fun storable :: "raw_env \<Rightarrow> SagaExecution \<Rightarrow> bool" and step_storable :: "raw_env \<Rightarrow> SagaStepExecution \<Rightarrow> bool" where
  "storable E (SagaExecution u d es c st ar p us) \<longleftrightarrow>
     u < 2 ^ 128 \<and> (case us of None \<Rightarrow> True | Some v \<Rightarrow> v < 2 ^ 128) \<and> (\<forall>x \<in> set (saga_operations d). operation_ok E x)
     \<and> validate_saga d = Inr () \<and> context_codec_ok E c
     \<and> map sp_definition es = take (length es) (sg_steps d)
     \<and> (\<forall>q \<in> set es. step_storable E q) \<and> (case p of None \<Rightarrow> True | Some q \<Rightarrow> step_storable E q)"
| "step_storable E (SagaStepExecution d st ar rel inner) \<longleftrightarrow>
     (\<forall>x \<in> set (step_operations d). operation_ok E x) \<and> distinct rel
     \<and> (if class_of d = ConditionalClass then (case inner of None \<Rightarrow> False | Some x \<Rightarrow> storable E x) else inner = None)"

lemma mapE_id: "(\<And>x. x \<in> set xs \<Longrightarrow> f (g x) = Inr x) \<Longrightarrow> mapE f (map g xs) = Inr xs"
  using mapE_map [of xs f g id] by simp

lemma raw_strs_map [simp]: "raw_strs (RList (map RStr xs)) = Inr xs"
  using mapE_id [of xs raw_str RStr] by (simp add: raw_strs_def)

lemma user_roundtrip: "(case us of None \<Rightarrow> True | Some v \<Rightarrow> v < 2 ^ 128) \<Longrightarrow> user_from_raw (uuid_option_raw us) = Inr us"
  by (cases us) (simp_all add: user_from_raw_def uuid_option_raw_def uuid_of_str)

lemma zip_aligned: "map f es = take (length es) ds \<Longrightarrow> zip ds (map g es) = map (\<lambda>e. (f e, g e)) es"
proof (induction es arbitrary: ds)
  case (Cons e es)
  then show ?case by (cases ds) auto
qed simp

lemma step_attrs_raw:
  assumes "\<forall>x \<in> set (step_operations d). operation_ok E x" "distinct rel" "override = None \<or> override = Some d"
  shows "step_execution_attrs E (step_execution_raw E (SagaStepExecution d st ar rel inner)) override = Inr (d, st, ar, rel)"
  using assms saga_roundtrip(2) [OF assms(1)]
  by (auto simp: step_execution_attrs_def raw_get_def uniq_distinct)

lemma execution_roundtrip:
  "storable E x \<Longrightarrow> execution_from_raw E (execution_raw E x) = Inr x"
  "step_storable E p \<Longrightarrow> override = None \<or> override = Some (sp_definition p) \<Longrightarrow>
     step_execution_from_raw E override (step_execution_raw E p) = Inr p"
proof (induction E x and E p arbitrary: and override rule: execution_raw_step_execution_raw.induct)
  case (1 E u d es c st ar p us)
  let ?x = "SagaExecution u d es c st ar p us"
  have attrs: "execution_attrs E (execution_raw E ?x) = Inr (d, st, c)" and ids: "execution_ids (execution_raw E ?x) = Inr (u, us, ar)"
    using 1 saga_roundtrip(1) [of d E] by (simp_all add: execution_attrs_def execution_ids_def context_codec_ok_def uuid_of_str raw_get_def user_roundtrip)
  have steps: "mapE (\<lambda>(sd, x). step_execution_from_raw E (Some sd) x) (zip (sg_steps d) (map (step_execution_raw E) es)) = Inr es"
    using 1 zip_aligned [of sp_definition es "sg_steps d" "step_execution_raw E"] by (auto intro!: mapE_id)
  have paused: "step_execution_from_raw E None (step_execution_raw E q) = Inr q \<and> step_execution_raw E q \<noteq> RNone" if "p = Some q" for q
  proof
    have "step_storable E q" using 1(3) that by simp
    with 1(2) that show "step_execution_from_raw E None (step_execution_raw E q) = Inr q" by blast
    show "step_execution_raw E q \<noteq> RNone" by (cases q) simp
  qed
  show ?case
    using attrs ids steps paused 1 by (cases p) (simp_all add: execution_from_raw.simps)
next
  case (2 E d st ar rel inner)
  note attrs = step_attrs_raw [of d E rel override st ar inner]
  show ?case
  proof (cases d)
    case (ConditionalSagaStep ifs els)
    with 2 attrs show ?thesis
      by (cases inner) (auto simp: step_execution_from_raw.simps conditional_execution_classname_def remote_execution_classname_def local_execution_classname_def)
  qed (use 2 attrs in \<open>auto simp: step_execution_from_raw.simps remote_execution_classname_def local_execution_classname_def\<close>)
qed

section \<open>Storage\<close>

text \<open>
  The saga storage keeps the serialized form under the text of the identifier; storing again
  replaces it, and deleting an absent execution does nothing. A document comes back as it went in.
\<close>

definition store :: "('e, 't) saga_env \<Rightarrow> ('e, 't, unit) sxop" where
  "store V = modifyE (\<lambda>(x, s). (x, s\<lparr>sw_storage := dict_set (sx_uuid x) (execution_raw (sv_raw V) x) (sw_storage s)\<rparr>))"

definition load :: "('e, 't) saga_env \<Rightarrow> uuid \<Rightarrow> ('e, 't, SagaExecution) sop" where
  "load V u = bindE (getsE sw_storage) (\<lambda>d. case dict_get d u of
     None \<Rightarrow> raiseE SagaExecutionNotFoundException
   | Some r \<Rightarrow> liftE (execution_from_raw (sv_raw V) r))"

definition delete :: "('e, 't, unit) sxop" where
  "delete = modifyE (\<lambda>(x, s). (x, s\<lparr>sw_storage := dict_del (sx_uuid x) (sw_storage s)\<rparr>))"

section \<open>The manager\<close>

definition run_with_pause_on_disk :: "('e, 't) saga_env \<Rightarrow> SagaResponse option \<Rightarrow> bool \<Rightarrow> ('e, 't, unit) sxop" where
  "run_with_pause_on_disk V response autocommit =
     catchE (bindE (execution_execute V response False) (\<lambda>_. whenE autocommit (execution_commit V)))
       (\<lambda>y. if y = SagaPausedExecutionStepException then Some (store V)
            else if is_failed_execution_exception y
              then Some (bindE (whenE autocommit (execution_reject V)) (\<lambda>_. raiseE y))
            else None)"

text \<open>
  \<open>_get_response\<close>: messages are received until one carries the identifier of the execution. The
  first argument is what arrives at the client until the timeout; running out of messages is the
  exception \<open>receive\<close> raises, and the execution becomes errored.
\<close>

fun get_response :: "BrokerMessage list \<Rightarrow> uuid \<Rightarrow> saga_error + SagaResponse \<times> BrokerMessage list" where
  "get_response [] u = Inl (SagaFailedExecutionException (Raised ''MinosHandlerNotFoundEnoughEntriesException''))"
| "get_response (m # ms) u = (case dict_get (bm_headers m) ''saga'' of
     None \<Rightarrow> get_response ms u
   | Some t \<Rightarrow> (case uuid_of t of
       Inl e \<Rightarrow> Inl e
     | Inr v \<Rightarrow> if v \<noteq> u then get_response ms u
         else (case SagaResponse_from_message m of Inl e \<Rightarrow> Inl e | Inr rs \<Rightarrow> Inr (rs, ms))))"

lemma get_response_length: "get_response ms u = Inr (rs, ms') \<Longrightarrow> length ms' < length ms"
  by (induction ms u rule: get_response.induct) (fastforce split: option.splits sum.splits if_splits)+

text \<open>
  The loop of \<open>_run_with_pause_on_memory\<close>. Every turn that ends in a pause takes a message, and a
  turn that ends normally leaves a status that ends the loop (\<open>execute_returns\<close> below), so the
  outcome \<open>NonTermination\<close> does not arise.
\<close>

function memory_loop :: "('e, 't) saga_env \<Rightarrow> BrokerMessage list \<Rightarrow> SagaResponse option \<Rightarrow> ('e, 't, unit) sxop" where
  "memory_loop V inbox response (x, s) =
     (if sx_status x \<notin> {Created, Paused} then (Inr (), (x, s))
      else (case execution_execute V response False (x, s) of
          (Inr _, (x1, s1)) \<Rightarrow>
            (if sx_status x1 \<notin> {Created, Paused} then store V (x1, s1) else (Inl (Agg NonTermination), (x1, s1)))
        | (Inl y, (x1, s1)) \<Rightarrow>
            (if y \<noteq> SagaPausedExecutionStepException then (Inl y, (x1, s1))
             else (case get_response inbox (sx_uuid x1) of
                 Inl z \<Rightarrow> (Inl z, (if is_failed_execution_exception z then set_status Errored x1 else x1, s1))
               | Inr (rs, inbox') \<Rightarrow> memory_loop V inbox' (Some rs) (snd (store V (x1, s1)))))))"
  by pat_completeness auto
termination
  by (relation "measure (\<lambda>(V, inbox, response, x, s). length inbox)") (auto dest: get_response_length)

declare memory_loop.simps [simp del]

definition run_with_pause_on_memory :: "('e, 't) saga_env \<Rightarrow> BrokerMessage list \<Rightarrow> SagaResponse option \<Rightarrow> bool \<Rightarrow> ('e, 't, unit) sxop" where
  "run_with_pause_on_memory V inbox response autocommit =
     catchE (bindE (memory_loop V inbox response) (\<lambda>_. whenE autocommit (execution_commit V)))
       (\<lambda>y. if is_failed_execution_exception y
          then Some (bindE (whenE autocommit (execution_reject V)) (\<lambda>_. raiseE y)) else None)"

text \<open>The services named by the executed and the paused steps go into the headers of the request, when
  there is one.\<close>

definition execution_services :: "SagaExecution \<Rightarrow> string list" where
  "execution_services x =
     unions (fold (\<lambda>p acc. unions acc (sp_related p)) (sx_executed x) [])
       (case sx_paused x of None \<Rightarrow> [] | Some p \<Rightarrow> sp_related p)"

definition extend_services :: "string list \<Rightarrow> (string, string) dict \<Rightarrow> (string, string) dict" where
  "extend_services names h = dict_set ''related_services'' (join_with CHR '','' (unions names (related_services_of h))) h"

definition update_headers :: "('e, 't, unit) sxop" where
  "update_headers = modifyE (\<lambda>(x, s). (x, s\<lparr>sw_headers := map_option (extend_services (execution_services x)) (sw_headers s)\<rparr>))"

record run_options =
  ro_autocommit :: bool
  ro_pause_on_disk :: bool
  ro_raise_on_error :: bool
  ro_inbox :: "BrokerMessage list"

definition manager_run_execution :: "('e, 't) saga_env \<Rightarrow> run_options \<Rightarrow> SagaResponse option \<Rightarrow> ('e, 't, unit) sxop" where
  "manager_run_execution V opts response =
     bindE (finallyE
       (catchE (if ro_pause_on_disk opts then run_with_pause_on_disk V response (ro_autocommit opts)
                else run_with_pause_on_memory V (ro_inbox opts) response (ro_autocommit opts))
          (\<lambda>y. if is_failed_execution_exception y
             then Some (bindE (store V) (\<lambda>_. if ro_raise_on_error opts then raiseE y else retE ())) else None))
       update_headers) (\<lambda>_.
     bindE (selfs sx_status) (\<lambda>st. whenE (st = Finished) delete))"

definition run_on :: "SagaExecution \<Rightarrow> ('e, 't, unit) sxop \<Rightarrow> ('e, 't, SagaExecution) sop" where
  "run_on x m = (\<lambda>s. case m (x, s) of (Inl y, (_, s')) \<Rightarrow> (Inl y, s') | (Inr _, (x', s')) \<Rightarrow> (Inr x', s'))"

text \<open>The user of the request takes precedence over the argument.\<close>

definition run_new :: "('e, 't) saga_env \<Rightarrow> run_options \<Rightarrow> Saga \<Rightarrow> SagaContext option \<Rightarrow> uuid option \<Rightarrow> ('e, 't, SagaExecution) sop" where
  "run_new V opts definition' context' user =
     bindE (getsE sw_user) (\<lambda>current.
     bindE (on_world (bindE (getsE (\<lambda>w. r_uuid4 (sv_repos V) (w_uuid4 w)))
        (\<lambda>u. bindE (modifyE (\<lambda>w. w\<lparr>w_uuid4 := Suc (w_uuid4 w)\<rparr>)) (\<lambda>_. retE u)))) (\<lambda>u.
     bindE (liftE (SagaExecution_init definition' u (case context' of None \<Rightarrow> [] | Some c \<Rightarrow> c)
        (case current of None \<Rightarrow> user | Some v \<Rightarrow> Some v))) (\<lambda>x.
     run_on x (manager_run_execution V opts None))))"

definition load_and_run :: "('e, 't) saga_env \<Rightarrow> run_options \<Rightarrow> SagaResponse \<Rightarrow> ('e, 't, SagaExecution) sop" where
  "load_and_run V opts response =
     bindE (load V (rs_uuid response)) (\<lambda>x. run_on x (manager_run_execution V opts (Some response)))"

text \<open>The handler of the reply topic of the service.\<close>

definition service_reply :: "('e, 't) saga_env \<Rightarrow> BrokerMessage \<Rightarrow> ('e, 't, unit) sop" where
  "service_reply V m =
     bindE (liftE (SagaResponse_from_message m)) (\<lambda>response.
     bindE (load_and_run V \<lparr>ro_autocommit = True, ro_pause_on_disk = True, ro_raise_on_error = False, ro_inbox = []\<rparr> response)
       (\<lambda>_. retE ()))"

section \<open>The middleware\<close>

fun nested_transactions :: "('e, 't) repos \<Rightarrow> uuid list \<Rightarrow> ('e, 't, 'a) cop \<Rightarrow> ('e, 't, 'a) cop" where
  "nested_transactions R [] m = m"
| "nested_transactions R (u # us) m = in_transaction R u (nested_transactions R us m)"

text \<open>\<open>t.rsplit(",", 1)[0]\<close> when there is a comma.\<close>

definition before_last :: "char \<Rightarrow> string \<Rightarrow> string option" where
  "before_last c s = (if c \<in> set s then Some (rev (tl (dropWhile (\<lambda>x. x \<noteq> c) (rev s)))) else None)"

definition close_transactions :: "(string, string) dict \<Rightarrow> (string, string) dict" where
  "close_transactions h = (case dict_get h ''transactions'' of
     None \<Rightarrow> h
   | Some t \<Rightarrow> (case before_last CHR '','' t of
       None \<Rightarrow> dict_del ''transactions'' h | Some t' \<Rightarrow> dict_set ''transactions'' t' h))"

definition close_headers :: "string \<Rightarrow> (string, string) dict \<Rightarrow> (string, string) dict" where
  "close_headers name h = (let h = close_transactions h in
     dict_set ''related_services'' (join_with CHR '','' (adds name (related_services_of h))) h)"

text \<open>\<open>transactional_command\<close>: the first argument after the environment is the header of the broker
  message the request comes from, if it comes from one.\<close>

definition transactional_command :: "('e, 't) saga_env \<Rightarrow> (string, string) dict option \<Rightarrow> ('e, 't, 'a) cop \<Rightarrow> ('e, 't, 'a) sop" where
  "transactional_command V message handler =
     finallyE
       (case (case message of None \<Rightarrow> None | Some h \<Rightarrow> dict_get h ''transactions'') of
          None \<Rightarrow> on_world handler
        | Some t \<Rightarrow> if t = [] then on_world handler else
            bindE (liftE (mapE uuid_of (split_on CHR '','' t))) (\<lambda>us. on_world (nested_transactions (sv_repos V) us handler)))
       (modifyE (\<lambda>s. s\<lparr>sw_headers := map_option (close_headers (sv_name V)) (sw_headers s)\<rparr>))"

end
