(* ===== verification/Saga_Properties.thy ===== *)
theory Saga_Properties
  imports Saga_Manager Tx_Properties
begin

text \<open>
  Properties of the saga package: definitions, executions in every sequence of calls, rollback and
  commit, serialized executions, and the headers that carry the transactions of a saga to the
  services it calls.
\<close>

section \<open>Definitions\<close>

definition steps_valid :: "Saga \<Rightarrow> bool" where
  "steps_valid sg \<longleftrightarrow> (\<forall>st \<in> set (butlast (sg_steps sg)). validate_step st = Inr ())
     \<and> (sg_committed sg \<longrightarrow> (\<forall>st \<in> set (sg_steps sg). validate_step st = Inr ()))"

lemma valid_all_steps:
  "steps_valid sg \<Longrightarrow> sg_steps sg = [] \<or> validate_step (last (sg_steps sg)) = Inr () \<Longrightarrow> \<forall>st \<in> set (sg_steps sg). validate_step st = Inr ()"
  by (cases "sg_steps sg" rule: rev_cases) (auto simp: steps_valid_def)

lemma checked_Inr:
  "checked k sg = Inr sg' \<Longrightarrow> \<not> sg_committed sg \<Longrightarrow> k sg = Inr sg' \<and> (sg_steps sg = [] \<or> validate_step (last (sg_steps sg)) = Inr ())"
  by (auto simp: checked_def split: if_splits sum.splits)

lemma add_step_valid:
  "checked (add_step cls arg) sg = Inr sg' \<Longrightarrow> steps_valid sg \<Longrightarrow> steps_valid sg'"
proof -
  assume r: "checked (add_step cls arg) sg = Inr sg'" and v: "steps_valid sg"
  show ?thesis
  proof (cases "sg_committed sg")
    case True
    with r show ?thesis by (simp add: checked_def add_step_def)
  next
    case False
    note k = checked_Inr [OF r False]
    then obtain st where "sg' = Saga (sg_steps sg @ [st]) False"
      using False by (auto simp: add_step_def split: sum.splits)
    with valid_all_steps [OF v] k show ?thesis by (auto simp: steps_valid_def)
  qed
qed

lemma saga_commit_valid:
  "checked (saga_commit cb) sg = Inr sg' \<Longrightarrow> steps_valid sg \<Longrightarrow> steps_valid sg'"
proof -
  assume r: "checked (saga_commit cb) sg = Inr sg'" and v: "steps_valid sg"
  show ?thesis
  proof (cases "sg_committed sg")
    case True
    with r show ?thesis by (simp add: checked_def saga_commit_def)
  next
    case False
    note k = checked_Inr [OF r False]
    with False have "sg' = Saga (sg_steps sg @ (case cb of None \<Rightarrow> [] | Some x \<Rightarrow> [LocalSagaStep (Some x) None])) True"
      by (auto simp: saga_commit_def add_step_def split: option.splits)
    with valid_all_steps [OF v] k show ?thesis by (auto simp: steps_valid_def split: option.splits dest: in_set_butlastD)
  qed
qed

lemma on_last_valid: "on_last f sg = Inr sg' \<Longrightarrow> steps_valid sg \<Longrightarrow> steps_valid sg'"
  by (auto simp: on_last_def steps_valid_def split: if_splits sum.splits)

lemma fluent_valid: "fluent call sg = Inr sg' \<Longrightarrow> steps_valid sg \<Longrightarrow> steps_valid sg'"
  by (cases call) (auto intro: add_step_valid saga_commit_valid on_last_valid)

lemma fluent_chain_valid: "fluent_chain cs sg = Inr sg' \<Longrightarrow> steps_valid sg \<Longrightarrow> steps_valid sg'"
  by (induction cs arbitrary: sg) (auto split: sum.splits dest: fluent_valid)

text \<open>C35: a saga built with the fluent interface and committed is valid: a chain of calls that starts
  with an empty saga, raises nothing and ends committed with at least one step gives a definition
  that \<open>validate\<close> accepts, and an execution of it can be created.\<close>

theorem fluent_saga_valid:
  assumes "fluent_chain calls (Saga [] False) = Inr sg" "sg_committed sg" "sg_steps sg \<noteq> []"
  shows "validate_saga sg = Inr () \<and> (\<exists>x. SagaExecution_init sg u c user = Inr x \<and> sx_status x = Created)"
proof -
  have "steps_valid sg" using fluent_chain_valid [OF assms(1)] by (simp add: steps_valid_def)
  with assms(2) have "\<forall>st \<in> set (sg_steps sg). validate_step st = Inr ()" by (simp add: steps_valid_def)
  with assms(2,3) have "validate_saga sg = Inr ()" by (cases sg) (simp add: checkE_ok [THEN iffD2])
  then show ?thesis by (simp add: SagaExecution_init_def)
qed

definition op_named :: "string \<Rightarrow> SagaOperation" where
  "op_named n = \<lparr>op_callback = n, op_parameters = None\<rparr>"

definition demo_calls :: "fluent_call list" where
  "demo_calls = [AddStep LocalClass (OpStep (op_named ''create'')), OnFailure (op_named ''remove''),
     AddStep RemoteClass NoStep, OnExecute (op_named ''reserve''), OnFailure (op_named ''release''),
     AddStep ConditionalClass NoStep, IfThen (op_named ''paid'') (Saga [LocalSagaStep (Some (op_named ''ship'')) None] True),
     Commit None]"

theorem fluent_saga_valid_witness:
  "\<exists>sg. fluent_chain demo_calls (Saga [] False) = Inr sg \<and> length (sg_steps sg) = 3 \<and> validate_saga sg = Inr ()"
proof -
  have "case fluent_chain demo_calls (Saga [] False) of Inl _ \<Rightarrow> False
      | Inr sg \<Rightarrow> sg_committed sg \<and> length (sg_steps sg) = 3" by code_simp
  then obtain sg where sg: "fluent_chain demo_calls (Saga [] False) = Inr sg" "sg_committed sg" "length (sg_steps sg) = 3"
    by (auto split: sum.splits)
  then have "sg_steps sg \<noteq> []" by auto
  from fluent_saga_valid [OF sg(1,2) this] sg show ?thesis by auto
qed

section \<open>Executions\<close>

text \<open>C12: whatever sequence of \<open>execute\<close>, \<open>rollback\<close>, \<open>commit\<close> and \<open>reject\<close> is called on a new execution,
  with whatever responses, returning or raising, the executed steps are an initial part of the steps
  of the definition in their order, a paused execution waits at the step right after them, and a
  finished one has executed every step.\<close>

theorem execution_run_invariant:
  assumes "SagaExecution_init d u c user = Inr x0" "(execution_step V)\<^sup>*\<^sup>* x0 x"
  shows "sx_definition x = d \<and> sx_uuid x = u
    \<and> map sp_definition (sx_executed x) = take (length (sx_executed x)) (sg_steps d)
    \<and> (sx_status x = Paused \<longrightarrow> (\<exists>p ds. sx_paused x = Some p \<and> drop (length (sx_executed x)) (sg_steps d) = sp_definition p # ds))
    \<and> (sx_status x = Finished \<longrightarrow> map sp_definition (sx_executed x) = sg_steps d \<and> sx_paused x = None)"
proof -
  have "execution_ok x \<and> evolves x0 x" by (rule execution_run_ok [OF assms(2) new_execution_ok [OF assms(1)]])
  moreover have "sx_definition x0 = d" "sx_uuid x0 = u"
    using assms(1) by (auto simp: SagaExecution_init_def split: sum.splits)
  ultimately show ?thesis
    by (auto simp: execution_ok_def evolves_def pending_steps_def split: option.splits)
qed

text \<open>An execution that failed stays failed: after an execution is errored no sequence of calls
  makes it run, pause or finish again; and a finished one only becomes errored, by a commit that
  is refused.\<close>

theorem errored_for_ever:
  assumes "(execution_step V)\<^sup>*\<^sup>* x x'" "execution_ok x" "sx_status x \<in> {Finished, Errored}"
  shows "(sx_status x' = Errored \<or> (sx_status x = Finished \<and> sx_status x' = Finished))
    \<and> prefix (map sp_definition (sx_executed x)) (map sp_definition (sx_executed x'))"
  using execution_run_ok [OF assms(1,2)] assms(3) by (auto simp: evolves_def)


section \<open>Callbacks in a transaction\<close>

definition outer_of :: "('e, 't) world \<Rightarrow> uuid" where
  "outer_of w = (case current_tx w of None \<Rightarrow> NULL_UUID | Some v \<Rightarrow> v)"

definition saga_entry :: "uuid \<Rightarrow> uuid \<Rightarrow> TransactionEntry" where
  "saga_entry u dest = \<lparr>te_uuid = u, te_status = PENDING, te_event_offset = None, te_destination_uuid = dest,
     te_updated_at = None, te_autocommit = False, te_token = None, te_shared = False\<rparr>"

lemma TransactionEntry_init_saga:
  "TransactionEntry_init R (Some u) StatusNone None None None False w = (Inr (saga_entry u (outer_of w)), w)"
  by (simp add: TransactionEntry_init_def bindE_apply status_of_arg_def saga_entry_def outer_of_def split: option.splits)

lemma aenter_saga:
  "aenter R (saga_entry u (outer_of w), w) =
     save R None None ((saga_entry u (outer_of w))\<lparr>te_token := Some (w_ctx w)\<rparr>, w\<lparr>w_ctx := core_of (saga_entry u (outer_of w)) # w_ctx w\<rparr>)"
  by (simp add: aenter_def selfE_def worldE_def bindE_apply saga_entry_def outer_of_def split: option.splits)

definition may_enter :: "(uuid \<Rightarrow> tx_core option) \<Rightarrow> uuid \<Rightarrow> uuid \<Rightarrow> bool" where
  "may_enter lk dest u = (case lk u of None \<Rightarrow> True | Some t \<Rightarrow> te_status t = PENDING \<and> te_destination_uuid t = dest)"

context repositories
begin

text \<open>A transaction that is new or still pending in the same place is entered, the body runs with it on
  top of the stack, and the stack is restored however the body ends.\<close>

lemma in_transaction_entered:
  fixes m :: "('e, 't, 'x) cop"
  assumes "winv w" "may_enter (lk w) (outer_of w) u"
  obtains w1 where "in_transaction R u m w = (case m w1 of (r, w2) \<Rightarrow> (r, w2\<lparr>w_ctx := w_ctx w\<rparr>))"
    "winv w1" "current_tx w1 = Some u" "w_ctx w1 = core_of (saga_entry u (outer_of w)) # w_ctx w"
    "lk w1 = (lk w)(u \<mapsto> (core_of (saga_entry u (outer_of w)))\<lparr>te_updated_at := Some (At (w_now w))\<rparr>)"
    "w_events w1 = w_events w" "w_sent w1 = w_sent w"
proof -
  let ?e = "(saga_entry u (outer_of w))\<lparr>te_token := Some (w_ctx w)\<rparr>"
  let ?w = "w\<lparr>w_ctx := core_of (saga_entry u (outer_of w)) # w_ctx w\<rparr>"
  have inv: "winv ?w" using assms(1) by (simp add: world_ok_def)
  have acc: "accepts (lk ?w) ?e (te_status (assigned None None ?e))"
    using assms(2) by (auto simp: accepts_def assigned_def may_enter_def saga_entry_def)
  obtain e' t' where sv: "save R None None (?e, ?w) = (Inr (), (e', ?w\<lparr>w_txs := t'\<rparr>))" "tinv t'"
    "lookup t' = (lk ?w)(te_uuid ?e \<mapsto> (core_of (assigned None None ?e))\<lparr>te_updated_at := Some (At (w_now ?w))\<rparr>)"
    "same_entry (assigned None None ?e) e'"
    using save_ok [OF inv _ acc] by (metis TransactionEntry.select_convs(3) TransactionEntry.update_convs(2) saga_entry_def)
  have e': "te_token e' = Some (w_ctx w)" "te_autocommit e' = False"
    using same_entry_simps [OF sv(4)] by (simp_all add: assigned_def saga_entry_def)
  have "in_transaction R u m w = (case m (?w\<lparr>w_txs := t'\<rparr>) of (r, w2) \<Rightarrow> (r, w2\<lparr>w_ctx := w_ctx w\<rparr>))"
    using sv(1) e'
    by (simp add: in_transaction_def bindE_apply aggE_def TransactionEntry_init_saga aenter_saga aexit_def selfE_def worldE_def
        split: prod.splits)
  with sv inv show thesis
    by (intro that [of "?w\<lparr>w_txs := t'\<rparr>"])
      (auto simp: world_ok_def current_tx_def core_of_def tx_core.truncate_def assigned_def saga_entry_def)
qed

text \<open>Any other stored transaction refuses the entry, after the stack was changed.\<close>

lemma in_transaction_refused:
  assumes "winv w" "lk w u = Some t" "te_status t \<noteq> PENDING"
  shows "in_transaction R u m w = (Inl (Agg TransactionRepositoryConflictException), w\<lparr>w_ctx := core_of (saga_entry u (outer_of w)) # w_ctx w\<rparr>)"
proof -
  let ?e = "(saga_entry u (outer_of w))\<lparr>te_token := Some (w_ctx w)\<rparr>"
  let ?w = "w\<lparr>w_ctx := core_of (saga_entry u (outer_of w)) # w_ctx w\<rparr>"
  have inv: "winv ?w" using assms(1) by (simp add: world_ok_def)
  have "\<not> transition (te_status t) (te_status (assigned None None ?e))"
    using assms(3) by (cases "te_status t") (simp_all add: assigned_def saga_entry_def)
  then have "save R None None (?e, ?w) = (Inl TransactionRepositoryConflictException, (assigned None None ?e, ?w))"
    using save_refused [OF inv, of ?e t None None] assms(2) by (simp add: saga_entry_def)
  then show ?thesis
    by (simp add: in_transaction_def bindE_apply aggE_def TransactionEntry_init_saga aenter_saga)
qed

end

text \<open>A callback of a saga runs inside the transaction of the saga. When that transaction is new, or
  pending with the current transaction as its destination, it is stored as pending and current
  while the callback runs; afterwards the stack of active transactions is the one from before,
  whether the callback returned or raised, and an exception of the callback is reported as an
  executor exception. The transaction is not committed.\<close>

theorem callback_in_transaction:
  assumes "db_ok w" "may_enter (db_txs w) (outer_of w) u"
  shows "\<exists>w1 t. current_tx w1 = Some u \<and> db_ok w1 \<and> w_events w1 = w_events w
    \<and> db_txs w1 = (db_txs w)(u \<mapsto> t) \<and> te_status t = PENDING \<and> te_destination_uuid t = outer_of w
    \<and> exec_function (db_repos c g) u m w =
        (case m w1 of (Inl x, w2) \<Rightarrow> (Inl (ExecutorException x), w2\<lparr>w_ctx := w_ctx w\<rparr>)
         | (Inr a, w2) \<Rightarrow> (Inr a, w2\<lparr>w_ctx := w_ctx w\<rparr>))"
proof -
  obtain w1 where w1: "in_transaction (db_repos c g) u m w = (case m w1 of (r, w2) \<Rightarrow> (r, w2\<lparr>w_ctx := w_ctx w\<rparr>))"
    "db_ok w1" "current_tx w1 = Some u"
    "db_txs w1 = (db_txs w)(u \<mapsto> (core_of (saga_entry u (outer_of w)))\<lparr>te_updated_at := Some (At (w_now w))\<rparr>)"
    "w_events w1 = w_events w"
    by (rule db_proto.in_transaction_entered [OF assms, where m = m])
  then show ?thesis
    by (intro exI [of _ w1] exI [of _ "(core_of (saga_entry u (outer_of w)))\<lparr>te_updated_at := Some (At (w_now w))\<rparr>"])
      (simp add: exec_function_def catchE_def saga_entry_def split: prod.splits sum.splits)
qed

theorem callback_in_transaction_witness:
  "\<exists>w1. current_tx w1 = Some 1
    \<and> exec_function demo_db 1 (retE ()) world_open = (Inr (), w1\<lparr>w_ctx := []\<rparr>)"
proof -
  have "db_ok world_open" "may_enter (db_txs world_open) (outer_of world_open) 1" "w_ctx world_open = []" by code_simp+
  from callback_in_transaction [OF this(1,2), where m = "retE ()" and c = demo_codec and g = Suc] this(3)
  show ?thesis by auto
qed

text \<open>A callback whose transaction is no longer pending is not run, and the refusal leaves the
  transaction current: the stack of active transactions is changed before the entry is saved and
  nothing takes it back, so what the caller submits next goes into the closed transaction.\<close>

theorem closed_transaction_stays_current:
  assumes "db_ok w" "db_txs w u = Some t" "te_status t \<noteq> PENDING"
  shows "\<exists>w'. exec_function (db_repos c g) u m w = (Inl (ExecutorException (Agg TransactionRepositoryConflictException)), w')
    \<and> current_tx w' = Some u \<and> length (w_ctx w') = Suc (length (w_ctx w)) \<and> w_txs w' = w_txs w"
  using db_proto.in_transaction_refused [OF assms, of c g m]
  by (simp add: exec_function_def catchE_def current_tx_def saga_entry_def)

theorem closed_transaction_stays_current_witness:
  "\<exists>w'. exec_function demo_db 1 (retE ()) world_reserved
      = (Inl (ExecutorException (Agg TransactionRepositoryConflictException)), w') \<and> current_tx w' = Some 1"
proof -
  have "db_ok world_reserved" "map_option te_status (db_txs world_reserved 1) = Some RESERVED" by code_simp+
  then obtain t where "db_ok world_reserved" "db_txs world_reserved 1 = Some t" "te_status t \<noteq> PENDING" by auto
  from closed_transaction_stays_current [OF this, of demo_codec Suc "retE ()"] show ?thesis by blast
qed

section \<open>Committing\<close>

lemma send_all_accepted:
  "(\<And>out m. sv_sends V out m) \<Longrightarrow> send_all V ms s = (Inr (), s\<lparr>sw_out := sw_out s @ ms\<rparr>)"
  by (induction ms arbitrary: s) (simp_all add: send_def)

lemma get_many_found: "length result < n \<Longrightarrow> n \<le> length result + length ms \<Longrightarrow>
    get_many n result ms = Inr (result @ take (n - length result) ms)"
proof (induction n result ms rule: get_many.induct)
  case (2 n result m ms)
  then show ?case
  proof (cases "length (result @ [m]) = n")
    case True
    then have "n - length result = Suc 0" by auto
    with True show ?thesis by simp
  next
    case False
    with 2 have "n - length result = Suc (n - length (result @ [m]))" by auto
    with False 2 show ?thesis by auto
  qed
qed simp

lemma get_many_short: "n \<le> length result \<or> length result + length ms < n \<Longrightarrow> \<exists>y. get_many n result ms = Inl y"
  by (induction n result ms rule: get_many.induct) auto

text \<open>C13: the two phases of the commit of a saga. A reserve message goes out for every transaction; when
  as many replies arrive and all are successful, a commit message goes out for every transaction;
  when they arrive and one is not successful, a reject message goes out for every transaction and
  the commit fails; when too few arrive, or when there is no transaction at all, the commit fails and
  nothing else is sent. Commit and reject messages never go out both.\<close>

theorem commit_two_phases:
  fixes V :: "('e, 't) saga_env"
  assumes "\<And>out m. sv_sends V out m"
  defines "reserved \<equiv> \<lambda>ts. map (transaction_message ''Reserve'' (Some (sv_pool_topic V))) ts"
    and "replies \<equiv> \<lambda>ts s. sv_replies V (sw_out s @ map (transaction_message ''Reserve'' (Some (sv_pool_topic V))) ts)"
  shows "if ts = [] \<or> length (replies ts s) < length ts
    then \<exists>y. committer_commit V ts s = (Inl y, s\<lparr>sw_out := sw_out s @ reserved ts\<rparr>)
    else committer_commit V ts s =
      (if \<forall>m \<in> set (take (length ts) (replies ts s)). bm_status m = 200
       then (Inr (), s\<lparr>sw_out := sw_out s @ reserved ts @ map (transaction_message ''Commit'' None) ts\<rparr>)
       else (Inl (Agg ValueError), s\<lparr>sw_out := sw_out s @ reserved ts @ map (transaction_message ''Reject'' None) ts\<rparr>))"
proof (cases "ts = [] \<or> length (replies ts s) < length ts")
  case True
  then have "\<exists>y. get_many (length ts) [] (replies ts s) = Inl y" by (intro get_many_short) auto
  with True show ?thesis
    by (auto simp: committer_commit_def committer_reserve_def bindE_apply send_all_accepted assms(1) reserved_def replies_def)
next
  case False
  then have "get_many (length ts) [] (replies ts s) = Inr (take (length ts) (replies ts s))"
    using get_many_found [of "[]" "length ts" "replies ts s"] by auto
  with False show ?thesis
    by (simp add: committer_commit_def committer_reserve_def committer_reject_def bindE_apply send_all_accepted assms(1)
        reserved_def replies_def list_all_iff)
qed

definition demo_world_saga :: "('e, 't) world \<Rightarrow> ('e, 't) saga_world" where
  "demo_world_saga w = \<lparr>sw_world = w, sw_out = [], sw_headers = None, sw_reply_topic = None, sw_user = None, sw_storage = []\<rparr>"

definition ok_reply :: BrokerMessage where
  "ok_reply = \<lparr>bm_topic = ''pool'', bm_content = VInt 0, bm_headers = [], bm_reply_topic = None, bm_status = 200\<rparr>"

definition demo_raw :: raw_env where
  "demo_raw = \<lparr>rv_import = Inr, rv_context_str = (\<lambda>c. if c = [] then '''' else ''x''), rv_context_of = (\<lambda>s. Inr [])\<rparr>"

definition demo_env :: "(db_events, db_tx) saga_env" where
  "demo_env = \<lparr>sv_repos = demo_db, sv_name = ''order'', sv_pool_topic = ''pool'',
     sv_local = (\<lambda>cb ps c. retE (c, None)), sv_request = (\<lambda>cb ps c. retE \<lparr>rq_target = cb, rq_content = VInt 0\<rparr>),
     sv_response = (\<lambda>cb ps c rs. retE (Inr c)), sv_condition = (\<lambda>cb ps c. retE False),
     sv_sends = (\<lambda>out m. True), sv_replies = (\<lambda>out. map (\<lambda>_. ok_reply) out), sv_raw = demo_raw\<rparr>"

theorem commit_two_phases_witness:
  "map bm_topic (sw_out (snd (committer_commit demo_env [(5, ''order''), (5, ''stock'')] (demo_world_saga world_open))))
    = [''_ReserveOrderTransaction'', ''_ReserveStockTransaction'', ''_CommitOrderTransaction'', ''_CommitStockTransaction'']"
proof -
  have "sv_sends demo_env out m" for out m by (simp add: demo_env_def)
  from commit_two_phases [OF this, where ts = "[(5, ''order''), (5, ''stock'')]" and s = "demo_world_saga world_open"]
  have "committer_commit demo_env [(5, ''order''), (5, ''stock'')] (demo_world_saga world_open)
    = (Inr (), (demo_world_saga world_open)\<lparr>sw_out := map (transaction_message ''Reserve'' (Some ''pool'')) [(5, ''order''), (5, ''stock'')]
        @ map (transaction_message ''Commit'' None) [(5, ''order''), (5, ''stock'')]\<rparr>)"
    by (simp add: demo_env_def demo_world_saga_def ok_reply_def)
  moreover have "title ''order'' = ''Order''" "title ''stock'' = ''Stock''" by code_simp+
  ultimately show ?thesis by (simp add: transaction_message_def)
qed

text \<open>The transactions of an execution are those its executed steps took part in, each once and in
  ascending order: a step that is not conditional contributes the execution's identifier with every
  service it names, a conditional step what the steps inside it contribute.\<close>

theorem transactions_sorted_once:
  "sorted (transactions u es) \<and> distinct (transactions u es)
   \<and> set (transactions u es) =
      (\<Union>p \<in> set es. if class_of (sp_definition p) = ConditionalClass
         then (case sp_inner p of None \<Rightarrow> {} | Some x \<Rightarrow> set (transactions (sx_uuid x) (sx_executed x)))
         else Pair u ` set (sp_related p))"
proof -
  have "set (step_transactions u p) = (if class_of (sp_definition p) = ConditionalClass
         then (case sp_inner p of None \<Rightarrow> {} | Some x \<Rightarrow> set (transactions (sx_uuid x) (sx_executed x)))
         else Pair u ` set (sp_related p))" for p
    by (cases p) (auto simp: transactions_def split: option.splits)
  then show ?thesis by (simp add: transactions_def)
qed

section \<open>Rollback\<close>

lemma remote_rollback_sent:
  assumes "sp_definition p = RemoteSagaStep a b e (Some x)" "sp_status p \<noteq> StepCreated" "\<not> sp_already_rollback p"
    "SagaContext_init c = Inr c" "exec V u (\<lambda>cb ps. sv_request V cb ps c) x s = (Inr rq, s\<lparr>sw_world := w\<rparr>)"
    "\<And>out m. sv_sends V out m"
  shows "remote_rollback V u user c (p, s) =
     (Inr c, (set_step_already True p, s\<lparr>sw_world := w, sw_out := sw_out s @ [request_message V s u user rq]\<rparr>))"
  using assms
  by (simp add: remote_rollback_def check_rollback_def bindE_apply outside_apply request_exec_def as_failed_step_def
      catchE_def publish_def send_def request_message_def)

lemma step_rollback_remote:
  "class_of (sp_definition p) = RemoteClass \<Longrightarrow> step_rollback V u user p c s = remote_rollback V u user c (p, s)"
  by (cases p) simp

text \<open>C14: compensation goes backwards. When the executed steps are remote steps with a failure
  operation whose callbacks succeed, a rollback publishes one request for each of them, from the
  last executed step to the first, marks each as rolled back, and reports no failure.\<close>

theorem rollback_in_reverse:
  assumes steps: "\<And>p. p \<in> set es \<Longrightarrow> (\<exists>a b e. sp_definition p = RemoteSagaStep a b e (Some (fop p)))
      \<and> sp_status p \<noteq> StepCreated \<and> \<not> sp_already_rollback p"
    and ctx: "''fields'' \<notin> fst ` set c" and sends: "\<And>out m. sv_sends V out m"
    and calls: "\<And>p s. p \<in> set es \<Longrightarrow> I (sw_world s) \<Longrightarrow>
      \<exists>w'. exec V u (\<lambda>cb ps. sv_request V cb ps c) (fop p) s = (Inr (rq p), s\<lparr>sw_world := w'\<rparr>) \<and> I w'"
    and start: "I (sw_world s)"
  shows "\<exists>w'. rollback_steps V u user es c s = (Inr False, map (set_step_already True) es, c,
      s\<lparr>sw_world := w', sw_out := sw_out s @ map (\<lambda>p. request_message V s u user (rq p)) (rev es)\<rparr>) \<and> I w'"
  using steps calls
proof (induction es)
  case Nil
  with start show ?case by (intro exI [of _ "sw_world s"]) simp
next
  case (Cons p es)
  then obtain w' where rest: "rollback_steps V u user es c s = (Inr False, map (set_step_already True) es, c,
      s\<lparr>sw_world := w', sw_out := sw_out s @ map (\<lambda>p. request_message V s u user (rq p)) (rev es)\<rparr>)" "I w'"
    by force
  let ?s = "s\<lparr>sw_world := w', sw_out := sw_out s @ map (\<lambda>p. request_message V s u user (rq p)) (rev es)\<rparr>"
  obtain w2 where ex: "exec V u (\<lambda>cb ps. sv_request V cb ps c) (fop p) ?s = (Inr (rq p), ?s\<lparr>sw_world := w2\<rparr>)" "I w2"
    using Cons.prems(2) [of p ?s] rest(2) by auto
  obtain a b e where p: "sp_definition p = RemoteSagaStep a b e (Some (fop p))" "sp_status p \<noteq> StepCreated" "\<not> sp_already_rollback p"
    using Cons.prems(1) by force
  have "SagaContext_init c = Inr c" using ctx by (simp add: SagaContext_init_def)
  note sent = remote_rollback_sent [OF p this ex(1) sends]
  have "step_rollback V u user p c ?s = remote_rollback V u user c (p, ?s)" 
    by (rule step_rollback_remote) (simp add: p(1))
  with sent rest(1) ex(2) show ?case
    by (intro exI [of _ w2]) (simp add: request_message_def)
qed

definition idle :: "uuid \<Rightarrow> (db_events, db_tx) world \<Rightarrow> bool" where
  "idle u w \<longleftrightarrow> db_ok w \<and> w_ctx w = [] \<and> may_enter (db_txs w) NULL_UUID u"

lemma demo_callback:
  assumes "idle u (sw_world s)" "sv_repos V = demo_db"
    "\<And>w. call (op_callback x) (case op_parameters x of None \<Rightarrow> [] | Some ps \<Rightarrow> ps) w = (r, w)"
  shows "\<exists>w'. exec V u call x s = (case r of Inl y \<Rightarrow> Inl (ExecutorException y) | Inr a \<Rightarrow> Inr a, s\<lparr>sw_world := w'\<rparr>) \<and> idle u w'"
proof -
  have "outer_of (sw_world s) = NULL_UUID" using assms(1) by (simp add: outer_of_def current_tx_def idle_def)
  with assms(1) have w: "db_ok (sw_world s)" "may_enter (db_txs (sw_world s)) (outer_of (sw_world s)) u" "w_ctx (sw_world s) = []"
    by (simp_all add: idle_def)
  let ?m = "call (op_callback x) (case op_parameters x of None \<Rightarrow> [] | Some ps \<Rightarrow> ps)"
  obtain w1 where "in_transaction demo_db u ?m (sw_world s) = (case ?m w1 of (r, w2) \<Rightarrow> (r, w2\<lparr>w_ctx := w_ctx (sw_world s)\<rparr>))"
    "db_ok w1" "db_txs w1 = (db_txs (sw_world s))(u \<mapsto> (core_of (saga_entry u (outer_of (sw_world s))))\<lparr>te_updated_at := Some (At (w_now (sw_world s)))\<rparr>)"
    by (rule db_proto.in_transaction_entered [OF w(1,2), where m = ?m])
  with w(3) assms(2,3) \<open>outer_of _ = _\<close> show ?thesis
    by (intro exI [of _ "w1\<lparr>w_ctx := []\<rparr>"])
      (auto simp: exec_def on_world_def exec_function_def catchE_def idle_def may_enter_def saga_entry_def world_ok_def split: sum.splits)
qed

definition done_remote :: "string \<Rightarrow> SagaStepExecution" where
  "done_remote n = SagaStepExecution (RemoteSagaStep (Some (op_named n)) None None (Some (op_named (''undo_'' @ n)))) StepFinished False [''order''] None"

theorem rollback_in_reverse_witness:
  "\<exists>s'. rollback_steps demo_env 5 None [done_remote ''pay'', done_remote ''ship''] [] (demo_world_saga world_open)
      = (Inr False, map (set_step_already True) [done_remote ''pay'', done_remote ''ship''], [], s')
    \<and> map bm_topic (sw_out s') = [''undo_ship'', ''undo_pay'']"
proof -
  let ?fop = "\<lambda>p. the (failure_operation (sp_definition p))" and ?s = "demo_world_saga world_open"
  let ?rq = "\<lambda>p. \<lparr>rq_target = op_callback (?fop p), rq_content = VInt 0\<rparr>"
  have calls: "\<exists>w'. exec demo_env 5 (\<lambda>cb ps. sv_request demo_env cb ps []) (?fop p) s = (Inr (?rq p), s\<lparr>sw_world := w'\<rparr>) \<and> idle 5 w'"
    if "idle 5 (sw_world s)" for p s
    using demo_callback [OF that, of demo_env _ "?fop p" "Inr (?rq p)"] by (simp add: demo_env_def)
  have start: "idle 5 (sw_world ?s)" unfolding idle_def by code_simp
  have steps: "(\<exists>a b e. sp_definition p = RemoteSagaStep a b e (Some (?fop p))) \<and> sp_status p \<noteq> StepCreated \<and> \<not> sp_already_rollback p"
    if "p \<in> set [done_remote ''pay'', done_remote ''ship'']" for p
    using that by (auto simp: done_remote_def)
  have sends: "sv_sends demo_env out m" for out m by (simp add: demo_env_def)
  obtain w' where "rollback_steps demo_env 5 None [done_remote ''pay'', done_remote ''ship''] [] ?s
      = (Inr False, map (set_step_already True) [done_remote ''pay'', done_remote ''ship''], [],
        ?s\<lparr>sw_world := w', sw_out := sw_out ?s @ map (\<lambda>p. request_message demo_env ?s 5 None (?rq p)) (rev [done_remote ''pay'', done_remote ''ship''])\<rparr>)"
    using rollback_in_reverse [where c = "[]" and user = None and es = "[done_remote ''pay'', done_remote ''ship'']",
        OF steps _ sends calls start] by (simp only: list.set image_empty empty_iff not_False_eq_True) blast
  then show ?thesis
    by (auto simp: done_remote_def demo_world_saga_def request_message_def op_named_def)
qed

section \<open>Stored executions\<close>


definition nested_execution :: SagaExecution where
  "nested_execution = SagaExecution 5 (Saga [ConditionalSagaStep [IfThenAlternative (op_named ''c'') (Saga [RemoteSagaStep (Some (op_named ''a'')) None None None] True)] None] True)
     [] [] Paused False
     (Some (SagaStepExecution (ConditionalSagaStep [IfThenAlternative (op_named ''c'') (Saga [RemoteSagaStep (Some (op_named ''a'')) None None None] True)] None)
        PausedByOnExecute False [''order'']
        (Some (SagaExecution 5 (Saga [RemoteSagaStep (Some (op_named ''a'')) None None None] True) [] [] Paused False
           (Some (SagaStepExecution (RemoteSagaStep (Some (op_named ''a'')) None None None) PausedByOnExecute False [''order''] None)) None)))) None"


lemma conditional_without_choice:
  "step_execution_from_raw E override (step_execution_raw E (SagaStepExecution (ConditionalSagaStep ifs els) st ar rel None))
     = Inl (Agg AttributeError)"
  by (simp add: step_execution_from_raw.simps execution_from_raw.simps conditional_execution_classname_def
      remote_execution_classname_def local_execution_classname_def)

text \<open>An execution with a conditional step for which no alternative was chosen cannot be loaded
  again. The step holds no execution, its serialized form says so, and reading it back fails with an
  \<open>AttributeError\<close>; so a saga with such a step that pauses on disk never receives its reply.\<close>

theorem unchosen_step_not_loadable:
  assumes "\<forall>x \<in> set (saga_operations d). operation_ok (sv_raw V) x" "validate_saga d = Inr ()" "context_codec_ok (sv_raw V) c"
    "u < 2 ^ 128" "sg_steps d = ConditionalSagaStep ifs els # ds"
    "x = SagaExecution u d (SagaStepExecution (ConditionalSagaStep ifs els) StepFinished False rel None # es) c st False p None"
    "p = None \<or> (\<exists>q. p = Some q \<and> step_storable (sv_raw V) q)"
  shows "load V u (snd (snd (store V (x, s)))) = (Inl (Agg AttributeError), snd (snd (store V (x, s))))"
proof -
  let ?E = "sv_raw V"
  have attrs: "execution_attrs ?E (execution_raw ?E x) = Inr (d, st, c)" and ids: "execution_ids (execution_raw ?E x) = Inr (u, None, False)"
    using assms saga_roundtrip(1) [of d ?E]
    by (simp_all add: execution_attrs_def execution_ids_def context_codec_ok_def uuid_of_str raw_get_def user_from_raw_def uuid_option_raw_def)
  have paused: "step_execution_from_raw ?E None (step_execution_raw ?E q) = Inr q \<and> step_execution_raw ?E q \<noteq> RNone"
    if "step_storable ?E q" for q
    using execution_roundtrip(2) [OF that] by (cases q) auto
  define r where "r = execution_raw ?E x"
  have items: "is_dict r" "raw_item r ''paused_step'' = Inr (case p of None \<Rightarrow> RNone | Some q \<Rightarrow> step_execution_raw ?E q)"
    "raw_item r ''executed_steps'' = Inr (RList (step_execution_raw ?E (SagaStepExecution (ConditionalSagaStep ifs els) StepFinished False rel None)
       # map (step_execution_raw ?E) es))"
    unfolding r_def assms(6) by (simp_all del: step_execution_raw.simps)
  have "execution_from_raw ?E r = Inl (Agg AttributeError)"
    using attrs ids assms(2,5,7) paused items unfolding r_def [symmetric]
    by (cases p) (auto simp: execution_from_raw.simps [of ?E r] conditional_without_choice simp del: step_execution_raw.simps)
  then show ?thesis
    using assms(6) by (simp add: store_def load_def bindE_apply r_def del: execution_raw.simps)
qed

definition unchosen_saga :: Saga where
  "unchosen_saga = Saga [ConditionalSagaStep [IfThenAlternative (op_named ''c'') (Saga [LocalSagaStep (Some (op_named ''a'')) None] True)] None,
     RemoteSagaStep (Some (op_named ''b'')) None None None] True"

definition unchosen_execution :: SagaExecution where
  "unchosen_execution = SagaExecution 5 unchosen_saga [SagaStepExecution (hd (sg_steps unchosen_saga)) StepFinished False [''order''] None]
     [] Paused False (Some (SagaStepExecution (sg_steps unchosen_saga ! 1) PausedByOnExecute False [''order''] None)) None"

theorem unchosen_step_not_loadable_witness:
  "fst (load demo_env 5 (snd (snd (store demo_env (unchosen_execution, demo_world_saga world_open))))) = Inl (Agg AttributeError)"
proof -
  have "\<forall>x \<in> set (saga_operations unchosen_saga). operation_ok (sv_raw demo_env) x" "validate_saga unchosen_saga = Inr ()"
    "context_codec_ok (sv_raw demo_env) []"
    by (simp_all add: unchosen_saga_def demo_env_def demo_raw_def operation_ok_def op_named_def context_codec_ok_def)
  moreover have "sg_steps unchosen_saga = ConditionalSagaStep [IfThenAlternative (op_named ''c'') (Saga [LocalSagaStep (Some (op_named ''a'')) None] True)] None
      # tl (sg_steps unchosen_saga)"
    by (simp add: unchosen_saga_def)
  moreover have "unchosen_execution = SagaExecution 5 unchosen_saga
      (SagaStepExecution (ConditionalSagaStep [IfThenAlternative (op_named ''c'') (Saga [LocalSagaStep (Some (op_named ''a'')) None] True)] None)
         StepFinished False [''order''] None # []) [] Paused False
      (Some (SagaStepExecution (sg_steps unchosen_saga ! 1) PausedByOnExecute False [''order''] None)) None"
    by (simp add: unchosen_execution_def unchosen_saga_def)
  moreover have "step_storable (sv_raw demo_env) (SagaStepExecution (sg_steps unchosen_saga ! 1) PausedByOnExecute False [''order''] None)"
    by (simp add: unchosen_saga_def demo_env_def demo_raw_def operation_ok_def op_named_def)
  moreover have "(5 :: nat) < 2 ^ 128" by simp
  ultimately have "load demo_env 5 (snd (snd (store demo_env (unchosen_execution, demo_world_saga world_open))))
      = (Inl (Agg AttributeError), snd (snd (store demo_env (unchosen_execution, demo_world_saga world_open))))"
    using unchosen_step_not_loadable by blast
  then show ?thesis by simp
qed

section \<open>Failures during execution\<close>

lemma execute_pending:
  assumes "sx_status x \<notin> {Finished, Errored}" "sx_paused x = None" "pending_steps x = d # ds"
  shows "execution_execute V response auto (x, s) =
     bindE (execute_one (execute_nested (execution_depth x) V) V (step_from_definition d) None auto) (\<lambda>_.
     bindE (forE ds (\<lambda>d. execute_one (execute_nested (execution_depth x) V) V (step_from_definition d) None auto)) (\<lambda>_.
     bindE (assigns (set_status Finished)) (\<lambda>_.
     bindE (whenE auto (execution_commit V)) (\<lambda>_. selfs sx_context)))) (set_status Running x, s)"
proof -
  have "pending_steps (set_status Running x) = d # ds" using assms(3) by (simp add: pending_steps_def)
  with assms(1,2) show ?thesis
    unfolding execution_execute_def prod.case execute_nested_resume
    by (simp add: bindE_apply [of "selfs sx_status"] bindE_apply [of "selfs pending_steps"] bindE_apply [of "assigns (set_status Running)"]
        bindE_apply [of "resume _ _ _ _"] resume_def bindE_apply [of "selfs sx_paused"] bindE_assoc)
qed

text \<open>A condition that raises stops the saga without compensation. The exception of the executor is
  not one of the exceptions \<open>execute\<close> handles: it reaches the caller, the execution is left running,
  the steps executed before are not rolled back and no transaction is rejected.\<close>

theorem failing_condition_not_compensated:
  assumes "sx_status x \<notin> {Finished, Errored}" "sx_paused x = None" "pending_steps x = ConditionalSagaStep (a # ifs) els # ds"
    "exec V (sx_uuid x) (\<lambda>cb ps. sv_condition V cb ps (sx_context x)) (if_condition a) s = (Inl (ExecutorException y), s')"
  shows "execution_execute V response auto (x, s) = (Inl (ExecutorException y), (set_status Running x, s'))"
  using assms(4)
  by (simp add: execute_pending [OF assms(1-3)] bindE_apply execute_one_def step_execute_def conditional_execute_def create_inner_def
      add_service_def outside_apply step_from_definition_def)

definition condition_env :: "(db_events, db_tx) saga_env" where
  "condition_env = demo_env\<lparr>sv_condition := (\<lambda>cb ps c. raiseE (Raised ''condition''))\<rparr>"

lemma demo_idle: "idle 5 (sw_world (demo_world_saga world_open))"
  unfolding idle_def by code_simp

theorem failing_condition_not_compensated_witness:
  "\<exists>s'. execution_execute condition_env None True (SagaExecution 5 unchosen_saga [] [] Created False None None, demo_world_saga world_open)
     = (Inl (ExecutorException (Raised ''condition'')), (SagaExecution 5 unchosen_saga [] [] Running False None None, s'))"
proof -
  let ?x = "SagaExecution 5 unchosen_saga [] [] Created False None None" and ?s = "demo_world_saga world_open"
  let ?a = "IfThenAlternative (op_named ''c'') (Saga [LocalSagaStep (Some (op_named ''a'')) None] True)"
  obtain s' where "exec condition_env (sx_uuid ?x) (\<lambda>cb ps. sv_condition condition_env cb ps (sx_context ?x)) (if_condition ?a) ?s
      = (Inl (ExecutorException (Raised ''condition'')), s')"
    using demo_callback [OF demo_idle, of condition_env "\<lambda>cb ps. sv_condition condition_env cb ps []" "op_named ''c''" "Inl (Raised ''condition'')"]
    by (auto simp: condition_env_def demo_env_def)
  from failing_condition_not_compensated [OF _ _ _ this, of "[]" None "tl (sg_steps unchosen_saga)" None True]
  show ?thesis by (simp add: pending_steps_def unchosen_saga_def)
qed

text \<open>A compensation that fails leaves the execution running. When a local step fails and the
  rollback that follows raises, the status is never set to errored: the caller gets the exception
  of the rollback and an execution that still counts as running.\<close>

theorem failed_compensation_leaves_running:
  assumes "sx_status x \<notin> {Finished, Errored}" "sx_paused x = None" "pending_steps x = LocalSagaStep (Some operation) fo # ds"
    "local_exec V (sx_uuid x) (Some operation) (sx_context x) s = (Inl (SagaFailedExecutionStepException y), s1)"
    "execution_rollback V auto (set_status Running x, s1) = (Inl z, (x', s'))"
  shows "execution_execute V response auto (x, s) = (Inl z, (x', s')) \<and> sx_status x' = Running"
proof -
  have "sx_status x' = Running" using rolled_back_attrs [OF rollback_self [OF assms(5)]] by simp
  with assms(4,5) show ?thesis
    by (simp add: execute_pending [OF assms(1-3)] bindE_apply execute_one_def step_execute_def local_execute_def
        add_service_def outside_apply step_from_definition_def on_failed_def catchE_def)
qed

definition failing_env :: "(db_events, db_tx) saga_env" where
  "failing_env = demo_env\<lparr>sv_local := (\<lambda>cb ps c. raiseE (Raised cb))\<rparr>"

definition failing_execution :: SagaExecution where
  "failing_execution = SagaExecution 5 (Saga [LocalSagaStep (Some (op_named ''a'')) (Some (op_named ''undo'')), LocalSagaStep (Some (op_named ''b'')) None] True)
     [SagaStepExecution (LocalSagaStep (Some (op_named ''a'')) (Some (op_named ''undo''))) StepFinished False [''order''] None] [] Running False None None"

lemma failing_local:
  assumes "idle 5 (sw_world s)"
  shows "\<exists>w'. local_exec failing_env 5 (Some (op_named n)) [] s
     = (Inl (SagaFailedExecutionStepException (Raised n)), s\<lparr>sw_world := w'\<rparr>) \<and> idle 5 w'"
  using demo_callback [OF assms, of failing_env "\<lambda>cb ps. sv_local failing_env cb ps []" "op_named n" "Inl (Raised n)"]
  by (auto simp: failing_env_def demo_env_def local_exec_def op_named_def as_failed_step_def catchE_def bindE_apply SagaContext_init_def)

theorem failed_compensation_leaves_running_witness:
  "\<exists>x' s'. execution_execute failing_env None False (failing_execution, demo_world_saga world_open)
     = (Inl SagaRollbackExecutionException, (x', s')) \<and> sx_status x' = Running"
proof -
  let ?s = "demo_world_saga world_open"
  obtain w1 where w1: "local_exec failing_env 5 (Some (op_named ''b'')) [] ?s = (Inl (SagaFailedExecutionStepException (Raised ''b'')), ?s\<lparr>sw_world := w1\<rparr>)" "idle 5 w1"
    using failing_local [OF demo_idle] by blast
  obtain w2 where w2: "local_exec failing_env 5 (Some (op_named ''undo'')) [] (?s\<lparr>sw_world := w1\<rparr>)
      = (Inl (SagaFailedExecutionStepException (Raised ''undo'')), ?s\<lparr>sw_world := w2\<rparr>)"
    using failing_local [of "?s\<lparr>sw_world := w1\<rparr>" "''undo''"] w1(2) by auto
  obtain x' s' where "execution_rollback failing_env False (set_status Running failing_execution, ?s\<lparr>sw_world := w1\<rparr>)
      = (Inl SagaRollbackExecutionException, (x', s'))"
    using w2 by (auto simp: execution_rollback_def failing_execution_def rollback_end_def local_rollback_def check_rollback_def
        bindE_apply add_service_def outside_apply Let_def)
  from failed_compensation_leaves_running [OF _ _ _ _ this, of "op_named ''b''" None "[]" ?s "Raised ''b''" None] w1(1)
  show ?thesis by (auto simp: failing_execution_def pending_steps_def)
qed

section \<open>Pause and resume\<close>


definition remote_saga :: Saga where
  "remote_saga = Saga [RemoteSagaStep (Some (op_named ''pay'')) None None None] True"

definition error_reply :: SagaResponse where
  "error_reply = \<lparr>rs_content = VInt 0, rs_related_services = [''stock''], rs_status = ERROR, rs_uuid = 5\<rparr>"


section \<open>Transactions in headers\<close>

lemma before_last_append: "c \<notin> set s \<Longrightarrow> before_last c (p @ c # s) = Some p"
proof -
  assume c: "c \<notin> set s"
  then have "dropWhile (\<lambda>x. x \<noteq> c) (rev s @ c # rev p) = c # rev p"
    by (metis (mono_tags, lifting) append_Nil dropWhile.simps(2) dropWhile_append3 dropWhile_eq_Nil_conv set_rev)
  with c show ?thesis by (simp add: before_last_def)
qed

lemma before_last_none: "c \<notin> set s \<Longrightarrow> before_last c s = None"
  by (simp add: before_last_def)

lemma join_with_snoc: "ws \<noteq> [] \<Longrightarrow> join_with c (ws @ [w]) = join_with c ws @ c # w"
  by (induction c ws rule: join_with.induct) auto

lemma join_uuid_not_Nil: "us \<noteq> [] \<Longrightarrow> join_with c (map uuid_str us) \<noteq> []"
  by (cases us; cases "tl us") auto

definition transactions_header :: "uuid list \<Rightarrow> string option" where
  "transactions_header us = (if us = [] then None else Some (join_with CHR '','' (map uuid_str us)))"

lemma publish_transactions:
  assumes "dict_get h ''transactions'' = transactions_header us"
  shows "dict_get (publish_headers u user h) ''transactions'' = transactions_header (us @ [u])"
  using assms join_uuid_not_Nil [of us] join_with_snoc [of "map uuid_str us"]
  by (auto simp: publish_headers_def Let_def transactions_header_def split: option.splits if_splits)

text \<open>C17: the transactions of nested sagas travel in the headers. A saga that runs inside the
  transactions a request named publishes its own requests with those transactions followed by its
  own; the service that receives such a request reads exactly that list back, so the command runs inside
  the same chain of transactions; and when the command ends, the headers name the outer chain again.\<close>

theorem headers_name_transactions:
  assumes "\<forall>v \<in> set (us @ [u]). v < 2 ^ 128" "dict_get h ''transactions'' = transactions_header us"
  shows "\<exists>t. dict_get (publish_headers u user h) ''transactions'' = Some t
      \<and> mapE uuid_of (split_on CHR '','' t) = Inr (us @ [u])
    \<and> dict_get (publish_headers u user h) ''saga'' = Some (uuid_str u)
    \<and> dict_get (close_headers name (publish_headers u user h)) ''transactions'' = transactions_header us"
proof -
  let ?t = "join_with CHR '','' (map uuid_str (us @ [u]))"
  have pub: "dict_get (publish_headers u user h) ''transactions'' = Some ?t"
    using publish_transactions [OF assms(2)] by (simp add: transactions_header_def)
  have "split_on CHR '','' ?t = map uuid_str (us @ [u])"
    by (rule split_join) (auto simp: uuid_str_no_comma)
  then have parse: "mapE uuid_of (split_on CHR '','' ?t) = Inr (us @ [u])"
    by (simp only:) (rule mapE_id, rule uuid_of_str, use assms(1) in blast)
  have saga: "dict_get (publish_headers u user h) ''saga'' = Some (uuid_str u)"
    by (auto simp: publish_headers_def Let_def split: option.splits)
  have "before_last CHR '','' ?t = transactions_header us"
    using before_last_append [OF uuid_str_no_comma, of "join_with CHR '','' (map uuid_str us)" u] before_last_none [OF uuid_str_no_comma, of u]
    by (cases "us = []") (simp_all add: transactions_header_def join_with_snoc)
  with pub have "dict_get (close_headers name (publish_headers u user h)) ''transactions'' = transactions_header us"
    by (auto simp: close_headers_def close_transactions_def Let_def split: option.splits)
  with pub parse saga show ?thesis by blast
qed

theorem headers_name_transactions_witness:
  "\<exists>t. dict_get (publish_headers 6 None [(''transactions'', uuid_str 5)]) ''transactions'' = Some t
    \<and> mapE uuid_of (split_on CHR '','' t) = Inr [5, 6]"
proof -
  have "\<forall>v \<in> set ([5] @ [6]). (v :: nat) < 2 ^ 128" "dict_get [(''transactions'', uuid_str 5)] ''transactions'' = transactions_header [5]"
    by (simp_all add: transactions_header_def)
  from headers_name_transactions [OF this, of None "''order''"] show ?thesis by auto
qed

section \<open>Running to the end\<close>

lemma execute_returns:
  assumes "execution_execute V response auto (x, s) = (Inr c, (x', s'))" "sx_status x \<noteq> Errored"
  shows "sx_status x' = Finished"
proof -
  have commit: "sx_status y' = Finished"
    if "whenE auto (execution_commit V) (y, t) = (Inr a, (y', t'))" "sx_status y = Finished" for y t y' t' a
    using that commit_self [of V y t "Inr a" y' t'] by (cases auto) auto
  show ?thesis
    using assms commit unfolding execution_execute_def prod.case execute_nested_resume
    by (auto simp: bindE_apply split: if_splits prod.splits sum.splits)
qed

lemma commit_returns:
  "execution_commit V (x, s) = (Inr (), (x', s')) \<Longrightarrow> committer_commit V (transactions (sx_uuid x) (sx_executed x)) s = (Inr (), s')"
  by (auto simp: execution_commit_def bindE_apply catchE_def outside_apply split: if_splits prod.splits sum.splits)

lemma one_pauses: "execute_one run V p response auto (x, s) = (Inl SagaPausedExecutionStepException, (x', s')) \<Longrightarrow> sx_status x' = Paused"
  by (erule execute_one_cases) auto

lemma loop_pauses:
  "forE ds (\<lambda>d. execute_one run V (step_from_definition d) None auto) (x, s) = (Inl SagaPausedExecutionStepException, (x', s')) \<Longrightarrow> sx_status x' = Paused"
  by (induction ds arbitrary: x s) (auto simp: bindE_apply split: prod.splits sum.splits dest: one_pauses)

lemma resume_pauses:
  "resume run V response auto (x, s) = (Inl SagaPausedExecutionStepException, (x', s')) \<Longrightarrow> sx_status x' = Paused"
  by (auto simp: resume_def bindE_apply finallyE_def whenE_def split: prod.splits sum.splits option.splits if_splits dest: one_pauses)

lemma commit_never_pauses: "execution_commit V (x, s) \<noteq> (Inl SagaPausedExecutionStepException, z)"
  using rollback_raises
  by (fastforce simp: execution_commit_def bindE_apply catchE_def outside_apply split: if_splits prod.splits sum.splits)

lemma execute_pauses:
  "execution_execute V response auto (x, s) = (Inl SagaPausedExecutionStepException, (x', s')) \<Longrightarrow> sx_status x' = Paused"
  unfolding execution_execute_def prod.case execute_nested_resume
  by (auto simp: bindE_apply whenE_def commit_never_pauses split: if_splits prod.splits sum.splits dest: loop_pauses resume_pauses)

lemma memory_loop_returns:
  assumes "memory_loop V inbox response (x, s) = (Inr (), (x', s'))" "execution_ok x" "sx_status x \<in> {Created, Paused}"
  shows "sx_status x' = Finished \<and> execution_ok x' \<and> evolves x x'"
  using assms
proof (induction V inbox response "(x, s)" arbitrary: x s rule: memory_loop.induct)
  case (1 V inbox response x s)
  obtain r x1 s1 where e: "execution_execute V response False (x, s) = (r, (x1, s1))" by (metis prod_cases3)
  note ok = execute_ok [OF e 1(3)]
  show ?case
  proof (cases r)
    case (Inr c)
    with e 1(4) have "sx_status x1 = Finished" by (auto dest!: execute_returns)
    with 1(2,4) e Inr ok show ?thesis by (auto simp: memory_loop.simps [of V inbox] store_def)
  next
    case (Inl y)
    with 1(2,4) e have y: "y = SagaPausedExecutionStepException" by (auto simp: memory_loop.simps [of V inbox] split: if_splits)
    with e Inl have p: "sx_status x1 = Paused" by (auto dest: execute_pauses)
    show ?thesis
    proof (cases "get_response inbox (sx_uuid x1)")
      case (Inr a)
      then obtain rs inbox' where g: "get_response inbox (sx_uuid x1) = Inr (rs, inbox')" by (cases a) auto
      obtain s2 where st: "snd (store V (x1, s1)) = (x1, s2)" by (simp add: store_def)
      have "memory_loop V inbox' (Some rs) (x1, s2) = (Inr (), (x', s'))"
        using 1(2,4) e Inl y g st by (auto simp: memory_loop.simps [of V inbox])
      with 1(1) e Inl y g st p ok 1(4) show ?thesis
        by (auto intro: evolves_trans)
    qed (use 1(2,4) e Inl y in \<open>auto simp: memory_loop.simps [of V inbox]\<close>)
  qed
qed

text \<open>C15: a run that waits in memory settles the saga. When the manager runs a new saga, waiting for the
  replies instead of storing the paused execution, and returns to a caller that wants errors raised,
  every step of the definition has been executed, the execution is finished and nothing of it is
  left in the storage; with automatic commit the commit has succeeded.\<close>

theorem memory_run_settles:
  assumes "SagaExecution_init d u c user = Inr x"
    "manager_run_execution V \<lparr>ro_autocommit = auto, ro_pause_on_disk = False, ro_raise_on_error = True, ro_inbox = inbox\<rparr> None (x, s)
       = (Inr (), (x', s'))"
  shows "sx_status x' = Finished \<and> map sp_definition (sx_executed x') = sg_steps d \<and> sx_uuid x' = u
    \<and> dict_get (sw_storage s') u = None
    \<and> (auto \<longrightarrow> (\<exists>s0 s1. committer_commit V (transactions u (sx_executed x')) s0 = (Inr (), s1) \<and> sw_out s' = sw_out s1))"
proof -
  obtain r1 x1 s1 where loop: "memory_loop V inbox None (x, s) = (r1, (x1, s1))" by (metis prod_cases3)
  obtain r2 x2 s2 where com: "whenE auto (execution_commit V) (x1, s1) = (r2, (x2, s2))" by (metis prod_cases3)
  have r: "r1 = Inr ()" "r2 = Inr ()"
    using assms(2) loop com
    by (auto simp: manager_run_execution_def run_with_pause_on_memory_def bindE_apply catchE_def finallyE_def whenE_def
        split: sum.splits prod.splits if_splits)
  have "execution_ok x" "sx_status x = Created" "sx_uuid x = u" "sx_definition x = d"
    using assms(1) new_execution_ok [OF assms(1)] by (auto simp: SagaExecution_init_def split: sum.splits)
  with memory_loop_returns [of V inbox None x s x1 s1] loop r(1)
  have x1: "sx_status x1 = Finished" "execution_ok x1" "sx_uuid x1 = u" "sx_definition x1 = d" by (auto simp: evolves_def)
  have x2: "x2 = x1" using com r(2) commit_self [of V x1 s1 "Inr ()" x2 s2] by (cases auto) auto
  have fin: "x' = x1" "sw_storage s' = dict_del u (sw_storage s2)" "sw_out s' = sw_out s2"
    using assms(2) loop com r x1 x2
    by (auto simp: manager_run_execution_def run_with_pause_on_memory_def bindE_apply catchE_def finallyE_def update_headers_def delete_def)
  have "committer_commit V (transactions u (sx_executed x1)) s1 = (Inr (), s2)" if auto
    using com that r(2) x1 commit_returns by fastforce
  with fin x1 show ?thesis by (auto simp: execution_ok_def pending_steps_def)
qed

definition two_step_saga :: Saga where
  "two_step_saga = Saga [RemoteSagaStep (Some (op_named ''pay'')) None None None, LocalSagaStep (Some (op_named ''note'')) None] True"

definition saga_reply :: BrokerMessage where
  "saga_reply = ok_reply\<lparr>bm_headers := [(''saga'', uuid_str 5), (''related_services'', ''stock'')]\<rparr>"

lemma outcome_pair: "fst m = r \<Longrightarrow> \<exists>x s. m = (r, (x, s))"
  by (cases m) auto

lemma remote_run:
  "fst (manager_run_execution demo_env \<lparr>ro_autocommit = True, ro_pause_on_disk = False, ro_raise_on_error = True, ro_inbox = [ok_reply, saga_reply]\<rparr> None
      (SagaExecution 5 two_step_saga [] [] Created False None None, demo_world_saga world_open)) = Inr ()"
  by code_simp

theorem memory_run_settles_witness:
  "\<exists>x' s'. manager_run_execution demo_env \<lparr>ro_autocommit = True, ro_pause_on_disk = False, ro_raise_on_error = True, ro_inbox = [ok_reply, saga_reply]\<rparr> None
      (SagaExecution 5 two_step_saga [] [] Created False None None, demo_world_saga world_open) = (Inr (), (x', s'))
    \<and> sx_status x' = Finished \<and> length (sx_executed x') = 2"
proof -
  obtain x' s' where run: "manager_run_execution demo_env
      \<lparr>ro_autocommit = True, ro_pause_on_disk = False, ro_raise_on_error = True, ro_inbox = [ok_reply, saga_reply]\<rparr> None
      (SagaExecution 5 two_step_saga [] [] Created False None None, demo_world_saga world_open) = (Inr (), (x', s'))"
    using outcome_pair [OF remote_run] by blast
  have "SagaExecution_init two_step_saga 5 [] None = Inr (SagaExecution 5 two_step_saga [] [] Created False None None)" by code_simp
  from memory_run_settles [OF this run] have "sx_status x' = Finished" "map sp_definition (sx_executed x') = sg_steps two_step_saga"
    by blast+
  moreover from this(2) have "length (sx_executed x') = length (sg_steps two_step_saga)" by (metis length_map)
  ultimately show ?thesis using run by (simp add: two_step_saga_def)
qed

section \<open>Instances of the execution theorems\<close>

definition two_step_execution :: SagaExecution where
  "two_step_execution = SagaExecution 5 two_step_saga [] [] Created False None None"

lemma two_step_paused:
  "\<exists>x' s'. execution_execute demo_env None True (two_step_execution, demo_world_saga world_open)
     = (Inl SagaPausedExecutionStepException, (x', s'))"
  by (rule outcome_pair) code_simp

theorem execution_run_invariant_witness:
  "\<exists>x' p. (execution_step demo_env)\<^sup>*\<^sup>* two_step_execution x'
    \<and> sx_status x' = Paused \<and> sx_paused x' = Some p \<and> prefix (map sp_definition (sx_executed x') @ [sp_definition p]) (sg_steps two_step_saga)"
proof -
  obtain x' s' where run: "execution_execute demo_env None True (two_step_execution, demo_world_saga world_open)
      = (Inl SagaPausedExecutionStepException, (x', s'))"
    using two_step_paused by blast
  have steps: "(execution_step demo_env)\<^sup>*\<^sup>* two_step_execution x'" by (rule r_into_rtranclp) (rule execution_step.execute [OF run])
  have new: "SagaExecution_init two_step_saga 5 [] None = Inr two_step_execution" by code_simp
  have st: "sx_status x' = Paused" by (rule execute_pauses [OF run])
  with execution_run_invariant [OF new steps] obtain p ds where "sx_paused x' = Some p"
    "map sp_definition (sx_executed x') = take (length (sx_executed x')) (sg_steps two_step_saga)"
    "drop (length (sx_executed x')) (sg_steps two_step_saga) = sp_definition p # ds" by blast
  moreover from this(2,3) have "sg_steps two_step_saga = (map sp_definition (sx_executed x') @ [sp_definition p]) @ ds"
    by (metis append_Cons append_Nil append_assoc append_take_drop_id)
  ultimately show ?thesis using steps st by (metis prefixI)
qed

definition refused_execution :: SagaExecution where
  "refused_execution = SagaExecution 5 (Saga [] True) [] [] Finished False None None"

definition refusing_env :: "(db_events, db_tx) saga_env" where
  "refusing_env = demo_env\<lparr>sv_replies := (\<lambda>out. [])\<rparr>"

theorem errored_for_ever_witness:
  "\<exists>x1 x2. execution_step refusing_env refused_execution x1 \<and> sx_status x1 = Errored
    \<and> execution_step refusing_env x1 x2 \<and> sx_status x2 = Errored"
proof -
  have "case execution_commit refusing_env (refused_execution, demo_world_saga world_open) of
      (r, (x, s)) \<Rightarrow> sx_status x = Errored" by code_simp
  then obtain r1 x1 s1 where one: "execution_commit refusing_env (refused_execution, demo_world_saga world_open) = (r1, (x1, s1))"
    "sx_status x1 = Errored" by (auto split: prod.splits)
  obtain r2 x2 s2 where two: "execution_execute refusing_env None True (x1, s1) = (r2, (x2, s2))" by (metis prod_cases3)
  have steps: "execution_step refusing_env refused_execution x1" "execution_step refusing_env x1 x2"
    using one two by (auto intro: execution_step.intros)
  have "execution_ok refused_execution" by (simp add: execution_ok_def pending_steps_def refused_execution_def)
  then have "execution_ok x1" using execution_step_ok [OF steps(1)] by blast
  from errored_for_ever [OF r_into_rtranclp [of "execution_step refusing_env", OF steps(2)] this] one(2) steps show ?thesis by auto
qed


end
