(* ===== verification/Broker_Messages.thy ===== *)
theory Broker_Messages
  imports Saga_Base
begin

text \<open>
  Broker messages (\<open>networks/brokers/messages/models/v1.py\<close>), the dispatcher that turns a message into
  a call of a handler and the outcome of the handler into a reply
  (\<open>networks/brokers/dispatchers\<close>), and the consumer of the handler port
  (\<open>networks/brokers/handlers/impl.py\<close>).

  The content of a message may be any value; how contents compare is a parameter, because Python asks
  the objects. The handlers are parameters too: they see the request and the context variables, may
  change the state of the service and the headers, and return a response, nothing, or raise.
\<close>

section \<open>Messages\<close>

datatype BrokerMessageV1Status = STATUS_SUCCESS | STATUS_ERROR | STATUS_SYSTEM_ERROR | STATUS_UNKNOWN

fun BrokerMessageV1Status_value :: "BrokerMessageV1Status \<Rightarrow> int" where
  "BrokerMessageV1Status_value STATUS_SUCCESS = 200"
| "BrokerMessageV1Status_value STATUS_ERROR = 400"
| "BrokerMessageV1Status_value STATUS_SYSTEM_ERROR = 500"
| "BrokerMessageV1Status_value STATUS_UNKNOWN = 600"

text \<open>\<open>BrokerMessageV1Status(value)\<close>: a value that is not a member becomes \<open>UNKNOWN\<close> (\<open>_missing_\<close>).\<close>

definition BrokerMessageV1Status_of :: "int \<Rightarrow> BrokerMessageV1Status" where
  "BrokerMessageV1Status_of i =
     (if i = 200 then STATUS_SUCCESS else if i = 400 then STATUS_ERROR
      else if i = 500 then STATUS_SYSTEM_ERROR else STATUS_UNKNOWN)"

datatype BrokerMessageV1Strategy = UNICAST | MULTICAST

record 'c BrokerMessageV1Payload =
  pl_content :: 'c
  pl_status :: BrokerMessageV1Status
  pl_headers :: "(string, string) dict"

record 'c BrokerMessageV1 =
  ms_topic :: string
  ms_identifier :: uuid
  ms_reply_topic :: "string option"
  ms_strategy :: BrokerMessageV1Strategy
  ms_payload :: "'c BrokerMessageV1Payload"

text \<open>The constructor of the payload: headers and status have defaults; the status is converted to the
  enumeration by the type of the field.\<close>

definition BrokerMessageV1Payload_init ::
  "'c \<Rightarrow> (string, string) dict option \<Rightarrow> int option \<Rightarrow> 'c BrokerMessageV1Payload" where
  "BrokerMessageV1Payload_init content headers status =
     \<lparr>pl_content = content,
      pl_status = BrokerMessageV1Status_of (case status of None \<Rightarrow> BrokerMessageV1Status_value STATUS_SUCCESS | Some i \<Rightarrow> i),
      pl_headers = (case headers of None \<Rightarrow> [] | Some h \<Rightarrow> h)\<rparr>"

text \<open>The constructor of the message; \<open>fresh\<close> is the identifier \<open>uuid4\<close> gives.\<close>

definition BrokerMessageV1_init ::
  "uuid \<Rightarrow> string \<Rightarrow> 'c BrokerMessageV1Payload \<Rightarrow> uuid option \<Rightarrow> string option \<Rightarrow> BrokerMessageV1Strategy option
   \<Rightarrow> 'c BrokerMessageV1" where
  "BrokerMessageV1_init fresh topic payload identifier reply_topic strategy =
     \<lparr>ms_topic = topic, ms_identifier = (case identifier of None \<Rightarrow> fresh | Some u \<Rightarrow> u), ms_reply_topic = reply_topic,
      ms_strategy = (case strategy of None \<Rightarrow> UNICAST | Some s \<Rightarrow> s), ms_payload = payload\<rparr>"

definition set_reply_topic :: "string option \<Rightarrow> 'c BrokerMessageV1 \<Rightarrow> 'c BrokerMessageV1" where
  "set_reply_topic v m = m\<lparr>ms_reply_topic := v\<rparr>"

definition should_reply :: "'c BrokerMessageV1 \<Rightarrow> bool" where
  "should_reply m \<longleftrightarrow> ms_reply_topic m \<noteq> None"

definition payload_ok :: "'c BrokerMessageV1Payload \<Rightarrow> bool" where
  "payload_ok p \<longleftrightarrow> pl_status p = STATUS_SUCCESS"

text \<open>\<open>__lt__\<close> of messages and payloads: by the contents, and \<open>False\<close> when comparing them raises (here:
  when the comparison of contents has no answer).\<close>

definition payload_lt :: "('c \<Rightarrow> 'c \<Rightarrow> bool option) \<Rightarrow> 'c BrokerMessageV1Payload \<Rightarrow> 'c BrokerMessageV1Payload \<Rightarrow> bool" where
  "payload_lt lt p q = (case lt (pl_content p) (pl_content q) of None \<Rightarrow> False | Some b \<Rightarrow> b)"

definition message_lt :: "('c \<Rightarrow> 'c \<Rightarrow> bool option) \<Rightarrow> 'c BrokerMessageV1 \<Rightarrow> 'c BrokerMessageV1 \<Rightarrow> bool" where
  "message_lt lt m n = payload_lt lt (ms_payload m) (ms_payload n)"

section \<open>The dispatcher\<close>

text \<open>What a handler does: it returns a response (its content and status) or something else, or it raises
  a \<open>ResponseException\<close> with its text and status, or any other exception with its text.\<close>

datatype 'c outcome = Returned "('c \<times> int) option" | RaisedResponse string int | RaisedOther string

text \<open>The context variables of the task that dispatches, and the state of the service.\<close>

record 's dispatch_state =
  ds_user :: "uuid option"
  ds_headers :: "(string, string) dict option"
  ds_service :: 's

type_synonym ('s, 'a) dop = "('s dispatch_state, saga_error, 'a) op"

text \<open>The parameters: the registered actions by topic (a registered action may be \<open>None\<close>), the publisher,
  and how the content \<open>None\<close> and a text are represented.\<close>

record ('s, 'c) dispatcher =
  di_actions :: "(string, ('c BrokerMessageV1 \<Rightarrow> 's dispatch_state \<Rightarrow> 'c outcome \<times> 's dispatch_state) option) dict"
  di_send :: "'c BrokerMessageV1 \<Rightarrow> ('s, unit) dop"
  di_none :: 'c
  di_text :: "string \<Rightarrow> 'c"

definition get_action :: "('s, 'c) dispatcher \<Rightarrow> string
    \<Rightarrow> saga_error + ('c BrokerMessageV1 \<Rightarrow> 's dispatch_state \<Rightarrow> 'c outcome \<times> 's dispatch_state) option" where
  "get_action D topic = (case dict_get (di_actions D) topic of
     None \<Rightarrow> Inl (Raised ''MinosActionNotFoundException'') | Some fn \<Rightarrow> Inr fn)"

text \<open>\<open>BrokerRequest.user\<close>.\<close>

definition request_user :: "'c BrokerMessageV1 \<Rightarrow> saga_error + uuid option" where
  "request_user m = (case dict_get (pl_headers (ms_payload m)) ''user'' of
     None \<Rightarrow> Inr None | Some t \<Rightarrow> (case uuid_of t of Inl e \<Rightarrow> Inl e | Inr u \<Rightarrow> Inr (Some u)))"

text \<open>Calling \<open>None\<close> is a \<open>TypeError\<close>, raised inside the wrapper.\<close>

definition call_action :: "('c BrokerMessageV1 \<Rightarrow> 's dispatch_state \<Rightarrow> 'c outcome \<times> 's dispatch_state) option
    \<Rightarrow> 'c BrokerMessageV1 \<Rightarrow> 's dispatch_state \<Rightarrow> 'c outcome \<times> 's dispatch_state" where
  "call_action fn m s = (case fn of
     None \<Rightarrow> (RaisedOther ''TypeError(\"'NoneType' object is not callable\")'', s) | Some f \<Rightarrow> f m s)"

fun content_status :: "('s, 'c) dispatcher \<Rightarrow> 'c outcome \<Rightarrow> 'c \<times> int" where
  "content_status D (Returned (Some (c, st))) = (c, st)"
| "content_status D (Returned None) = (di_none D, BrokerMessageV1Status_value STATUS_SUCCESS)"
| "content_status D (RaisedResponse t st) = (di_text D t, st)"
| "content_status D (RaisedOther t) = (di_text D t, BrokerMessageV1Status_value STATUS_SYSTEM_ERROR)"

text \<open>\<open>get_callback\<close>: the user is read before the \<open>try\<close>, so a malformed header escapes it.\<close>

definition callback :: "('s, 'c) dispatcher \<Rightarrow> ('c BrokerMessageV1 \<Rightarrow> 's dispatch_state \<Rightarrow> 'c outcome \<times> 's dispatch_state) option
    \<Rightarrow> 'c BrokerMessageV1 \<Rightarrow> ('s, 'c BrokerMessageV1Payload) dop" where
  "callback D fn m = bindE (liftE (request_user m)) (\<lambda>user s.
     case call_action fn m (s\<lparr>ds_user := user, ds_headers := Some (pl_headers (ms_payload m))\<rparr>) of (r, s') \<Rightarrow>
       (case content_status D r of (content, status) \<Rightarrow>
         (Inr (BrokerMessageV1Payload_init content (ds_headers s') (Some status)),
          s'\<lparr>ds_user := ds_user s, ds_headers := ds_headers s\<rparr>)))"

definition dispatch :: "('s, 'c) dispatcher \<Rightarrow> uuid \<Rightarrow> 'c BrokerMessageV1 \<Rightarrow> ('s, unit) dop" where
  "dispatch D fresh m =
     bindE (liftE (get_action D (ms_topic m))) (\<lambda>fn.
     bindE (callback D fn m) (\<lambda>payload.
     case ms_reply_topic m of
       None \<Rightarrow> retE ()
     | Some t \<Rightarrow> di_send D (BrokerMessageV1_init fresh t payload (Some (ms_identifier m)) None None)))"

text \<open>\<open>BrokerHandler._consume_one\<close> for a message taken from the queue: every exception is logged and
  dropped.\<close>

definition consume_one :: "('s, 'c) dispatcher \<Rightarrow> uuid \<Rightarrow> 'c BrokerMessageV1 \<Rightarrow> ('s, unit) dop" where
  "consume_one D fresh m = catchE (dispatch D fresh m) (\<lambda>_. Some (retE ()))"

end
