(* ===== verification/Priority_Queue.thy ===== *)
theory Priority_Queue
  imports "HOL-Library.Multiset"
begin

text \<open>
  The priority queue of the standard library (\<open>heapq\<close> behind \<open>asyncio.PriorityQueue\<close>), as the broker
  queues use it: a list in which the element at position \<open>i\<close> is not greater than those at \<open>2 i + 1\<close> and
  \<open>2 i + 2\<close>. The comparison is a parameter, because the entries of a queue define their own and need not
  be ordered by it; the laws of the second part assume a strict weak order, those of the first nothing.
\<close>

section \<open>The algorithms\<close>

text \<open>\<open>_siftdown\<close>: the new item moves towards the root while it is less than the parent.\<close>

function siftdown :: "('a \<Rightarrow> 'a \<Rightarrow> bool) \<Rightarrow> 'a \<Rightarrow> 'a list \<Rightarrow> nat \<Rightarrow> 'a list" where
  "siftdown lt x h pos =
     (if pos > 0 \<and> lt x (h ! ((pos - 1) div 2)) then siftdown lt x (h[pos := h ! ((pos - 1) div 2)]) ((pos - 1) div 2)
      else h[pos := x])"
  by auto
termination
  by (relation "measure (\<lambda>(lt, x, h, pos). pos)") auto

declare siftdown.simps [simp del]

definition smaller_child :: "('a \<Rightarrow> 'a \<Rightarrow> bool) \<Rightarrow> 'a list \<Rightarrow> nat \<Rightarrow> nat" where
  "smaller_child lt h pos =
     (if 2 * pos + 2 < length h \<and> \<not> lt (h ! (2 * pos + 1)) (h ! (2 * pos + 2)) then 2 * pos + 2 else 2 * pos + 1)"

text \<open>\<open>_siftup\<close>: the smaller child moves up until a leaf is reached, then the new item comes down from there.\<close>

function siftup :: "('a \<Rightarrow> 'a \<Rightarrow> bool) \<Rightarrow> 'a \<Rightarrow> 'a list \<Rightarrow> nat \<Rightarrow> 'a list" where
  "siftup lt x h pos =
     (if 2 * pos + 1 < length h
      then siftup lt x (h[pos := h ! smaller_child lt h pos]) (smaller_child lt h pos)
      else siftdown lt x h pos)"
  by auto
termination
  by (relation "measure (\<lambda>(lt, x, h, pos). length h - pos)") (auto simp: smaller_child_def)

declare siftup.simps [simp del]

definition heappush :: "('a \<Rightarrow> 'a \<Rightarrow> bool) \<Rightarrow> 'a \<Rightarrow> 'a list \<Rightarrow> 'a list" where
  "heappush lt x h = siftdown lt x (h @ [x]) (length h)"

fun heappop :: "('a \<Rightarrow> 'a \<Rightarrow> bool) \<Rightarrow> 'a list \<Rightarrow> ('a \<times> 'a list) option" where
  "heappop lt [] = None"
| "heappop lt [x] = Some (x, [])"
| "heappop lt (x # y # ys) =
     Some (x, siftup lt (last (y # ys)) (last (y # ys) # butlast (y # ys)) 0)"

section \<open>The elements\<close>

lemma length_siftdown [simp]: "length (siftdown lt x h pos) = length h"
  by (induction lt x h pos rule: siftdown.induct) (subst siftdown.simps, simp)

lemma mset_swap_in: "i < length h \<Longrightarrow> j < length h \<Longrightarrow> i \<noteq> j \<Longrightarrow> mset (h[i := h ! j, j := x]) = mset (h[i := x])"
  using mset_swap [of j "h[i := x]" i] by simp

lemma mset_siftdown: "pos < length h \<Longrightarrow> mset (siftdown lt x h pos) = mset (h[pos := x])"
proof (induction lt x h pos rule: siftdown.induct)
  case (1 lt x h pos)
  let ?p = "(pos - 1) div 2"
  show ?case
  proof (cases "pos > 0 \<and> lt x (h ! ?p)")
    case True
    with 1 have "mset (siftdown lt x h pos) = mset (h[pos := h ! ?p, ?p := x])" by (simp add: siftdown.simps [of lt x h])
    moreover have "?p < length h" "?p \<noteq> pos" using True 1(2) by auto
    ultimately show ?thesis using 1(2) by (simp add: mset_swap_in)
  qed (auto simp: siftdown.simps [of lt x h])
qed

lemma smaller_child: "2 * pos + 1 < length h \<Longrightarrow> smaller_child lt h pos < length h \<and> pos < smaller_child lt h pos"
  by (simp add: smaller_child_def)

lemma mset_siftup: "pos < length h \<Longrightarrow> mset (siftup lt x h pos) = mset (h[pos := x])"
proof (induction lt x h pos rule: siftup.induct)
  case (1 lt x h pos)
  let ?c = "smaller_child lt h pos"
  show ?case
  proof (cases "2 * pos + 1 < length h")
    case True
    note c = smaller_child [OF True, of lt]
    with True 1 have "mset (siftup lt x h pos) = mset (h[pos := h ! ?c, ?c := x])" by (simp add: siftup.simps [of lt x h])
    with c 1(2) show ?thesis by (simp add: mset_swap_in)
  qed (simp add: siftup.simps [of lt x h] mset_siftdown 1)
qed

lemma mset_heappush [simp]: "mset (heappush lt x h) = add_mset x (mset h)"
  by (simp add: heappush_def mset_siftdown)

lemma heappop_mset: "heappop lt h = Some (x, h') \<Longrightarrow> mset h = add_mset x (mset h')"
proof (induction lt h rule: heappop.induct)
  case (3 lt a b ys)
  let ?z = "last (b # ys)" and ?t = "butlast (b # ys)"
  from 3 have "x = a" "h' = siftup lt ?z (?z # ?t) 0" by simp_all
  moreover have "mset (b # ys) = mset (?t @ [?z])" by (simp only: append_butlast_last_id list.distinct not_False_eq_True)
  then have m: "mset (b # ys) = add_mset ?z (mset ?t)" by (simp only: mset_append mset.simps) simp
  ultimately show ?case using m by (simp add: mset_siftup del: butlast.simps last.simps)
qed simp_all

lemma heappop_None [simp]: "heappop lt h = None \<longleftrightarrow> h = []"
  by (cases "(lt, h)" rule: heappop.cases) (auto simp: Let_def)

lemma heappop_length: "heappop lt h = Some (x, h') \<Longrightarrow> length h = Suc (length h')"
  by (drule heappop_mset) (metis size_add_mset size_mset)

lemma heappop_sets: "heappop lt h = Some (x, h') \<Longrightarrow> set h = insert x (set h')"
  by (drule heappop_mset) (metis set_mset_add_mset_insert set_mset_mset)

lemma set_heappush [simp]: "set (heappush lt x h) = insert x (set h)"
  by (metis mset_heappush set_mset_add_mset_insert set_mset_mset)

section \<open>The order\<close>

text \<open>A strict weak order: not being less is a total preorder.\<close>

definition weak_order_on :: "'a set \<Rightarrow> ('a \<Rightarrow> 'a \<Rightarrow> bool) \<Rightarrow> bool" where
  "weak_order_on A lt \<longleftrightarrow> (\<forall>a \<in> A. \<not> lt a a) \<and> (\<forall>a \<in> A. \<forall>b \<in> A. lt a b \<longrightarrow> \<not> lt b a)
     \<and> (\<forall>a \<in> A. \<forall>b \<in> A. \<forall>c \<in> A. \<not> lt b a \<longrightarrow> \<not> lt c b \<longrightarrow> \<not> lt c a)"

lemma weak_orderD:
  assumes "weak_order_on A lt"
  shows "a \<in> A \<Longrightarrow> \<not> lt a a" "a \<in> A \<Longrightarrow> b \<in> A \<Longrightarrow> lt a b \<Longrightarrow> \<not> lt b a"
    "a \<in> A \<Longrightarrow> b \<in> A \<Longrightarrow> c \<in> A \<Longrightarrow> \<not> lt b a \<Longrightarrow> \<not> lt c b \<Longrightarrow> \<not> lt c a"
  using assms unfolding weak_order_on_def by blast+

abbreviation parent :: "nat \<Rightarrow> nat" where
  "parent i \<equiv> (i - 1) div 2"

definition heap :: "('a \<Rightarrow> 'a \<Rightarrow> bool) \<Rightarrow> 'a list \<Rightarrow> bool" where
  "heap lt h \<longleftrightarrow> (\<forall>i. 0 < i \<and> i < length h \<longrightarrow> \<not> lt (h ! i) (h ! parent i))"

text \<open>A heap but for the element at \<open>pos\<close>, where \<open>x\<close> may go unless it is less than the parent.\<close>

definition heap_hole :: "('a \<Rightarrow> 'a \<Rightarrow> bool) \<Rightarrow> 'a \<Rightarrow> 'a list \<Rightarrow> nat \<Rightarrow> bool" where
  "heap_hole lt x h pos \<longleftrightarrow> (\<forall>i. 0 < i \<and> i < length h \<and> i \<noteq> pos \<longrightarrow>
     (if parent i = pos then \<not> lt (h ! i) x \<and> (0 < pos \<longrightarrow> \<not> lt (h ! i) (h ! parent pos))
      else \<not> lt (h ! i) (h ! parent i)))"

lemma heap_siftdown:
  "weak_order_on A lt \<Longrightarrow> insert x (set h) \<subseteq> A \<Longrightarrow> pos < length h \<Longrightarrow> heap_hole lt x h pos \<Longrightarrow> heap lt (siftdown lt x h pos)"
proof (induction lt x h pos rule: siftdown.induct)
  case (1 lt x h pos)
  let ?p = "parent pos"
  note ord = weak_orderD [OF 1(2)]
  have in_A: "h ! i \<in> A" if "i < length h" for i using that 1(3) by auto
  show ?case
  proof (cases "pos > 0 \<and> lt x (h ! ?p)")
    case True
    then have p: "?p < pos" "?p < length h" using 1(4) by auto
    have "heap_hole lt x (h[pos := h ! ?p]) ?p"
      unfolding heap_hole_def
    proof (intro allI impI)
      fix i
      assume i: "0 < i \<and> i < length (h[pos := h ! ?p]) \<and> i \<noteq> ?p"
      then have il: "0 < i" "i < length h" "i \<noteq> ?p" by auto
      then have pi: "parent i < i" by auto
      have hole: "i \<noteq> pos \<Longrightarrow> (if parent i = pos then \<not> lt (h ! i) x \<and> (0 < pos \<longrightarrow> \<not> lt (h ! i) (h ! ?p)) else \<not> lt (h ! i) (h ! parent i))"
        using 1(5) il unfolding heap_hole_def by blast
      have up: "\<not> lt (h ! ?p) (h ! parent ?p)" if "0 < ?p"
      proof -
        have "parent ?p \<noteq> pos" using p(1) by auto
        then show ?thesis using 1(5) p that unfolding heap_hole_def by (metis less_irrefl)
      qed
      have asym: "\<not> lt (h ! ?p) x" using ord(2) [of x "h ! ?p"] True 1(3) in_A p(2) by blast
      consider "i = pos" | "i \<noteq> pos" "parent i = ?p" | "i \<noteq> pos" "parent i = pos" | "i \<noteq> pos" "parent i \<noteq> ?p" "parent i \<noteq> pos" by blast
      then show "if parent i = ?p
          then \<not> lt (h[pos := h ! ?p] ! i) x \<and> (0 < ?p \<longrightarrow> \<not> lt (h[pos := h ! ?p] ! i) (h[pos := h ! ?p] ! parent ?p))
          else \<not> lt (h[pos := h ! ?p] ! i) (h[pos := h ! ?p] ! parent i)"
      proof cases
        case 1
        then show ?thesis using asym up p il by (auto simp: nth_list_update)
      next
        case 2
        then have le: "\<not> lt (h ! i) (h ! ?p)" using hole p(1) by auto
        have "\<not> lt (h ! i) x" using ord(3) [of x "h ! ?p" "h ! i"] asym le "1.prems"(2) in_A p(2) il(2) by blast
        moreover have "\<not> lt (h ! i) (h ! parent ?p)" if "0 < ?p"
          using ord(3) [of "h ! parent ?p" "h ! ?p" "h ! i"] up [OF that] le in_A p il(2) that by (meson div_le_dividend diff_le_self le_less_trans)
        moreover have "parent ?p \<noteq> pos" using p(1) by auto
        ultimately show ?thesis using 2 p by auto
      next
        case 3
        then show ?thesis using hole True p(1) "1.prems"(3) by (auto simp: nth_list_update)
      next
        case 4
        then show ?thesis using hole by (auto simp: nth_list_update)
      qed
    qed
    moreover have "insert x (set (h[pos := h ! ?p])) \<subseteq> A" using 1(3) p(2) set_update_subset_insert [of h pos "h ! ?p"] by fastforce
    ultimately show ?thesis using 1(1) [OF True 1(2)] True p by (simp add: siftdown.simps [of lt x h])
  next
    case False
    have "heap lt (h[pos := x])"
      unfolding heap_def
    proof (intro allI impI)
      fix i
      assume i: "0 < i \<and> i < length (h[pos := x])"
      show "\<not> lt (h[pos := x] ! i) (h[pos := x] ! parent i)"
      proof (cases "i = pos")
        case True
        then have "parent i \<noteq> pos" using i by auto
        then show ?thesis using True i False by simp
      next
        case ne: False
        then have "if parent i = pos then \<not> lt (h ! i) x else \<not> lt (h ! i) (h ! parent i)"
          using 1(5) i unfolding heap_hole_def by (auto split: if_splits)
        then show ?thesis using ne 1(4) by (simp split: if_splits)
      qed
    qed
    with False show ?thesis by (auto simp: siftdown.simps [of lt x h])
  qed
qed

definition heap_open :: "('a \<Rightarrow> 'a \<Rightarrow> bool) \<Rightarrow> 'a list \<Rightarrow> nat \<Rightarrow> bool" where
  "heap_open lt h pos \<longleftrightarrow> (\<forall>i. 0 < i \<and> i < length h \<and> i \<noteq> pos \<longrightarrow>
     (if parent i = pos then 0 < pos \<longrightarrow> \<not> lt (h ! i) (h ! parent pos) else \<not> lt (h ! i) (h ! parent i)))"

lemma children: "0 < i \<Longrightarrow> parent i = pos \<longleftrightarrow> i = 2 * pos + 1 \<or> i = 2 * pos + 2"
  by auto

lemma heap_openD: "heap_open lt h pos \<Longrightarrow> 0 < i \<Longrightarrow> i < length h \<Longrightarrow> i \<noteq> pos \<Longrightarrow> parent i \<noteq> pos \<Longrightarrow> \<not> lt (h ! i) (h ! parent i)"
  "heap_open lt h pos \<Longrightarrow> 0 < i \<Longrightarrow> i < length h \<Longrightarrow> parent i = pos \<Longrightarrow> 0 < pos \<Longrightarrow> \<not> lt (h ! i) (h ! parent pos)"
  unfolding heap_open_def by (auto dest!: spec [of _ i])

lemma heap_open_step:
  assumes "weak_order_on A lt" "set h \<subseteq> A" "heap_open lt h pos" "2 * pos + 1 < length h"
  defines "c \<equiv> smaller_child lt h pos"
  shows "heap_open lt (h[pos := h ! c]) c"
proof -
  note open_at = heap_openD [OF assms(3)]
  have c: "c < length h" "pos < c" "0 < c" "parent c = pos"
    using smaller_child [OF assms(4), of lt] by (auto simp: c_def smaller_child_def)
  have least: "\<not> lt (h ! i) (h ! c)" if "0 < i" "i < length h" "parent i = pos" for i
  proof (cases "i = c")
    case True
    then show ?thesis using weak_orderD(1) [OF assms(1)] assms(2) c(1) nth_mem [OF c(1)] by blast
  next
    case False
    let ?l = "2 * pos + 1" and ?r = "2 * pos + 2"
    from that children [of i pos] have "i = ?l \<or> i = ?r" by blast
    then show ?thesis
    proof
      assume "i = ?l"
      with False have "c = ?r" "\<not> lt (h ! ?l) (h ! ?r)" unfolding c_def smaller_child_def by (simp_all split: if_splits)
      with \<open>i = ?l\<close> show ?thesis by simp
    next
      assume r: "i = ?r"
      with False that(2) have "c = ?l" "lt (h ! ?l) (h ! ?r)" unfolding c_def smaller_child_def by (simp_all split: if_splits)
      moreover have "h ! ?l \<in> A" "h ! ?r \<in> A" using assms(2) nth_mem [OF assms(4)] nth_mem [OF that(2)] r by auto
      ultimately show ?thesis using r weak_orderD(2) [OF assms(1)] by simp
    qed
  qed
  show ?thesis
    unfolding heap_open_def
  proof (intro allI impI)
    fix i
    assume "0 < i \<and> i < length (h[pos := h ! c]) \<and> i \<noteq> c"
    then have i: "0 < i" "i < length h" "i \<noteq> c" "parent i < i" by auto
    consider "i = pos" | "parent i = pos" | "parent i = c" | "i \<noteq> pos" "parent i \<noteq> pos" "parent i \<noteq> c" by blast
    then show "if parent i = c then 0 < c \<longrightarrow> \<not> lt (h[pos := h ! c] ! i) (h[pos := h ! c] ! parent c)
        else \<not> lt (h[pos := h ! c] ! i) (h[pos := h ! c] ! parent i)"
    proof cases
      case 1
      with i c have "parent i \<noteq> c" "parent i \<noteq> pos" by auto
      with 1 i c open_at(2) [of c] show ?thesis by simp
    next
      case 2
      with i c have "i \<noteq> pos" by auto
      with 2 i c least show ?thesis by simp
    next
      case 3
      with i c have "i \<noteq> pos" by auto
      with 3 i c open_at(1) [of i] show ?thesis by simp
    next
      case 4
      with i open_at(1) show ?thesis by simp
    qed
  qed
qed

lemma heap_siftup:
  "weak_order_on A lt \<Longrightarrow> insert x (set h) \<subseteq> A \<Longrightarrow> pos < length h \<Longrightarrow> heap_open lt h pos \<Longrightarrow> heap lt (siftup lt x h pos)"
proof (induction lt x h pos rule: siftup.induct)
  case (1 lt x h pos)
  let ?c = "smaller_child lt h pos"
  show ?case
  proof (cases "2 * pos + 1 < length h")
    case True
    note c = smaller_child [OF True, of lt]
    have "insert x (set (h[pos := h ! ?c])) \<subseteq> A" using 1(3) c set_update_subset_insert [of h pos "h ! ?c"] by fastforce
    with 1(1) [OF True 1(2)] heap_open_step [OF 1(2) _ 1(5) True] 1(3) c True show ?thesis by (simp add: siftup.simps [of lt x h])
  next
    case False
    have "heap_hole lt x h pos"
      unfolding heap_hole_def
    proof (intro allI impI)
      fix i
      assume i: "0 < i \<and> i < length h \<and> i \<noteq> pos"
      then have "parent i \<noteq> pos" using children [of i pos] False by auto
      then show "if parent i = pos then \<not> lt (h ! i) x \<and> (0 < pos \<longrightarrow> \<not> lt (h ! i) (h ! parent pos)) else \<not> lt (h ! i) (h ! parent i)"
        using heap_openD(1) [OF 1(5)] i by simp
    qed
    with heap_siftdown [OF 1(2-4)] False show ?thesis by (simp add: siftup.simps [of lt x h])
  qed
qed

lemma heap_push: "weak_order_on A lt \<Longrightarrow> insert x (set h) \<subseteq> A \<Longrightarrow> heap lt h \<Longrightarrow> heap lt (heappush lt x h)"
  unfolding heappush_def
  by (rule heap_siftdown [of A]) (auto simp: heap_def heap_hole_def nth_append)

lemma heap_root: "weak_order_on A lt \<Longrightarrow> set h \<subseteq> A \<Longrightarrow> heap lt h \<Longrightarrow> i < length h \<Longrightarrow> \<not> lt (h ! i) (h ! 0)"
proof (induction i rule: less_induct)
  case (less i)
  have in_A: "h ! j \<in> A" if "j < length h" for j using that less.prems(2) by auto
  show ?case
  proof (cases "i = 0")
    case True
    with weak_orderD(1) [OF less.prems(1)] in_A [of 0] less.prems(4) show ?thesis by auto
  next
    case False
    then have p: "parent i < i" "parent i < length h" using less.prems(4) by auto
    with less have "\<not> lt (h ! parent i) (h ! 0)" by blast
    moreover have "\<not> lt (h ! i) (h ! parent i)" using less.prems(3,4) False unfolding heap_def by blast
    ultimately show ?thesis using weak_orderD(3) [OF less.prems(1), of "h ! 0" "h ! parent i" "h ! i"] in_A p less.prems(4) by (metis less_nat_zero_code linorder_neqE_nat)
  qed
qed

lemma heap_pop:
  assumes "weak_order_on A lt" "set h \<subseteq> A" "heap lt h" "heappop lt h = Some (x, h')"
  shows "heap lt h' \<and> (\<forall>y \<in> set h'. \<not> lt y x)"
proof -
  have "x = h ! 0" using assms(4) by (cases "(lt, h)" rule: heappop.cases) auto
  with heap_root [OF assms(1-3)] have "\<forall>y \<in> set h. \<not> lt y x" by (metis in_set_conv_nth)
  moreover have "set h' \<subseteq> set h" using heappop_sets [OF assms(4)] by blast
  moreover have "heap lt h'"
  proof (cases "(lt, h)" rule: heappop.cases)
    case (3 lt' a b ys)
    let ?z = "last (b # ys)" and ?t = "butlast (b # ys)"
    have h': "h' = siftup lt ?z (?z # ?t) 0" using assms(4) 3 by simp
    have bt: "b # ys = ?t @ [?z]" by (simp only: append_butlast_last_id list.distinct not_False_eq_True)
    have "heap_open lt (?z # ?t) 0"
      unfolding heap_open_def
    proof (intro allI impI)
      fix i
      assume i: "0 < i \<and> i < length (?z # ?t) \<and> i \<noteq> 0"
      then have "i < length h" using 3 by (simp split: if_splits)
      then have "\<not> lt (h ! i) (h ! parent i)" using assms(3) i unfolding heap_def by blast
      moreover have nth: "(?z # ?t) ! j = h ! j" if "0 < j" "j \<le> i" for j
        using that i 3 by (auto simp: nth_Cons nth_butlast split: nat.splits)
      ultimately show "if parent i = 0 then 0 < (0 :: nat) \<longrightarrow> \<not> lt ((?z # ?t) ! i) ((?z # ?t) ! parent 0) else \<not> lt ((?z # ?t) ! i) ((?z # ?t) ! parent i)"
        using nth [of i] nth [of "parent i"] i by auto
    qed
    moreover have "insert ?z (set (?z # ?t)) \<subseteq> A" using assms(2) 3 bt by (metis (no_types, lifting) Un_subset_iff insert_subset list.simps(15) prod.inject set_append empty_set list.set(2) insert_absorb2 subset_trans)
    ultimately show ?thesis unfolding h' by (intro heap_siftup [OF assms(1)]) auto
  qed (use assms(4) in \<open>auto simp: heap_def\<close>)
  ultimately show ?thesis by blast
qed

end
