(* ===== verification/Broker_Queues.thy ===== *)
theory Broker_Queues
  imports Broker_Messages Priority_Queue
begin

text \<open>
  The queues between the broker and the service: \<open>InMemoryBrokerQueue\<close> and \<open>DatabaseBrokerQueue\<close>
  (\<open>networks/brokers/collections/queues\<close>) with the statements of the aiopg plugin
  (\<open>factories/networks/collections/queues.py\<close>, \<open>factories/networks/subscribers/queues.py\<close>).

  The database queue is a table and a task. A message is a row; the task selects rows that are not
  being processed and were not tried too often, marks them, and puts them into a bounded priority
  queue in memory; a consumer takes entries from there, deletes the row and returns the message. An
  entry that cannot be decoded goes back to the table with one more try. The three parties are steps
  of one state that interleave in any order.
\<close>

section \<open>The table\<close>

record queue_row =
  qr_id :: nat
  qr_topic :: string
  qr_data :: bytes
  qr_retry :: nat
  qr_processing :: bool
  qr_created_at :: datetime

text \<open>\<open>build_submit\<close>: retry and processing have defaults, the identifier is the next of the sequence.\<close>

definition q_build_submit :: "nat \<Rightarrow> datetime \<Rightarrow> string \<Rightarrow> bytes \<Rightarrow> queue_row list \<Rightarrow> queue_row list" where
  "q_build_submit i now topic data rows =
     rows @ [\<lparr>qr_id = i, qr_topic = topic, qr_data = data, qr_retry = 0, qr_processing = False, qr_created_at = now\<rparr>]"

definition build_mark_processed :: "nat \<Rightarrow> queue_row list \<Rightarrow> queue_row list" where
  "build_mark_processed i rows =
     map (\<lambda>r. if qr_id r = i then r\<lparr>qr_processing := False, qr_retry := qr_retry r + 1\<rparr> else r) rows"

definition q_build_delete :: "nat \<Rightarrow> queue_row list \<Rightarrow> queue_row list" where
  "q_build_delete i rows = filter (\<lambda>r. qr_id r \<noteq> i) rows"

definition build_mark_processing :: "nat list \<Rightarrow> queue_row list \<Rightarrow> queue_row list" where
  "build_mark_processing ids rows = map (\<lambda>r. if qr_id r \<in> set ids then r\<lparr>qr_processing := True\<rparr> else r) rows"

text \<open>The \<open>WHERE\<close> clause: the queue of a subscriber also asks for its topics.\<close>

definition eligible :: "nat \<Rightarrow> string list option \<Rightarrow> queue_row \<Rightarrow> bool" where
  "eligible retry topics r \<longleftrightarrow> qr_retry r < retry \<and> (case topics of None \<Rightarrow> True | Some ts \<Rightarrow> qr_topic r \<in> set ts)"

definition build_count :: "nat \<Rightarrow> string list option \<Rightarrow> queue_row list \<Rightarrow> nat" where
  "build_count retry topics rows = length (filter (\<lambda>r. \<not> qr_processing r \<and> eligible retry topics r) rows)"

text \<open>Rows of the same creation time come in the order of their insertion, one of the orders the database
  may choose.\<close>

definition q_build_query :: "nat \<Rightarrow> nat \<Rightarrow> string list option \<Rightarrow> queue_row list \<Rightarrow> (nat \<times> bytes) list" where
  "q_build_query retry records topics rows =
     map (\<lambda>r. (qr_id r, qr_data r))
       (take records (sort_key qr_created_at (filter (\<lambda>r. \<not> qr_processing r \<and> eligible retry topics r) rows)))"

section \<open>DatabaseBrokerQueue\<close>

text \<open>The configuration, with the encoding of messages and the comparison of contents as parameters.\<close>

record 'c queue_config =
  qc_retry :: nat
  qc_records :: nat
  qc_topics :: "string list option"
  qc_encode :: "'c BrokerMessageV1 \<Rightarrow> bytes"
  qc_decode :: "bytes \<Rightarrow> saga_error + 'c BrokerMessageV1"
  qc_lt :: "'c \<Rightarrow> 'c \<Rightarrow> bool option"

record db_queue =
  dq_rows :: "queue_row list"
  dq_next_id :: nat
  dq_event :: bool
  dq_pending :: "(nat \<times> bytes) list"
  dq_heap :: "(nat \<times> bytes) list"

text \<open>\<open>BrokerSubscriberQueue.__init__\<close> refuses an empty set of topics.\<close>

definition topics_ok :: "'c queue_config \<Rightarrow> saga_error + unit" where
  "topics_ok C = (if qc_topics C = Some [] then Inl (Agg ValueError) else Inr ())"

text \<open>\<open>_Entry.__lt__\<close>: an entry that cannot be decoded is not less than anything.\<close>

definition entry_lt :: "'c queue_config \<Rightarrow> nat \<times> bytes \<Rightarrow> nat \<times> bytes \<Rightarrow> bool" where
  "entry_lt C a b = (case (qc_decode C (snd a), qc_decode C (snd b)) of
     (Inr m, Inr n) \<Rightarrow> message_lt (qc_lt C) m n | _ \<Rightarrow> False)"

definition enqueue :: "'c queue_config \<Rightarrow> datetime \<Rightarrow> 'c BrokerMessageV1 \<Rightarrow> db_queue \<Rightarrow> db_queue" where
  "enqueue C now m q =
     q\<lparr>dq_rows := q_build_submit (dq_next_id q) now (ms_topic m) (qc_encode C m) (dq_rows q),
       dq_next_id := Suc (dq_next_id q), dq_event := True\<rparr>"

text \<open>\<open>_wait_for_entries\<close>: whether the task goes on. A non-zero count is enough, otherwise the event of
  an insertion is, which is then cleared.\<close>

definition wait_for_entries :: "'c queue_config \<Rightarrow> db_queue \<Rightarrow> bool \<times> db_queue" where
  "wait_for_entries C q =
     (if build_count (qc_retry C) (qc_topics C) (dq_rows q) \<noteq> 0 then (True, q)
      else if dq_event q then (True, q\<lparr>dq_event := False\<rparr>) else (False, q))"

definition dequeue_batch :: "'c queue_config \<Rightarrow> db_queue \<Rightarrow> db_queue" where
  "dequeue_batch C q =
     (let entries = q_build_query (qc_retry C) (qc_records C) (qc_topics C) (dq_rows q) in
      if entries = [] then q
      else q\<lparr>dq_rows := build_mark_processing (map fst entries) (dq_rows q), dq_pending := entries\<rparr>)"

text \<open>One turn of \<open>for entry in entries: await self._queue.put(entry)\<close>; the queue is bounded unless its
  size is zero.\<close>

definition has_room :: "'c queue_config \<Rightarrow> db_queue \<Rightarrow> bool" where
  "has_room C q \<longleftrightarrow> qc_records C = 0 \<or> length (dq_heap q) < qc_records C"

definition put_entry :: "'c queue_config \<Rightarrow> db_queue \<Rightarrow> db_queue" where
  "put_entry C q = (case dq_pending q of
     [] \<Rightarrow> q | e # es \<Rightarrow> q\<lparr>dq_pending := es, dq_heap := heappush (entry_lt C) e (dq_heap q)\<rparr>)"

text \<open>One turn of the loop of \<open>_dequeue\<close>, when there is an entry: the message, or nothing when the entry
  went back to the table.\<close>

definition take_entry :: "'c queue_config \<Rightarrow> db_queue \<Rightarrow> 'c BrokerMessageV1 option \<times> db_queue" where
  "take_entry C q = (case heappop (entry_lt C) (dq_heap q) of
     None \<Rightarrow> (None, q)
   | Some ((i, d), h) \<Rightarrow> (case qc_decode C d of
       Inl _ \<Rightarrow> (None, q\<lparr>dq_heap := h, dq_rows := build_mark_processed i (dq_rows q)\<rparr>)
     | Inr m \<Rightarrow> (Some m, q\<lparr>dq_heap := h, dq_rows := q_build_delete i (dq_rows q)\<rparr>)))"

text \<open>\<open>_dequeue\<close> as far as it gets with the entries that are in memory.\<close>

function dequeue :: "'c queue_config \<Rightarrow> db_queue \<Rightarrow> 'c BrokerMessageV1 option \<times> db_queue" where
  "dequeue C q = (if dq_heap q = [] then (None, q) else
     (case take_entry C q of (Some m, q') \<Rightarrow> (Some m, q') | (None, q') \<Rightarrow> dequeue C q'))"
  by auto
termination
  by (relation "measure (\<lambda>(C, q). length (dq_heap q))")
    (auto simp: take_entry_def split: option.splits sum.splits dest: heappop_length)

declare dequeue.simps [simp del]

text \<open>\<open>_destroy\<close>: the task is cancelled, which drops the entries it has not put yet, and the entries in
  memory are given back.\<close>

definition flush_queue :: "db_queue \<Rightarrow> db_queue" where
  "flush_queue q = q\<lparr>dq_heap := [], dq_rows := fold (\<lambda>e. build_mark_processed (fst e)) (dq_heap q) (dq_rows q)\<rparr>"

definition destroy :: "db_queue \<Rightarrow> db_queue" where
  "destroy q = flush_queue (q\<lparr>dq_pending := []\<rparr>)"

text \<open>A new instance over the same table, after \<open>destroy\<close> or after the process has died.\<close>

definition restart :: "db_queue \<Rightarrow> db_queue" where
  "restart q = q\<lparr>dq_event := False, dq_pending := [], dq_heap := []\<rparr>"

section \<open>InMemoryBrokerQueue\<close>

definition mem_enqueue :: "'m \<Rightarrow> 'm list \<Rightarrow> 'm list" where
  "mem_enqueue m q = q @ [m]"

definition mem_dequeue :: "'m list \<Rightarrow> ('m \<times> 'm list) option" where
  "mem_dequeue q = (case q of [] \<Rightarrow> None | m # ms \<Rightarrow> Some (m, ms))"

end
