(* ===== verification/Broker_Properties.thy ===== *)
theory Broker_Properties
  imports Broker_Queues
begin

text \<open>
  What the broker queues promise: the abstract queue is a bag of messages to which messages are added
  and from which they are taken, and both queues implement it, the database queue in every interleaving
  of its three parties. Then the bound on the tries of an entry, that the database queue delivers
  everything, what a crash does, and the dispatcher.
\<close>

section \<open>The abstract queue\<close>

datatype 'm qevent = Enqueued 'm | Delivered 'm | Internal

fun bag_step :: "'m multiset \<Rightarrow> 'm qevent \<Rightarrow> 'm multiset \<Rightarrow> bool" where
  "bag_step b (Enqueued m) b' = (b' = add_mset m b)"
| "bag_step b (Delivered m) b' = (b = add_mset m b')"
| "bag_step b Internal b' = (b' = b)"

fun enqueued :: "'m qevent list \<Rightarrow> 'm multiset" where
  "enqueued [] = {#}"
| "enqueued (e # es) = (case e of Enqueued m \<Rightarrow> add_mset m (enqueued es) | _ \<Rightarrow> enqueued es)"

fun delivered :: "'m qevent list \<Rightarrow> 'm multiset" where
  "delivered [] = {#}"
| "delivered (e # es) = (case e of Delivered m \<Rightarrow> add_mset m (delivered es) | _ \<Rightarrow> delivered es)"

inductive run :: "('s \<Rightarrow> 'm qevent \<Rightarrow> 's \<Rightarrow> bool) \<Rightarrow> 's \<Rightarrow> 'm qevent list \<Rightarrow> 's \<Rightarrow> bool" for step where
  stop: "run step s [] s"
| more: "step s e s1 \<Longrightarrow> run step s1 es s2 \<Longrightarrow> run step s (e # es) s2"

inductive_cases run_NilE: "run step s [] s'"
inductive_cases run_ConsE: "run step s (e # es) s'"

text \<open>The contract of a queue: its steps keep an invariant and are steps of the bag it stands for.\<close>

locale message_queue =
  fixes inv :: "'s \<Rightarrow> bool" and step :: "'s \<Rightarrow> 'm qevent \<Rightarrow> 's \<Rightarrow> bool" and bag :: "'s \<Rightarrow> 'm multiset"
  assumes step_inv: "inv s \<Longrightarrow> step s e s' \<Longrightarrow> inv s'"
    and step_bag: "inv s \<Longrightarrow> step s e s' \<Longrightarrow> bag_step (bag s) e (bag s')"
begin

lemma run_inv: "run step s es s' \<Longrightarrow> inv s \<Longrightarrow> inv s'"
  by (induction rule: run.induct) (auto dest: step_inv)

text \<open>Nothing is lost and nothing is made up: what was delivered and what is left is what was there and
  what was added.\<close>

lemma run_accounts: "run step s es s' \<Longrightarrow> inv s \<Longrightarrow> delivered es + bag s' = bag s + enqueued es"
proof (induction rule: run.induct)
  case (more s e s1 es s2)
  with step_bag [OF more.prems more.hyps(1)] step_inv [OF more.prems more.hyps(1)] show ?case
    by (cases e) auto
qed simp

end

section \<open>The queue in memory\<close>

inductive mem_step :: "'m list \<Rightarrow> 'm qevent \<Rightarrow> 'm list \<Rightarrow> bool" where
  put: "mem_step q (Enqueued m) (mem_enqueue m q)"
| get: "mem_dequeue q = Some (m, q') \<Longrightarrow> mem_step q (Delivered m) q'"

inductive_cases mem_stepE: "mem_step q e q'"

interpretation mem_queue: message_queue "\<lambda>_. True" mem_step mset
  by unfold_locales (auto elim!: mem_stepE simp: mem_enqueue_def mem_dequeue_def split: list.splits)

section \<open>The queue in the database\<close>

definition row_message :: "'c queue_config \<Rightarrow> queue_row \<Rightarrow> 'c BrokerMessageV1 option" where
  "row_message C r = (if eligible (qc_retry C) (qc_topics C) r
     then (case qc_decode C (qr_data r) of Inl _ \<Rightarrow> None | Inr m \<Rightarrow> Some m) else None)"

definition queue_bag :: "'c queue_config \<Rightarrow> db_queue \<Rightarrow> 'c BrokerMessageV1 multiset" where
  "queue_bag C q = mset (List.map_filter (row_message C) (dq_rows q))"

text \<open>What an insertion adds: the message the stored bytes stand for, when the queue serves its topic.\<close>

definition submit_event :: "'c queue_config \<Rightarrow> 'c BrokerMessageV1 \<Rightarrow> 'c BrokerMessageV1 qevent" where
  "submit_event C m = (case row_message C \<lparr>qr_id = 0, qr_topic = ms_topic m, qr_data = qc_encode C m, qr_retry = 0,
       qr_processing = False, qr_created_at = 0\<rparr> of None \<Rightarrow> Internal | Some n \<Rightarrow> Enqueued n)"

text \<open>The steps of the task and of the consumer, and with them the insertions of other parties.\<close>

inductive work_step :: "'c queue_config \<Rightarrow> db_queue \<Rightarrow> 'c BrokerMessageV1 qevent \<Rightarrow> db_queue \<Rightarrow> bool" for C where
  batch: "dq_pending q = [] \<Longrightarrow> wait_for_entries C q = (True, q') \<Longrightarrow> work_step C q Internal (dequeue_batch C q')"
| put: "dq_pending q \<noteq> [] \<Longrightarrow> has_room C q \<Longrightarrow> work_step C q Internal (put_entry C q)"
| take: "dq_heap q \<noteq> [] \<Longrightarrow> take_entry C q = (r, q') \<Longrightarrow>
    work_step C q (case r of None \<Rightarrow> Internal | Some m \<Rightarrow> Delivered m) q'"

inductive_cases work_stepE: "work_step C q e q'"

inductive queue_step :: "'c queue_config \<Rightarrow> db_queue \<Rightarrow> 'c BrokerMessageV1 qevent \<Rightarrow> db_queue \<Rightarrow> bool" for C where
  submit: "queue_step C q (submit_event C m) (enqueue C now m q)"
| work: "work_step C q e q' \<Longrightarrow> queue_step C q e q'"

inductive_cases queue_stepE: "queue_step C q e q'"

text \<open>The rows an instance holds: those it has marked and not given back.\<close>

abbreviation held :: "db_queue \<Rightarrow> (nat \<times> bytes) list" where
  "held q \<equiv> dq_heap q @ dq_pending q"

definition rows_ok :: "db_queue \<Rightarrow> bool" where
  "rows_ok q \<longleftrightarrow> distinct (map qr_id (dq_rows q)) \<and> qr_id ` set (dq_rows q) \<subseteq> {..<dq_next_id q}"

definition holds :: "'c queue_config \<Rightarrow> queue_row list \<Rightarrow> nat \<times> bytes \<Rightarrow> bool" where
  "holds C rows e \<longleftrightarrow> (\<exists>r \<in> set rows. qr_id r = fst e \<and> qr_data r = snd e \<and> qr_processing r
     \<and> eligible (qc_retry C) (qc_topics C) r)"

definition queue_ok :: "'c queue_config \<Rightarrow> db_queue \<Rightarrow> bool" where
  "queue_ok C q \<longleftrightarrow> rows_ok q \<and> distinct (map fst (held q)) \<and> (\<forall>e \<in> set (held q). holds C (dq_rows q) e)"

text \<open>Every marked row the query would select is held.\<close>

definition all_held :: "'c queue_config \<Rightarrow> db_queue \<Rightarrow> bool" where
  "all_held C q \<longleftrightarrow> (\<forall>r \<in> set (dq_rows q). qr_processing r \<and> eligible (qc_retry C) (qc_topics C) r
     \<longrightarrow> qr_id r \<in> fst ` set (held q))"

subsection \<open>What the statements do\<close>

lemma ids_statements [simp]:
  "map qr_id (build_mark_processed i rows) = map qr_id rows"
  "map qr_id (build_mark_processing ids rows) = map qr_id rows"
  by (simp_all add: build_mark_processed_def build_mark_processing_def)

lemma id_set_statements [simp]:
  "qr_id ` set (build_mark_processed i rows) = qr_id ` set rows"
  "qr_id ` set (build_mark_processing ids rows) = qr_id ` set rows"
  by (metis ids_statements(1) list.set_map) (metis ids_statements(2) list.set_map)

lemma other_rows:
  "r \<in> set rows \<Longrightarrow> qr_id r \<noteq> i \<Longrightarrow> r \<in> set (build_mark_processed i rows)"
  "r \<in> set rows \<Longrightarrow> qr_id r \<noteq> i \<Longrightarrow> r \<in> set (q_build_delete i rows)"
  unfolding build_mark_processed_def q_build_delete_def by force+

lemma row_by_id: "distinct (map qr_id rows) \<Longrightarrow> r \<in> set rows \<Longrightarrow> r' \<in> set rows \<Longrightarrow> qr_id r = qr_id r' \<Longrightarrow> r = r'"
  by (metis distinct_map inj_onD)

lemma mset_delete:
  "distinct (map qr_id rows) \<Longrightarrow> r \<in> set rows \<Longrightarrow> mset rows = add_mset r (mset (q_build_delete (qr_id r) rows))"
proof (induction rows)
  case (Cons a rows)
  show ?case
  proof (cases "r = a")
    case True
    with Cons.prems(1) have "qr_id r \<notin> qr_id ` set rows" by simp
    then have "q_build_delete (qr_id r) rows = rows" unfolding q_build_delete_def filter_id_conv by (metis imageI)
    with True show ?thesis by (simp add: q_build_delete_def)
  next
    case False
    with Cons.prems have "qr_id a \<noteq> qr_id r" "r \<in> set rows" by auto
    with Cons show ?thesis by (simp add: q_build_delete_def)
  qed
qed simp

lemma map_filter_pointwise: "(\<And>x. x \<in> set xs \<Longrightarrow> f (g x) = f x) \<Longrightarrow> List.map_filter f (map g xs) = List.map_filter f xs"
  by (induction xs) (auto simp: map_filter_simps split: option.splits)

lemma mset_map_filter_image: "mset (List.map_filter f xs) = image_mset (the \<circ> f) (filter_mset (\<lambda>x. f x \<noteq> None) (mset xs))"
  by (simp add: map_filter_def)

lemma mset_map_filter: "mset xs = add_mset x (mset ys) \<Longrightarrow> mset (List.map_filter f xs) =
    (case f x of None \<Rightarrow> mset (List.map_filter f ys) | Some y \<Rightarrow> add_mset y (mset (List.map_filter f ys)))"
  unfolding mset_map_filter_image by (auto split: option.splits)

lemma row_message_simps [simp]:
  "row_message C (r\<lparr>qr_processing := b\<rparr>) = row_message C r"
  by (cases "qc_topics C") (simp_all add: row_message_def eligible_def)

lemma bag_mark_processing: "List.map_filter (row_message C) (build_mark_processing ids rows) = List.map_filter (row_message C) rows"
  unfolding build_mark_processing_def by (rule map_filter_pointwise) simp

lemma bag_mark_processed:
  assumes "\<And>r. r \<in> set rows \<Longrightarrow> qr_id r = i \<Longrightarrow> row_message C r = None"
  shows "List.map_filter (row_message C) (build_mark_processed i rows) = List.map_filter (row_message C) rows"
  unfolding build_mark_processed_def
proof (rule map_filter_pointwise)
  fix r
  assume "r \<in> set rows"
  with assms [of r] show "row_message C (if qr_id r = i then r\<lparr>qr_processing := False, qr_retry := qr_retry r + 1\<rparr> else r) = row_message C r"
    by (auto simp: row_message_def eligible_def split: if_splits sum.splits option.splits)
qed

subsection \<open>The invariant\<close>

lemma query_rows:
  assumes "e \<in> set (q_build_query retry records topics rows)"
  obtains r where "r \<in> set rows" "e = (qr_id r, qr_data r)" "\<not> qr_processing r" "eligible retry topics r"
  using assms by (auto simp: q_build_query_def dest!: in_set_takeD)

lemma distinct_map_sort: "distinct (map f xs) \<Longrightarrow> distinct (map f (sort_key g xs))"
  by (simp add: distinct_map)

lemma query_distinct: "distinct (map qr_id rows) \<Longrightarrow> distinct (map fst (q_build_query retry records topics rows))"
  unfolding q_build_query_def map_map comp_def fst_conv take_map [symmetric]
  by (intro distinct_take distinct_map_sort distinct_map_filter)

lemma holds_weaken:
  assumes "holds C rows e" "\<And>r. r \<in> set rows \<Longrightarrow> qr_id r = fst e \<Longrightarrow> qr_processing r \<Longrightarrow> r \<in> set rows'"
  shows "holds C rows' e"
  using assms unfolding holds_def by blast

lemma held_row:
  assumes "queue_ok C q" "(i, d) \<in> set (held q)"
  obtains r where "r \<in> set (dq_rows q)" "qr_id r = i" "qr_data r = d" "qr_processing r" "eligible (qc_retry C) (qc_topics C) r"
  using assms unfolding queue_ok_def holds_def by fastforce

lemma enqueue_ok: "queue_ok C q \<Longrightarrow> queue_ok C (enqueue C now m q)"
  unfolding queue_ok_def rows_ok_def
  by (force simp: enqueue_def q_build_submit_def less_Suc_eq holds_def)

lemma batch_ok:
  assumes "queue_ok C q" "dq_pending q = []"
  shows "queue_ok C (dequeue_batch C q)"
proof -
  let ?es = "q_build_query (qc_retry C) (qc_records C) (qc_topics C) (dq_rows q)"
  let ?rows = "build_mark_processing (map fst ?es) (dq_rows q)"
  have ids: "distinct (map qr_id (dq_rows q))" using assms(1) by (simp add: queue_ok_def rows_ok_def)
  have new: "holds C ?rows e" if e: "e \<in> set ?es" for e
  proof -
    obtain r where "r \<in> set (dq_rows q)" "e = (qr_id r, qr_data r)" "eligible (qc_retry C) (qc_topics C) r"
      by (rule query_rows [OF e])
    with e show ?thesis unfolding holds_def build_mark_processing_def
      by (intro bexI [of _ "r\<lparr>qr_processing := True\<rparr>"]) (force simp: eligible_def split: option.splits)+
  qed
  have old: "holds C ?rows e" if "holds C (dq_rows q) e" for e
    using that by (rule holds_weaken) (force simp: build_mark_processing_def)
  have free: "fst e \<notin> fst ` set ?es" if e: "e \<in> set (held q)" for e
  proof
    assume "fst e \<in> fst ` set ?es"
    then obtain r where r: "r \<in> set (dq_rows q)" "qr_id r = fst e" "\<not> qr_processing r" by (auto elim: query_rows)
    obtain r' where "r' \<in> set (dq_rows q)" "qr_id r' = fst e" "qr_processing r'"
      using held_row [OF assms(1), of "fst e" "snd e"] e by auto
    with row_by_id [OF ids] r show False by metis
  qed
  have "fst ` set (dq_heap q) \<inter> fst ` set ?es = {}" using free by auto
  then have "distinct (map fst (dq_heap q @ ?es))" "\<forall>e \<in> set (dq_heap q @ ?es). holds C ?rows e"
    using assms new old query_distinct [OF ids] by (auto simp: queue_ok_def)
  with assms show ?thesis
    unfolding queue_ok_def rows_ok_def dequeue_batch_def Let_def by simp
qed

lemma put_mset: "mset (held (put_entry C q)) = mset (held q)"
  by (auto simp: put_entry_def split: list.splits)

lemma put_rows [simp]: "dq_rows (put_entry C q) = dq_rows q" "dq_next_id (put_entry C q) = dq_next_id q"
  by (simp_all add: put_entry_def split: list.splits)

lemma put_held [simp]: "set (held (put_entry C q)) = set (held q)"
  by (rule mset_eq_setD [OF put_mset])

lemma put_ok: "queue_ok C q \<Longrightarrow> queue_ok C (put_entry C q)"
proof -
  assume ok: "queue_ok C q"
  have "mset (map fst (held (put_entry C q))) = mset (map fst (held q))" unfolding mset_map put_mset ..
  then have "distinct (map fst (held (put_entry C q))) = distinct (map fst (held q))" by (rule mset_eq_imp_distinct_iff)
  with ok show ?thesis unfolding queue_ok_def rows_ok_def put_held put_rows by blast
qed

text \<open>Taking an entry: it was held, and the row with its identifier is given back or deleted.\<close>

lemma take_entry_cases:
  assumes "take_entry C q = (r, q')" "dq_heap q \<noteq> []"
  obtains (bad) i d h x where "heappop (entry_lt C) (dq_heap q) = Some ((i, d), h)" "qc_decode C d = Inl x" "r = None"
      "q' = q\<lparr>dq_heap := h, dq_rows := build_mark_processed i (dq_rows q)\<rparr>"
  | (good) i d h m where "heappop (entry_lt C) (dq_heap q) = Some ((i, d), h)" "qc_decode C d = Inr m" "r = Some m"
      "q' = q\<lparr>dq_heap := h, dq_rows := q_build_delete i (dq_rows q)\<rparr>"
  using assms by (auto simp: take_entry_def split: option.splits sum.splits)

lemma popped:
  assumes "queue_ok C q" "heappop lt (dq_heap q) = Some ((i, d), h)"
  shows "distinct (map fst (h @ dq_pending q))" "i \<notin> fst ` set (h @ dq_pending q)"
    "\<forall>e \<in> set (h @ dq_pending q). holds C (dq_rows q) e" "(i, d) \<in> set (held q)" "set (held q) = insert (i, d) (set (h @ dq_pending q))"
proof -
  have "mset (held q) = mset ((i, d) # h @ dq_pending q)" using heappop_mset [OF assms(2)] by simp
  then have "mset (map fst (held q)) = mset (map fst ((i, d) # h @ dq_pending q))" unfolding mset_map by simp
  then have "distinct (map fst ((i, d) # h @ dq_pending q))"
    using assms(1) mset_eq_imp_distinct_iff unfolding queue_ok_def by blast
  then show "distinct (map fst (h @ dq_pending q))" "i \<notin> fst ` set (h @ dq_pending q)" by auto
  show "(i, d) \<in> set (held q)" "set (held q) = insert (i, d) (set (h @ dq_pending q))" using heappop_sets [OF assms(2)] by auto
  then show "\<forall>e \<in> set (h @ dq_pending q). holds C (dq_rows q) e" using assms(1) unfolding queue_ok_def by blast
qed

lemma take_ok:
  assumes "queue_ok C q" "dq_heap q \<noteq> []" "take_entry C q = (r, q')"
  shows "queue_ok C q'"
  using assms(3,2)
proof (cases rule: take_entry_cases)
  case (bad i d h x)
  note p = popped [OF assms(1) bad(1)]
  have "holds C (build_mark_processed i (dq_rows q)) e" if "e \<in> set (h @ dq_pending q)" for e
  proof (rule holds_weaken [of C "dq_rows q" e])
    show "holds C (dq_rows q) e" using p(3) that by blast
    fix r'
    assume "r' \<in> set (dq_rows q)" "qr_id r' = fst e"
    moreover have "fst e \<noteq> i" using p(2) that by blast
    ultimately show "r' \<in> set (build_mark_processed i (dq_rows q))" by (auto intro: other_rows)
  qed
  with assms(1) p(1) bad(4) show ?thesis
    unfolding queue_ok_def rows_ok_def by simp
next
  case (good i d h m)
  note p = popped [OF assms(1) good(1)]
  have "holds C (q_build_delete i (dq_rows q)) e" if "e \<in> set (h @ dq_pending q)" for e
  proof (rule holds_weaken [of C "dq_rows q" e])
    show "holds C (dq_rows q) e" using p(3) that by blast
    fix r'
    assume "r' \<in> set (dq_rows q)" "qr_id r' = fst e"
    moreover have "fst e \<noteq> i" using p(2) that by blast
    ultimately show "r' \<in> set (q_build_delete i (dq_rows q))" by (auto intro: other_rows)
  qed
  moreover have "distinct (map qr_id (q_build_delete i (dq_rows q)))" "qr_id ` set (q_build_delete i (dq_rows q)) \<subseteq> qr_id ` set (dq_rows q)"
    using assms(1) by (auto simp: queue_ok_def rows_ok_def q_build_delete_def intro: distinct_map_filter)
  ultimately show ?thesis
    using assms(1) p(1) good(4) unfolding queue_ok_def rows_ok_def by (simp add: subset_trans)
qed

lemma wait_queue:
  "wait_for_entries C q = (b, q') \<Longrightarrow> dq_rows q' = dq_rows q \<and> dq_next_id q' = dq_next_id q \<and> held q' = held q \<and> dq_pending q' = dq_pending q \<and> dq_heap q' = dq_heap q"
  by (auto simp: wait_for_entries_def split: if_splits)

lemma work_step_ok: "queue_ok C q \<Longrightarrow> work_step C q e q' \<Longrightarrow> queue_ok C q'"
proof (erule work_stepE)
  fix q1
  assume "queue_ok C q" "q' = dequeue_batch C q1" "dq_pending q = []" "wait_for_entries C q = (True, q1)"
  moreover from this(1) wait_queue [OF this(4)] have "queue_ok C q1" unfolding queue_ok_def rows_ok_def by simp
  ultimately show "queue_ok C q'" using wait_queue [of C q True q1] by (auto intro: batch_ok)
qed (auto intro: put_ok take_ok)

lemma queue_step_ok: "queue_ok C q \<Longrightarrow> queue_step C q e q' \<Longrightarrow> queue_ok C q'"
  by (erule queue_stepE) (auto intro: enqueue_ok work_step_ok)

subsection \<open>The bag\<close>

lemma enqueue_bag: "bag_step (queue_bag C q) (submit_event C m) (queue_bag C (enqueue C now m q))"
proof -
  let ?r = "\<lparr>qr_id = dq_next_id q, qr_topic = ms_topic m, qr_data = qc_encode C m, qr_retry = 0, qr_processing = False, qr_created_at = now\<rparr>"
  have "submit_event C m = (case row_message C ?r of None \<Rightarrow> Internal | Some n \<Rightarrow> Enqueued n)"
    by (cases "qc_topics C") (simp_all add: submit_event_def row_message_def eligible_def)
  moreover have "mset (dq_rows (enqueue C now m q)) = add_mset ?r (mset (dq_rows q))"
    by (simp add: enqueue_def q_build_submit_def)
  from mset_map_filter [OF this, of "row_message C"]
  have "queue_bag C (enqueue C now m q) = (case row_message C ?r of None \<Rightarrow> queue_bag C q | Some n \<Rightarrow> add_mset n (queue_bag C q))"
    unfolding queue_bag_def .
  ultimately show ?thesis by (cases "row_message C ?r") simp_all
qed

lemma batch_bag [simp]: "queue_bag C (dequeue_batch C q) = queue_bag C q"
  by (simp add: queue_bag_def dequeue_batch_def Let_def bag_mark_processing)

lemma put_bag [simp]: "queue_bag C (put_entry C q) = queue_bag C q"
  by (simp add: queue_bag_def)

lemma take_bag:
  assumes "queue_ok C q" "dq_heap q \<noteq> []" "take_entry C q = (r, q')"
  shows "bag_step (queue_bag C q) (case r of None \<Rightarrow> Internal | Some m \<Rightarrow> Delivered m) (queue_bag C q')"
  using assms(3,2)
proof (cases rule: take_entry_cases)
  case (bad i d h x)
  obtain r' where r': "r' \<in> set (dq_rows q)" "qr_id r' = i" "qr_data r' = d"
    using held_row [OF assms(1) popped(4) [OF assms(1) bad(1)]] by metis
  have "row_message C r2 = None" if "r2 \<in> set (dq_rows q)" "qr_id r2 = i" for r2
    using row_by_id [of "dq_rows q" r' r2] that r' bad(2) assms(1) by (simp add: queue_ok_def rows_ok_def row_message_def)
  from bag_mark_processed [of "dq_rows q" i C, OF this] bad(3,4) show ?thesis by (simp add: queue_bag_def)
next
  case (good i d h m)
  obtain r' where r': "r' \<in> set (dq_rows q)" "qr_id r' = i" "qr_data r' = d" "eligible (qc_retry C) (qc_topics C) r'"
    using held_row [OF assms(1) popped(4) [OF assms(1) good(1)]] by metis
  have "mset (dq_rows q) = add_mset r' (mset (q_build_delete i (dq_rows q)))"
    using mset_delete [of "dq_rows q" r'] r'(1,2) assms(1) by (simp add: queue_ok_def rows_ok_def)
  from mset_map_filter [OF this, of "row_message C"] r' good show ?thesis
    by (simp add: queue_bag_def row_message_def)
qed

lemma work_step_bag: "queue_ok C q \<Longrightarrow> work_step C q e q' \<Longrightarrow> bag_step (queue_bag C q) e (queue_bag C q')"
proof (erule work_stepE)
  fix q1
  assume "q' = dequeue_batch C q1" "wait_for_entries C q = (True, q1)" "e = Internal"
  with wait_queue [of C q True q1] show "bag_step (queue_bag C q) e (queue_bag C q')"
    by (simp add: queue_bag_def [of C q] queue_bag_def [of C q1])
qed (auto intro: take_bag)

lemma queue_step_bag: "queue_ok C q \<Longrightarrow> queue_step C q e q' \<Longrightarrow> bag_step (queue_bag C q) e (queue_bag C q')"
  by (erule queue_stepE) (auto intro: enqueue_bag work_step_bag)

interpretation db_queue: message_queue "queue_ok C" "queue_step C" "queue_bag C" for C
  by unfold_locales (fact queue_step_ok, fact queue_step_bag)

text \<open>C20: the database queue is a bag of messages. In every interleaving of insertions, of the task that
  moves rows into memory and of the consumer, what was delivered and what the table still holds for
  delivery is what it held at the start and what was added: no message is lost and none is delivered
  twice, and the rows an instance holds in memory are marked in the table.\<close>

theorem queue_delivers_once:
  assumes "queue_ok C q" "run (queue_step C) q es q'"
  shows "delivered es + queue_bag C q' = queue_bag C q + enqueued es \<and> queue_ok C q'"
  using db_queue.run_accounts [OF assms(2,1)] db_queue.run_inv [OF assms(2,1)] by blast

section \<open>Everything is delivered\<close>

definition row_load :: "'c queue_config \<Rightarrow> (nat \<times> bytes) list \<Rightarrow> (nat \<times> bytes) list \<Rightarrow> queue_row \<Rightarrow> nat" where
  "row_load C hs ps r = (if eligible (qc_retry C) (qc_topics C) r
     then 3 * (qc_retry C - qr_retry r)
       - (if qr_id r \<in> fst ` set hs then 2 else if qr_id r \<in> fst ` set ps then 1 else 0)
     else 0)"

text \<open>How many more steps the task and the consumer can take.\<close>

definition queue_load :: "'c queue_config \<Rightarrow> db_queue \<Rightarrow> nat" where
  "queue_load C q = sum_list (map (row_load C (dq_heap q) (dq_pending q)) (dq_rows q)) + (if dq_event q then 1 else 0)"

lemma sum_list_less:
  fixes f g :: "'a \<Rightarrow> nat"
  assumes "\<And>x. x \<in> set xs \<Longrightarrow> f x \<le> g x" "x \<in> set xs" "f x < g x"
  shows "sum_list (map f xs) < sum_list (map g xs)"
  using assms
proof (induction xs)
  case (Cons a xs)
  have le: "sum_list (map f xs) \<le> sum_list (map g xs)" using Cons.prems(1) by (intro sum_list_mono) simp
  show ?case
  proof (cases "x = a")
    case True
    with Cons.prems(3) le show ?thesis by simp
  next
    case False
    with Cons have "sum_list (map f xs) < sum_list (map g xs)" by simp
    with Cons.prems(1) show ?thesis by (simp add: add_le_less_mono)
  qed
qed simp

lemma eligible_processing [simp]: "eligible k ts (r\<lparr>qr_processing := b\<rparr>) = eligible k ts r"
  by (cases ts) (simp_all add: eligible_def)

lemma eligible_less: "eligible k ts r \<Longrightarrow> qr_retry r < k"
  by (simp add: eligible_def)

text \<open>The count and the query agree on whether there are rows, unless the limit is zero.\<close>

lemma query_Nil: "0 < records \<Longrightarrow> q_build_query k records ts rows = [] \<longleftrightarrow> build_count k ts rows = 0"
  unfolding q_build_query_def build_count_def map_is_Nil_conv take_eq_Nil2 length_0_conv [symmetric] length_sort by (auto simp: min_def)

lemma batch_load:
  assumes "queue_ok C q" "dq_pending q = []" "0 < qc_records C" "wait_for_entries C q = (True, q1)"
  shows "queue_load C (dequeue_batch C q1) < queue_load C q"
proof -
  let ?es = "q_build_query (qc_retry C) (qc_records C) (qc_topics C) (dq_rows q)"
  let ?q = "dequeue_batch C q1"
  note w = wait_queue [OF assms(4)]
  show ?thesis
  proof (cases "?es = []")
    case True
    with w assms(3) have "?q = q1" "build_count (qc_retry C) (qc_topics C) (dq_rows q) = 0"
      by (simp_all add: dequeue_batch_def query_Nil)
    with assms(4) show ?thesis by (auto simp: wait_for_entries_def queue_load_def split: if_splits)
  next
    case False
    then obtain e where e: "e \<in> set ?es" by (cases ?es) auto
    then obtain r where r: "r \<in> set (dq_rows q)" "qr_id r = fst e" "\<not> qr_processing r" "eligible (qc_retry C) (qc_topics C) r"
      by (auto elim: query_rows)
    have ids: "distinct (map qr_id (dq_rows q))" using assms(1) by (simp add: queue_ok_def rows_ok_def)
    have "qr_id r \<notin> fst ` set (dq_heap q)"
    proof
      assume "qr_id r \<in> fst ` set (dq_heap q)"
      then obtain d where "(qr_id r, d) \<in> set (held q)" by (auto intro: that)
      with assms(1) obtain r' where "r' \<in> set (dq_rows q)" "qr_id r' = qr_id r" "qr_processing r'" by (rule held_row)
      with row_by_id [OF ids] r show False by metis
    qed
    moreover have q: "?q = q1\<lparr>dq_rows := build_mark_processing (map fst ?es) (dq_rows q), dq_pending := ?es\<rparr>"
      using False w by (simp add: dequeue_batch_def Let_def)
    let ?f = "\<lambda>r. if qr_id r \<in> set (map fst ?es) then r\<lparr>qr_processing := True\<rparr> else r"
    let ?new = "\<lambda>x. row_load C (dq_heap q) ?es (?f x)" and ?old = "row_load C (dq_heap q) []"
    have le: "?new x \<le> ?old x" for x unfolding row_load_def by auto
    moreover have "?new r < ?old r"
      using r e calculation(1) eligible_less [OF r(4)] unfolding row_load_def by auto
    ultimately have "sum_list (map ?new (dq_rows q)) < sum_list (map ?old (dq_rows q))"
      using sum_list_less [of "dq_rows q" ?new ?old r] r(1) by blast
    moreover have "map (row_load C (dq_heap ?q) (dq_pending ?q)) (dq_rows ?q) = map ?new (dq_rows q)"
      unfolding q using w by (simp add: build_mark_processing_def)
    moreover have "dq_event ?q \<longrightarrow> dq_event q" using assms(4) unfolding q by (auto simp: wait_for_entries_def split: if_splits)
    ultimately show ?thesis unfolding queue_load_def using assms(2) by (simp add: q)
  qed
qed

lemma put_load:
  assumes "queue_ok C q" "dq_pending q \<noteq> []"
  shows "queue_load C (put_entry C q) < queue_load C q"
proof -
  obtain e ps where pe: "dq_pending q = e # ps" using assms(2) by (cases "dq_pending q") auto
  let ?h = "heappush (entry_lt C) e (dq_heap q)"
  have q: "put_entry C q = q\<lparr>dq_pending := ps, dq_heap := ?h\<rparr>" by (simp add: put_entry_def pe)
  obtain r where r: "r \<in> set (dq_rows q)" "qr_id r = fst e" "eligible (qc_retry C) (qc_topics C) r"
    using held_row [OF assms(1), of "fst e" "snd e"] pe by auto
  have "fst e \<notin> fst ` set (dq_heap q)" using assms(1) pe by (auto simp: queue_ok_def)
  then have "row_load C ?h ps r < row_load C (dq_heap q) (e # ps) r"
    using r eligible_less [OF r(3)] by (auto simp: row_load_def)
  moreover have "row_load C ?h ps x \<le> row_load C (dq_heap q) (e # ps) x" for x
    by (auto simp: row_load_def)
  ultimately show ?thesis
    unfolding queue_load_def q using sum_list_less [of "dq_rows q" "row_load C ?h ps" "row_load C (dq_heap q) (e # ps)" r] r(1) pe by simp
qed

lemma sum_list_filter_less:
  fixes f g :: "'a \<Rightarrow> nat"
  assumes "\<And>x. x \<in> set xs \<Longrightarrow> P x \<Longrightarrow> f x \<le> g x" "x \<in> set xs" "\<not> P x" "0 < g x"
  shows "sum_list (map f (filter P xs)) < sum_list (map g xs)"
proof -
  have "sum_list (map f (filter P xs)) = sum_list (map (\<lambda>x. if P x then f x else 0) xs)" by (induction xs) simp_all
  also have "\<dots> < sum_list (map g xs)" using assms by (intro sum_list_less [of _ _ _ x]) auto
  finally show ?thesis .
qed

lemma take_load:
  assumes "queue_ok C q" "dq_heap q \<noteq> []" "take_entry C q = (r, q')"
  shows "queue_load C q' < queue_load C q"
  using assms(3,2)
proof (cases rule: take_entry_cases)
  case (bad i d h x)
  note p = popped [OF assms(1) bad(1)]
  obtain r' where r': "r' \<in> set (dq_rows q)" "qr_id r' = i" "eligible (qc_retry C) (qc_topics C) r'"
    using held_row [OF assms(1) p(4)] by metis
  have heap: "set (dq_heap q) = insert (i, d) (set h)" using heappop_sets [OF bad(1)] .
  let ?f = "\<lambda>r. if qr_id r = i then r\<lparr>qr_processing := False, qr_retry := qr_retry r + 1\<rparr> else r"
  let ?new = "\<lambda>x. row_load C h (dq_pending q) (?f x)" and ?old = "row_load C (dq_heap q) (dq_pending q)"
  have "?new x \<le> ?old x" if "x \<in> set (dq_rows q)" for x
    using p(2) heap by (cases "qc_topics C") (auto simp: row_load_def eligible_def)
  moreover have "?new r' < ?old r'"
    using p(2) heap r'(2,3) by (cases "qc_topics C") (auto simp: row_load_def eligible_def)
  ultimately have "sum_list (map ?new (dq_rows q)) < sum_list (map ?old (dq_rows q))"
    using sum_list_less [of "dq_rows q" ?new ?old r'] r'(1) by blast
  then show ?thesis unfolding queue_load_def bad(4) by (simp add: build_mark_processed_def comp_def)
next
  case (good i d h m)
  note p = popped [OF assms(1) good(1)]
  obtain r' where r': "r' \<in> set (dq_rows q)" "qr_id r' = i" "eligible (qc_retry C) (qc_topics C) r'"
    using held_row [OF assms(1) p(4)] by metis
  have heap: "set (dq_heap q) = insert (i, d) (set h)" using heappop_sets [OF good(1)] .
  have "row_load C h (dq_pending q) x \<le> row_load C (dq_heap q) (dq_pending q) x" if "qr_id x \<noteq> i" for x
    using heap that by (auto simp: row_load_def)
  moreover have "0 < row_load C (dq_heap q) (dq_pending q) r'"
    using r'(2,3) eligible_less [OF r'(3)] by (auto simp: row_load_def)
  ultimately show ?thesis
    unfolding queue_load_def good(4) q_build_delete_def
    using sum_list_filter_less [of "dq_rows q" "\<lambda>r. qr_id r \<noteq> i" "row_load C h (dq_pending q)" "row_load C (dq_heap q) (dq_pending q)" r'] r'(1,2) by simp
qed

lemma work_step_load: "queue_ok C q \<Longrightarrow> 0 < qc_records C \<Longrightarrow> work_step C q e q' \<Longrightarrow> queue_load C q' < queue_load C q"
  by (erule work_stepE) (auto intro: batch_load put_load take_load)

lemma work_step_all_held:
  assumes "queue_ok C q" "all_held C q" "work_step C q e q'"
  shows "all_held C q'"
  using assms(3)
proof (cases rule: work_step.cases)
  case (batch q1)
  note w = wait_queue [OF batch(4)]
  let ?es = "q_build_query (qc_retry C) (qc_records C) (qc_topics C) (dq_rows q)"
  have rows: "qr_id r \<in> fst ` set (dq_heap q) \<or> qr_id r \<in> fst ` set ?es"
    if marked: "r \<in> set (build_mark_processing (map fst ?es) (dq_rows q))" and r: "qr_processing r" "eligible (qc_retry C) (qc_topics C) r" for r
  proof -
    obtain x where x: "x \<in> set (dq_rows q)" "r = (if qr_id x \<in> set (map fst ?es) then x\<lparr>qr_processing := True\<rparr> else x)"
      using marked unfolding build_mark_processing_def list.set_map by (elim imageE) blast
    show ?thesis
    proof (cases "qr_id x \<in> set (map fst ?es)")
      case True
      then have "qr_id r = qr_id x" using x(2) by simp
      with True show ?thesis unfolding list.set_map by simp
    next
      case False
      with x r assms(2) batch(3) show ?thesis unfolding all_held_def by auto
    qed
  qed
  from assms(2) w batch(3) rows show ?thesis
    unfolding batch(2) by (auto simp: all_held_def dequeue_batch_def Let_def image_Un simp del: image_iff)
next
  case put
  then show ?thesis using assms(2) unfolding all_held_def by (simp only: put_held put_rows)
next
  case (take r)
  from take(3,2) show ?thesis
  proof (cases rule: take_entry_cases)
    case (bad i d h x)
    with popped(5) [OF assms(1) bad(1)] assms(2) show ?thesis
      by (cases "qc_topics C") (force simp: all_held_def build_mark_processed_def eligible_def split: if_splits)+
  next
    case (good i d h m)
    with popped(5) [OF assms(1) good(1)] assms(2) show ?thesis
      by (force simp: all_held_def q_build_delete_def)
  qed
qed

lemma idle_empty:
  assumes "queue_ok C q" "all_held C q" "0 < qc_records C" "\<not> (\<exists>e q'. work_step C q e q')"
  shows "queue_bag C q = {#}"
proof -
  have heap: "dq_heap q = []" using assms(4) work_step.take [of q C] by (metis prod.collapse)
  moreover have pending: "dq_pending q = []" using assms(3,4) heap work_step.put [of q C] by (auto simp: has_room_def)
  moreover have "fst (wait_for_entries C q) = False"
    using assms(4) work_step.batch [OF pending, of C] by (metis prod.collapse)
  then have "build_count (qc_retry C) (qc_topics C) (dq_rows q) = 0" by (auto simp: wait_for_entries_def split: if_splits)
  ultimately have "\<not> eligible (qc_retry C) (qc_topics C) r" if "r \<in> set (dq_rows q)" for r
    using assms(2) that by (auto simp: all_held_def build_count_def filter_empty_conv)
  then show ?thesis by (auto simp: queue_bag_def map_filter_def row_message_def filter_empty_conv)
qed

lemma work_run:
  "run (work_step C) q es q' \<Longrightarrow> queue_ok C q \<Longrightarrow> all_held C q \<Longrightarrow> 0 < qc_records C \<Longrightarrow>
   queue_ok C q' \<and> all_held C q' \<and> length es + queue_load C q' \<le> queue_load C q \<and> delivered es + queue_bag C q' = queue_bag C q"
proof (induction rule: run.induct)
  case (more q e q1 es q2)
  note st = more.hyps(1)
  have "bag_step (queue_bag C q) e (queue_bag C q1)" by (rule work_step_bag [OF more.prems(1) st])
  moreover have "\<And>m. e \<noteq> Enqueued m" using st by (auto elim!: work_stepE split: option.splits)
  ultimately show ?case
    using more work_step_ok [OF more.prems(1) st] work_step_all_held [OF more.prems(1,2) st] work_step_load [OF more.prems(1,3) st]
    by (cases e) auto
qed simp

text \<open>C21: the database queue delivers everything. Without new insertions the task and the consumer can
  only take a bounded number of steps, in whatever order they take turns, and when none of them can
  take another step, every message the table held for delivery has been delivered. (The marked rows
  at the start are those the instance holds, as after a clean start.)\<close>

theorem queue_drains:
  assumes "queue_ok C q" "all_held C q" "0 < qc_records C" "run (work_step C) q es q'"
  shows "length es \<le> queue_load C q \<and> ((\<exists>e q''. work_step C q' e q'') \<or> delivered es = queue_bag C q)"
proof -
  note r = work_run [OF assms(4,1,2,3)]
  then have "(\<exists>e q''. work_step C q' e q'') \<or> queue_bag C q' = {#}" using idle_empty [of C q'] assms(3) by blast
  with r show ?thesis by auto
qed

section \<open>Stopping and crashing\<close>

text \<open>The whole life of a queue: steps of the parties, an orderly stop and a crash, each followed by a new
  instance over the same table.\<close>

inductive life_step :: "'c queue_config \<Rightarrow> db_queue \<Rightarrow> db_queue \<Rightarrow> bool" for C where
  step: "queue_step C q e q' \<Longrightarrow> life_step C q q'"
| stop: "life_step C q (restart (destroy q))"
| crash: "life_step C q (restart q)"

inductive_cases life_stepE: "life_step C q q'"

lemma flush_ids [simp]: "map qr_id (fold (\<lambda>e. build_mark_processed (fst e)) es rows) = map qr_id rows"
  by (induction es arbitrary: rows) simp_all

lemma restart_ok: "rows_ok q \<Longrightarrow> queue_ok C (restart q)"
  by (simp add: queue_ok_def rows_ok_def restart_def)

lemma destroy_rows_ok: "rows_ok q \<Longrightarrow> rows_ok (destroy q)"
  unfolding rows_ok_def destroy_def flush_queue_def
  by (simp, metis flush_ids list.set_map)

lemma life_step_ok: "life_step C q q' \<Longrightarrow> queue_ok C q \<Longrightarrow> queue_ok C q'"
proof (erule life_stepE)
  assume "queue_ok C q"
  then have rows: "rows_ok q" by (simp add: queue_ok_def)
  show "q' = restart (destroy q) \<Longrightarrow> queue_ok C q'" using restart_ok [OF destroy_rows_ok [OF rows]] by simp
  show "q' = restart q \<Longrightarrow> queue_ok C q'" using restart_ok [OF rows] by simp
qed (rule queue_step_ok)

definition tries_ok :: "'c queue_config \<Rightarrow> queue_row list \<Rightarrow> bool" where
  "tries_ok C rows \<longleftrightarrow> (\<forall>r \<in> set rows. qr_retry r \<le> qc_retry C)"

lemma flush_tries:
  assumes "distinct (map fst es)" "tries_ok C rows" "\<forall>r \<in> set rows. qr_id r \<in> fst ` set es \<longrightarrow> qr_retry r < qc_retry C"
  shows "tries_ok C (fold (\<lambda>e. build_mark_processed (fst e)) es rows)"
  using assms
proof (induction es arbitrary: rows)
  case (Cons e es)
  let ?rows = "build_mark_processed (fst e) rows"
  have "tries_ok C ?rows" using Cons.prems(2,3) by (auto simp: tries_ok_def build_mark_processed_def Suc_le_eq)
  moreover have "\<forall>r \<in> set ?rows. qr_id r \<in> fst ` set es \<longrightarrow> qr_retry r < qc_retry C"
  proof (intro ballI impI)
    fix r
    assume "r \<in> set ?rows" and id: "qr_id r \<in> fst ` set es"
    then obtain x where x: "x \<in> set rows" "r = (if qr_id x = fst e then x\<lparr>qr_processing := False, qr_retry := qr_retry x + 1\<rparr> else x)"
      unfolding build_mark_processed_def by (auto intro: that)
    have "qr_id x \<noteq> fst e" using x(2) id Cons.prems(1) by (auto split: if_splits)
    with x id Cons.prems(3) show "qr_retry r < qc_retry C" by simp
  qed
  ultimately show ?case using Cons by simp
qed simp

lemma held_tries:
  assumes "queue_ok C q" "r \<in> set (dq_rows q)" "qr_id r \<in> fst ` set (held q)"
  shows "qr_retry r < qc_retry C"
proof -
  obtain d where "(qr_id r, d) \<in> set (held q)" using assms(3) by (auto intro: that)
  with assms(1) obtain r' where "r' \<in> set (dq_rows q)" "qr_id r' = qr_id r" "eligible (qc_retry C) (qc_topics C) r'"
    by (rule held_row)
  moreover from this have "r' = r" using row_by_id [of "dq_rows q" r' r] assms(1,2) by (simp add: queue_ok_def rows_ok_def)
  ultimately show ?thesis by (simp add: eligible_def)
qed

lemma life_step_tries:
  assumes "life_step C q q'" "queue_ok C q" "tries_ok C (dq_rows q)"
  shows "tries_ok C (dq_rows q')"
  using assms(1)
proof (cases rule: life_step.cases)
  case (step e)
  then show ?thesis
  proof (cases rule: queue_step.cases)
    case (submit m now)
    with assms(3) show ?thesis by (simp add: tries_ok_def enqueue_def q_build_submit_def)
  next
    case work
    then show ?thesis
    proof (cases rule: work_step.cases)
      case (batch q1)
      with assms(3) wait_queue [OF batch(4)] show ?thesis
        by (auto simp: tries_ok_def dequeue_batch_def Let_def build_mark_processing_def)
    next
      case put
      with assms(3) show ?thesis by simp
    next
      case (take r)
      from take(3,2) show ?thesis
      proof (cases rule: take_entry_cases)
        case (bad i d h x)
        have "i \<in> fst ` set (held q)" using popped(4) [OF assms(2) bad(1)] by (metis fst_conv imageI)
        then have "qr_retry r < qc_retry C" if "r \<in> set (dq_rows q)" "qr_id r = i" for r using held_tries [OF assms(2)] that by blast
        with assms(3) bad(4) show ?thesis by (auto simp: tries_ok_def build_mark_processed_def Suc_le_eq)
      next
        case (good i d h m)
        with assms(3) show ?thesis by (simp add: tries_ok_def q_build_delete_def)
      qed
    qed
  qed
next
  case stop
  have "distinct (map fst (dq_heap q))" using assms(2) by (simp add: queue_ok_def)
  from flush_tries [OF this assms(3)] held_tries [OF assms(2)] stop show ?thesis
    by (auto simp: restart_def destroy_def flush_queue_def)
next
  case crash
  with assms(3) show ?thesis by (simp add: restart_def)
qed

text \<open>C22: the tries of an entry are bounded. Whatever happens to a queue, orderly stops and crashes
  included, no row is ever tried more often than the limit, and an entry that is in memory has a try
  left.\<close>

theorem retry_bounded:
  assumes "queue_ok C q" "tries_ok C (dq_rows q)" "(life_step C)\<^sup>*\<^sup>* q q'"
  shows "(\<forall>r \<in> set (dq_rows q'). qr_retry r \<le> qc_retry C)
    \<and> (\<forall>e \<in> set (held q'). \<exists>r \<in> set (dq_rows q'). qr_id r = fst e \<and> qr_retry r < qc_retry C)"
proof -
  have "queue_ok C q' \<and> tries_ok C (dq_rows q')"
    using assms(3,1,2) by (induction rule: rtranclp_induct) (auto dest: life_step_ok life_step_tries)
  then show ?thesis unfolding tries_ok_def queue_ok_def holds_def by (meson eligible_less)
qed

text \<open>A marked row that no instance holds.\<close>

definition stranded :: "queue_row \<Rightarrow> db_queue \<Rightarrow> bool" where
  "stranded r q \<longleftrightarrow> r \<in> set (dq_rows q) \<and> qr_processing r \<and> qr_id r \<notin> fst ` set (held q)"

lemma flush_other:
  "r \<in> set rows \<Longrightarrow> qr_id r \<notin> fst ` set es \<Longrightarrow> r \<in> set (fold (\<lambda>e. build_mark_processed (fst e)) es rows)"
  by (induction es arbitrary: rows) (auto intro: other_rows)

lemma stranded_step:
  assumes "life_step C q q'" "queue_ok C q" "stranded r q"
  shows "stranded r q'"
  using assms(1)
proof (cases rule: life_step.cases)
  case (step e)
  then show ?thesis
  proof (cases rule: queue_step.cases)
    case (submit m now)
    with assms(3) show ?thesis by (simp add: stranded_def enqueue_def q_build_submit_def)
  next
    case work
    then show ?thesis
    proof (cases rule: work_step.cases)
      case (batch q1)
      let ?es = "q_build_query (qc_retry C) (qc_records C) (qc_topics C) (dq_rows q)"
      have "qr_id r \<notin> fst ` set ?es"
      proof
        assume "qr_id r \<in> fst ` set ?es"
        then obtain r' where "r' \<in> set (dq_rows q)" "qr_id r' = qr_id r" "\<not> qr_processing r'" by (auto elim: query_rows)
        with assms(2,3) row_by_id [of "dq_rows q" r' r] show False by (simp add: queue_ok_def rows_ok_def stranded_def)
      qed
      with assms(3) wait_queue [OF batch(4)] batch(2) show ?thesis
        by (auto simp: stranded_def dequeue_batch_def Let_def build_mark_processing_def image_Un rev_image_eqI)
    next
      case put
      with assms(3) show ?thesis unfolding stranded_def by (metis put_held put_rows(1))
    next
      case (take r')
      from take(3,2) show ?thesis
      proof (cases rule: take_entry_cases)
        case (bad i d h x)
        with popped(5) [OF assms(2) bad(1)] assms(3) show ?thesis by (auto simp: stranded_def intro: other_rows)
      next
        case (good i d h m)
        with popped(5) [OF assms(2) good(1)] assms(3) show ?thesis by (auto simp: stranded_def intro: other_rows)
      qed
    qed
  qed
next
  case stop
  with assms(3) show ?thesis
    by (auto simp: stranded_def restart_def destroy_def flush_queue_def image_Un intro: flush_other)
next
  case crash
  with assms(3) show ?thesis by (simp add: stranded_def restart_def)
qed

text \<open>C34: a crash strands the messages that were in memory. The rows an instance has marked stay marked
  when the process dies, and nothing ever unmarks them: whatever happens afterwards, later instances
  and orderly stops included, such a row stays in the table as it is and is never handed out.\<close>

theorem crash_strands:
  assumes "queue_ok C q" "r \<in> set (dq_rows q)" "qr_processing r" "(life_step C)\<^sup>*\<^sup>* (restart q) q'"
  shows "r \<in> set (dq_rows q') \<and> qr_id r \<notin> fst ` set (held q')"
proof -
  have "queue_ok C (restart q)" using assms(1) by (intro restart_ok) (simp add: queue_ok_def)
  moreover have "stranded r (restart q)" using assms(2,3) by (simp add: stranded_def restart_def)
  ultimately have "queue_ok C q' \<and> stranded r q'"
    using assms(4) by (induction rule: rtranclp_induct [OF assms(4)]) (auto dest: life_step_ok stranded_step)
  then show ?thesis by (simp add: stranded_def)
qed

section \<open>The order of delivery\<close>

text \<open>Putting a batch into the empty queue and then taking all of it, with nothing in between.\<close>

fun pop_all :: "('a \<Rightarrow> 'a \<Rightarrow> bool) \<Rightarrow> nat \<Rightarrow> 'a list \<Rightarrow> 'a list" where
  "pop_all lt 0 h = []"
| "pop_all lt (Suc n) h = (case heappop lt h of None \<Rightarrow> [] | Some (x, h') \<Rightarrow> x # pop_all lt n h')"

definition put_all :: "'c queue_config \<Rightarrow> db_queue \<Rightarrow> db_queue" where
  "put_all C q = (put_entry C ^^ length (dq_pending q)) q"

fun take_all :: "'c queue_config \<Rightarrow> nat \<Rightarrow> db_queue \<Rightarrow> 'c BrokerMessageV1 list" where
  "take_all C 0 q = []"
| "take_all C (Suc n) q = (case dequeue C q of (None, _) \<Rightarrow> [] | (Some m, q') \<Rightarrow> m # take_all C n q')"

lemma put_all_heap: "dq_heap (put_all C q) = fold (heappush (entry_lt C)) (dq_pending q) (dq_heap q)"
proof -
  have "dq_heap ((put_entry C ^^ length es) q) = fold (heappush (entry_lt C)) es (dq_heap q)" if "dq_pending q = es" for es and q :: db_queue
    using that
  proof (induction es arbitrary: q)
    case (Cons e es)
    have one: "(put_entry C ^^ length (e # es)) q = (put_entry C ^^ length es) (put_entry C q)" by (simp add: funpow_swap1)
    have "put_entry C q = q\<lparr>dq_pending := es, dq_heap := heappush (entry_lt C) e (dq_heap q)\<rparr>" using Cons.prems by (simp add: put_entry_def)
    with Cons.IH [of "put_entry C q"] show ?case unfolding one by simp
  qed simp
  then show ?thesis by (simp add: put_all_def)
qed

lemma push_all_heap:
  "weak_order_on A lt \<Longrightarrow> set es \<union> set h \<subseteq> A \<Longrightarrow> heap lt h \<Longrightarrow> heap lt (fold (heappush lt) es h) \<and> mset (fold (heappush lt) es h) = mset es + mset h"
  by (induction es arbitrary: h) (auto simp: heap_push)

lemma pop_all_sorted:
  assumes "weak_order_on A lt" "set h \<subseteq> A" "heap lt h" "n = length h"
  shows "mset (pop_all lt n h) = mset h \<and> sorted_wrt (\<lambda>a b. \<not> lt b a) (pop_all lt n h)"
  using assms(2-4)
proof (induction n arbitrary: h)
  case (Suc n)
  then obtain x h' where p: "heappop lt h = Some (x, h')" by (metis heappop_None list.size(3) nat.distinct(1) option.exhaust prod.collapse)
  note h' = heap_pop [OF assms(1) Suc.prems(1,2) p] heappop_length [OF p] heappop_mset [OF p] heappop_sets [OF p]
  with Suc have IH: "mset (pop_all lt n h') = mset h'" "sorted_wrt (\<lambda>a b. \<not> lt b a) (pop_all lt n h')" by auto
  then have "set (pop_all lt n h') = set h'" by (metis set_mset_mset)
  with h' p IH show ?case by simp
qed simp

lemma dequeue_head:
  assumes "heappop (entry_lt C) (dq_heap q) = Some ((i, d), h)" "qc_decode C d = Inr m"
  shows "dequeue C q = (Some m, q\<lparr>dq_heap := h, dq_rows := q_build_delete i (dq_rows q)\<rparr>)"
  using assms by (subst dequeue.simps) (auto simp: take_entry_def)

lemma take_all_pops:
  assumes "\<forall>e \<in> set (dq_heap q). \<exists>m. qc_decode C (snd e) = Inr m"
  shows "map Inr (take_all C n q) = map (\<lambda>e. qc_decode C (snd e)) (pop_all (entry_lt C) n (dq_heap q))"
  using assms
proof (induction n arbitrary: q)
  case (Suc n)
  show ?case
  proof (cases "heappop (entry_lt C) (dq_heap q)")
    case None
    then have "dequeue C q = (None, q)" by (subst dequeue.simps) simp
    with None show ?thesis by simp
  next
    case (Some a)
    then obtain i d h where p: "heappop (entry_lt C) (dq_heap q) = Some ((i, d), h)" by (metis prod.collapse)
    with Suc.prems obtain m where m: "qc_decode C d = Inr m" using heappop_sets [OF p] by auto
    have "\<forall>e \<in> set h. \<exists>m. qc_decode C (snd e) = Inr m" using Suc.prems heappop_sets [OF p] by auto
    with Suc.IH [of "q\<lparr>dq_heap := h, dq_rows := q_build_delete i (dq_rows q)\<rparr>"] dequeue_head [OF p m] p m show ?thesis by simp
  qed
qed simp

text \<open>A batch is delivered in the order of its contents. When every entry of a batch can be decoded
  and the contents are ordered by their comparison, the messages of the batch come out of the memory
  queue sorted: each message of the batch once, none after a greater one. (Contents without an order,
  which compare as not less, keep no order at all, not even that of their insertion.)\<close>

theorem batch_in_content_order:
  assumes "dq_heap q = []" "\<forall>e \<in> set (dq_pending q). \<exists>m. qc_decode C (snd e) = Inr m"
    "weak_order_on (set (dq_pending q)) (entry_lt C)"
  shows "sorted_wrt (\<lambda>m n. \<not> message_lt (qc_lt C) n m) (take_all C (length (dq_pending q)) (put_all C q))
    \<and> image_mset Inr (mset (take_all C (length (dq_pending q)) (put_all C q))) = mset (map (\<lambda>e. qc_decode C (snd e)) (dq_pending q))"
proof -
  let ?h = "dq_heap (put_all C q)" and ?n = "length (dq_pending q)"
  let ?p = "pop_all (entry_lt C) ?n ?h" and ?t = "take_all C ?n (put_all C q)"
  have h: "heap (entry_lt C) ?h" "mset ?h = mset (dq_pending q)"
    using push_all_heap [OF assms(3), of "dq_pending q" "[]"] assms(1) by (auto simp: put_all_heap heap_def)
  then have s: "set ?h = set (dq_pending q)" "length ?h = ?n" by (metis set_mset_mset, metis size_mset)
  note p = pop_all_sorted [OF assms(3) _ h(1) s(2) [symmetric]]
  have t: "map Inr ?t = map (\<lambda>e. qc_decode C (snd e)) ?p" using take_all_pops [of "put_all C q" C ?n] assms(2) s(1) by auto
  then have len: "length ?t = length ?p" by (metis length_map)
  have nth: "qc_decode C (snd (?p ! i)) = Inr (?t ! i)" if "i < length ?p" for i
    using t that len by (metis nth_map)
  have "sorted_wrt (\<lambda>m n. \<not> message_lt (qc_lt C) n m) ?t"
    unfolding sorted_wrt_iff_nth_less
  proof (intro allI impI)
    fix i j
    assume ij: "i < j" "j < length ?t"
    then have "\<not> entry_lt C (?p ! j) (?p ! i)" using p s len unfolding sorted_wrt_iff_nth_less by auto
    then show "\<not> message_lt (qc_lt C) (?t ! j) (?t ! i)" using nth [of i] nth [of j] ij len by (simp add: entry_lt_def)
  qed
  moreover have "image_mset Inr (mset ?t) = mset (map (\<lambda>e. qc_decode C (snd e)) ?p)" using t by (metis mset_map)
  then have "image_mset Inr (mset ?t) = mset (map (\<lambda>e. qc_decode C (snd e)) (dq_pending q))" using p s h(2) by simp
  ultimately show ?thesis by blast
qed

section \<open>Instances\<close>

definition demo_message :: "nat \<Rightarrow> nat BrokerMessageV1" where
  "demo_message n = \<lparr>ms_topic = ''orders'', ms_identifier = n, ms_reply_topic = None, ms_strategy = UNICAST,
     ms_payload = \<lparr>pl_content = n, pl_status = STATUS_SUCCESS, pl_headers = []\<rparr>\<rparr>"

definition demo_queue_config :: "nat queue_config" where
  "demo_queue_config = \<lparr>qc_retry = 2, qc_records = 10, qc_topics = Some [''orders''],
     qc_encode = (\<lambda>m. [pl_content (ms_payload m), 0]),
     qc_decode = (\<lambda>d. case d of [n, _] \<Rightarrow> Inr (demo_message n) | _ \<Rightarrow> Inl (Agg ValueError)), qc_lt = (\<lambda>a b. Some (a < b))\<rparr>"

definition empty_queue :: db_queue where
  "empty_queue = \<lparr>dq_rows = [], dq_next_id = 1, dq_event = False, dq_pending = [], dq_heap = []\<rparr>"

definition demo_queue :: db_queue where
  "demo_queue = fold (\<lambda>n. enqueue demo_queue_config (int n) (demo_message n)) [7, 3, 5] empty_queue"

lemma demo_queue_ok: "queue_ok demo_queue_config demo_queue" "all_held demo_queue_config demo_queue" "tries_ok demo_queue_config (dq_rows demo_queue)"
proof -
  have empty: "queue_ok demo_queue_config empty_queue" by (simp add: queue_ok_def rows_ok_def empty_queue_def)
  show "queue_ok demo_queue_config demo_queue" unfolding demo_queue_def by (simp add: enqueue_ok empty)
  have "list_all (\<lambda>r. \<not> qr_processing r \<and> qr_retry r = 0) (dq_rows demo_queue)" by code_simp
  then show "all_held demo_queue_config demo_queue" "tries_ok demo_queue_config (dq_rows demo_queue)"
    by (auto simp: all_held_def tries_ok_def list_all_iff)
qed

text \<open>One turn of the task, one entry put and taken.\<close>

definition demo_batch :: db_queue where
  "demo_batch = dequeue_batch demo_queue_config demo_queue"

definition demo_served :: db_queue where
  "demo_served = snd (take_entry demo_queue_config (put_entry demo_queue_config demo_batch))"

lemma demo_task: "work_step demo_queue_config demo_queue Internal demo_batch"
proof -
  have "wait_for_entries demo_queue_config demo_queue = (True, demo_queue)" by code_simp
  moreover have "dq_pending demo_queue = []" by code_simp
  ultimately show ?thesis unfolding demo_batch_def by (intro work_step.batch)
qed

lemma demo_work: "run (work_step demo_queue_config) demo_queue [Internal, Internal, Delivered (demo_message 3)] demo_served"
proof -
  have "dq_pending demo_batch \<noteq> []" "has_room demo_queue_config demo_batch" by code_simp+
  from work_step.put [OF this] have two: "work_step demo_queue_config demo_batch Internal (put_entry demo_queue_config demo_batch)" .
  have "dq_heap (put_entry demo_queue_config demo_batch) \<noteq> []" by code_simp
  moreover have "fst (take_entry demo_queue_config (put_entry demo_queue_config demo_batch)) = Some (demo_message 3)" by code_simp
  then have "take_entry demo_queue_config (put_entry demo_queue_config demo_batch) = (Some (demo_message 3), demo_served)"
    by (metis demo_served_def prod.collapse)
  ultimately have three: "work_step demo_queue_config (put_entry demo_queue_config demo_batch) (Delivered (demo_message 3)) demo_served"
    using work_step.take by fastforce
  from demo_task two three show ?thesis by (blast intro: run.intros)
qed

lemma run_work: "run (work_step C) q es q' \<Longrightarrow> run (queue_step C) q es q'"
  by (induction rule: run.induct) (auto intro: run.intros queue_step.work)

theorem queue_delivers_once_witness:
  "add_mset (demo_message 3) (queue_bag demo_queue_config demo_served) = queue_bag demo_queue_config demo_queue"
  using queue_delivers_once [OF demo_queue_ok(1) run_work [OF demo_work]] by simp

theorem queue_drains_witness: "3 \<le> queue_load demo_queue_config demo_queue"
proof -
  have "0 < qc_records demo_queue_config" by code_simp
  from queue_drains [OF demo_queue_ok(1,2) this demo_work] show ?thesis by simp
qed

theorem retry_bounded_witness: "list_all (\<lambda>r. qr_retry r \<le> 2) (dq_rows (restart (destroy demo_batch)))"
proof -
  have "life_step demo_queue_config demo_queue demo_batch" by (rule life_step.step [OF queue_step.work [OF demo_task]])
  moreover have "life_step demo_queue_config demo_batch (restart (destroy demo_batch))" by (rule life_step.stop)
  ultimately have "(life_step demo_queue_config)\<^sup>*\<^sup>* demo_queue (restart (destroy demo_batch))" by auto
  from retry_bounded [OF demo_queue_ok(1,3) this] show ?thesis by (simp add: demo_queue_config_def list_all_iff)
qed

theorem crash_strands_witness:
  "\<exists>r. qr_processing r \<and> r \<in> set (dq_rows (enqueue demo_queue_config 9 (demo_message 9) (restart demo_batch)))"
proof -
  have "list_all qr_processing (dq_rows demo_batch) \<and> dq_rows demo_batch \<noteq> []" by code_simp
  then obtain r where r: "r \<in> set (dq_rows demo_batch)" "qr_processing r" by (cases "dq_rows demo_batch") auto
  have "(life_step demo_queue_config)\<^sup>*\<^sup>* (restart demo_batch) (enqueue demo_queue_config 9 (demo_message 9) (restart demo_batch))"
    by (rule r_into_rtranclp, rule life_step.step, rule queue_step.submit)
  from crash_strands [OF work_step_ok [OF demo_queue_ok(1) demo_task] r this] r show ?thesis by blast
qed

theorem batch_in_content_order_witness:
  "take_all demo_queue_config 3 (put_all demo_queue_config demo_batch) = map demo_message [3, 5, 7]
    \<and> sorted_wrt (\<lambda>m n. \<not> message_lt (qc_lt demo_queue_config) n m) (take_all demo_queue_config 3 (put_all demo_queue_config demo_batch))"
proof -
  have es: "dq_pending demo_batch = [(1, [7, 0]), (2, [3, 0]), (3, [5, 0])] \<or> dq_pending demo_batch = [(2, [3, 0]), (3, [5, 0]), (1, [7, 0])]"
    "dq_heap demo_batch = []" by code_simp+
  have lt: "entry_lt demo_queue_config (i, [a, 0]) (j, [b, 0]) \<longleftrightarrow> a < b" for i j a b
    by (simp add: entry_lt_def demo_queue_config_def demo_message_def message_lt_def payload_lt_def)
  have "weak_order_on (set (dq_pending demo_batch)) (entry_lt demo_queue_config)"
    using es(1) lt unfolding weak_order_on_def by auto
  moreover have "\<forall>e \<in> set (dq_pending demo_batch). \<exists>m. qc_decode demo_queue_config (snd e) = Inr m"
    using es(1) by (auto simp: demo_queue_config_def)
  moreover have "length (dq_pending demo_batch) = 3" using es(1) by auto
  moreover have "take_all demo_queue_config 3 (put_all demo_queue_config demo_batch) = map demo_message [3, 5, 7]" by code_simp
  ultimately show ?thesis using batch_in_content_order [OF es(2), of demo_queue_config] by simp
qed

text \<open>Contents that do not compare: four messages inserted in the order 1, 2, 3, 4.\<close>

lemma unordered_contents:
  "map ms_identifier (take_all (demo_queue_config\<lparr>qc_lt := \<lambda>a b. None\<rparr>) 4
     (put_all (demo_queue_config\<lparr>qc_lt := \<lambda>a b. None\<rparr>) (dequeue_batch demo_queue_config
       (fold (\<lambda>n. enqueue demo_queue_config (int n) (demo_message n)) [1, 2, 3, 4] empty_queue)))) = [1, 3, 2, 4]"
  by code_simp

end
