(* ===== verification/Broker_Subscribers.thy ===== *)
theory Broker_Subscribers
  imports Broker_Messages
begin

text \<open>
  Subscribers that filter duplicated messages (\<open>networks/brokers/subscribers/filtered\<close>, with the
  statement of the aiopg plugin, \<open>factories/networks/subscribers/validators.py\<close>), and the properties of
  the dispatcher.
\<close>

section \<open>Duplicate validators\<close>

type_synonym message_key = "string \<times> uuid"

definition key_of :: "'c BrokerMessageV1 \<Rightarrow> message_key" where
  "key_of m = (ms_topic m, ms_identifier m)"

text \<open>\<open>InMemoryBrokerSubscriberDuplicateValidator\<close>: the set of seen pairs.\<close>

definition mem_is_unique :: "message_key \<Rightarrow> message_key list \<Rightarrow> bool \<times> message_key list" where
  "mem_is_unique k seen = (if k \<notin> set seen then (True, seen @ [k]) else (False, seen))"

text \<open>\<open>DatabaseBrokerSubscriberDuplicateValidator\<close>: a row is inserted, and the primary key (topic and
  identifier) refuses the second one with an \<open>IntegrityException\<close>.\<close>

record processed_row =
  pr_topic :: string
  pr_uuid :: uuid
  pr_created_at :: datetime

definition build_submit_processed :: "datetime \<Rightarrow> message_key \<Rightarrow> processed_row list \<Rightarrow> saga_error + processed_row list" where
  "build_submit_processed now k rows =
     (if \<exists>r \<in> set rows. pr_topic r = fst k \<and> pr_uuid r = snd k then Inl (Raised ''IntegrityException'')
      else Inr (rows @ [\<lparr>pr_topic = fst k, pr_uuid = snd k, pr_created_at = now\<rparr>]))"

definition db_is_unique :: "message_key \<Rightarrow> datetime \<times> processed_row list \<Rightarrow> bool \<times> datetime \<times> processed_row list" where
  "db_is_unique k = (\<lambda>(now, rows). case build_submit_processed now k rows of
     Inl _ \<Rightarrow> (False, (now, rows)) | Inr rows' \<Rightarrow> (True, (now + 1, rows')))"

definition is_valid :: "(message_key \<Rightarrow> 'v \<Rightarrow> bool \<times> 'v) \<Rightarrow> 'c BrokerMessageV1 \<Rightarrow> 'v \<Rightarrow> bool \<times> 'v" where
  "is_valid is_unique m v = is_unique (key_of m) v"

section \<open>FilteredBrokerSubscriber\<close>

text \<open>\<open>_receive\<close>, given the messages the inner subscriber receives: the first valid one, with the messages
  that are left, or nothing when the call is still waiting.\<close>

fun filtered_receive :: "(message_key \<Rightarrow> 'v \<Rightarrow> bool \<times> 'v) \<Rightarrow> 'c BrokerMessageV1 list \<Rightarrow> 'v
    \<Rightarrow> ('c BrokerMessageV1 \<times> 'c BrokerMessageV1 list) option \<times> 'v" where
  "filtered_receive is_unique [] v = (None, v)"
| "filtered_receive is_unique (m # ms) v =
     (case is_valid is_unique m v of (ok, v') \<Rightarrow>
       if ok then (Some (m, ms), v') else filtered_receive is_unique ms v')"

lemma filtered_receive_length: "filtered_receive is_unique ms v = (Some (m, ms'), v') \<Longrightarrow> length ms' < length ms"
  by (induction is_unique ms v rule: filtered_receive.induct) (fastforce split: prod.splits if_splits)+

text \<open>\<open>async for message in subscriber\<close>: everything a subscriber receives.\<close>

function receive_all :: "(message_key \<Rightarrow> 'v \<Rightarrow> bool \<times> 'v) \<Rightarrow> 'c BrokerMessageV1 list \<Rightarrow> 'v \<Rightarrow> 'c BrokerMessageV1 list" where
  "receive_all is_unique ms v = (case filtered_receive is_unique ms v of
     (None, _) \<Rightarrow> [] | (Some (m, ms'), v') \<Rightarrow> m # receive_all is_unique ms' v')"
  by pat_completeness auto
termination
  by (relation "measure (\<lambda>(_, ms, _). length ms)") (auto dest: filtered_receive_length [OF sym])

declare receive_all.simps [simp del]

lemma filter_upt_Suc:
  "filter P [0..<Suc n] = (if P 0 then [0] else []) @ map Suc (filter (\<lambda>i. P (Suc i)) [0..<n])"
  unfolding upt_conv_Cons [OF zero_less_Suc] map_Suc_upt [symmetric] by (simp add: filter_map comp_def)

text \<open>The contract of a validator: a key is unique once.\<close>

locale duplicate_validator =
  fixes is_unique :: "message_key \<Rightarrow> 'v \<Rightarrow> bool \<times> 'v" and seen :: "'v \<Rightarrow> message_key set"
  assumes unique_iff: "fst (is_unique k v) \<longleftrightarrow> k \<notin> seen v"
    and seen_after: "seen (snd (is_unique k v)) = insert k (seen v)"
begin

lemma receive_all_Cons:
  "receive_all is_unique (m # ms) v =
     (if key_of m \<in> seen v then receive_all is_unique ms (snd (is_unique (key_of m) v))
      else m # receive_all is_unique ms (snd (is_unique (key_of m) v)))"
  using unique_iff [of "key_of m" v]
  by (subst (1 2) receive_all.simps) (auto simp: is_valid_def split: prod.splits)

text \<open>What is received: the messages whose key was not seen before the start and not earlier in the list.\<close>

lemma receive_all_spec:
  "receive_all is_unique ms v =
     map (\<lambda>i. ms ! i) (filter (\<lambda>i. key_of (ms ! i) \<notin> seen v \<union> key_of ` set (take i ms)) [0..<length ms])"
proof (induction ms arbitrary: v)
  case Nil
  then show ?case by (subst receive_all.simps) simp
next
  case (Cons m ms)
  define P where "P i \<longleftrightarrow> key_of ((m # ms) ! i) \<notin> seen v \<union> key_of ` set (take i (m # ms))" for i
  define F where "F = filter (\<lambda>i. P (Suc i)) [0..<length ms]"
  have "filter P [0..<length (m # ms)] = (if key_of m \<in> seen v then [] else [0]) @ map Suc F"
    unfolding F_def length_Cons filter_upt_Suc by (simp add: P_def)
  moreover have "receive_all is_unique ms (snd (is_unique (key_of m) v)) = map (\<lambda>i. ms ! i) F"
    using Cons.IH [of "snd (is_unique (key_of m) v)"] unfolding seen_after F_def P_def by simp
  ultimately have "receive_all is_unique (m # ms) v = map (\<lambda>i. (m # ms) ! i) (filter P [0..<length (m # ms)])"
    by (simp add: receive_all_Cons del: upt_Suc)
  then show ?case unfolding P_def .
qed

end

interpretation mem_duplicates: duplicate_validator mem_is_unique set
  by unfold_locales (auto simp: mem_is_unique_def)

interpretation db_duplicates: duplicate_validator db_is_unique "\<lambda>(now, rows). (\<lambda>r. (pr_topic r, pr_uuid r)) ` set rows"
  by unfold_locales (auto simp: db_is_unique_def build_submit_processed_def split: sum.splits if_splits)

text \<open>C23: a filtered subscriber delivers every message once. With the validator in memory and with the one
  in the database alike, the messages that are received from a stream are those whose topic and
  identifier were not seen before and do not occur earlier in the stream, in the order of the stream.\<close>

theorem duplicates_filtered:
  fixes ms :: "'c BrokerMessageV1 list"
  defines "once \<equiv> \<lambda>seen. map (\<lambda>i. ms ! i) (filter (\<lambda>i. key_of (ms ! i) \<notin> seen \<union> key_of ` set (take i ms)) [0..<length ms])"
  shows "receive_all mem_is_unique ms seen = once (set seen)
    \<and> receive_all db_is_unique ms (now, rows) = once ((\<lambda>r. (pr_topic r, pr_uuid r)) ` set rows)"
  using mem_duplicates.receive_all_spec [of ms seen] db_duplicates.receive_all_spec [of ms "(now, rows)"]
  unfolding once_def by simp

section \<open>The dispatcher\<close>

text \<open>What a message leads to: the reply that is sent for it, if it is dispatched and wants one. A message
  is dispatched when its topic has an action and its user header, if there is one, is an identifier.\<close>

definition dispatched :: "('s, 'c) dispatcher \<Rightarrow> 'c BrokerMessageV1 \<Rightarrow> bool" where
  "dispatched D m \<longleftrightarrow> dict_get (di_actions D) (ms_topic m) \<noteq> None \<and> (\<exists>u. request_user m = Inr u)"

definition answers :: "'c BrokerMessageV1 \<Rightarrow> 'c BrokerMessageV1 \<Rightarrow> bool" where
  "answers m n \<longleftrightarrow> ms_reply_topic m = Some (ms_topic n) \<and> ms_identifier n = ms_identifier m \<and> ms_reply_topic n = None"

text \<open>A service whose publisher appends to an outbox that the handlers leave alone.\<close>

definition outbox_ok :: "('s, 'c) dispatcher \<Rightarrow> ('s \<Rightarrow> 'c BrokerMessageV1 list) \<Rightarrow> bool" where
  "outbox_ok D out \<longleftrightarrow>
     (\<forall>m s. \<exists>s'. di_send D m s = (Inr (), s') \<and> out (ds_service s') = out (ds_service s) @ [m]
        \<and> ds_user s' = ds_user s \<and> ds_headers s' = ds_headers s)
   \<and> (\<forall>fn m s. Some fn \<in> snd ` set (di_actions D) \<longrightarrow> out (ds_service (snd (fn m s))) = out (ds_service s))"

lemma call_action_out:
  assumes "outbox_ok D out" "dict_get (di_actions D) t = Some fn" "call_action fn m s = (r, s')"
  shows "out (ds_service s') = out (ds_service s)"
proof (cases fn)
  case (Some f)
  with assms(2) have "Some f \<in> snd ` set (di_actions D)" by (metis map_of_SomeD snd_conv imageI)
  with assms(1) have "out (ds_service (snd (f m s))) = out (ds_service s)" unfolding outbox_ok_def by blast
  with assms(3) Some show ?thesis by (simp add: call_action_def)
qed (use assms(3) in \<open>simp add: call_action_def\<close>)

lemma callback_out:
  assumes "outbox_ok D out" "dict_get (di_actions D) (ms_topic m) = Some fn" "request_user m = Inr u"
  obtains p s1 where "callback D fn m s = (Inr p, s1)" "out (ds_service s1) = out (ds_service s)"
    "ds_user s1 = ds_user s" "ds_headers s1 = ds_headers s"
proof -
  obtain r s' where c: "call_action fn m (s\<lparr>ds_user := u, ds_headers := Some (pl_headers (ms_payload m))\<rparr>) = (r, s')" by fastforce
  obtain content status where cs: "content_status D r = (content, status)" by fastforce
  show thesis
    by (rule that [of "BrokerMessageV1Payload_init content (ds_headers s') (Some status)" "s'\<lparr>ds_user := ds_user s, ds_headers := ds_headers s\<rparr>"])
      (use c cs call_action_out [OF assms(1,2) c] assms(3) in \<open>simp_all add: callback_def bindE_apply\<close>)
qed

lemma consume_one_out:
  assumes "outbox_ok D out"
  shows "\<exists>s' ns. consume_one D fresh m s = (Inr (), s') \<and> out (ds_service s') = out (ds_service s) @ ns
    \<and> ds_user s' = ds_user s \<and> ds_headers s' = ds_headers s
    \<and> list_all2 answers (filter (\<lambda>m. dispatched D m \<and> should_reply m) [m]) ns"
proof (cases "dispatched D m")
  case False
  then have "\<exists>x. dispatch D fresh m s = (Inl x, s)"
    by (cases "dict_get (di_actions D) (ms_topic m)"; cases "request_user m")
      (auto simp: dispatched_def dispatch_def get_action_def callback_def bindE_apply)
  with False show ?thesis by (auto simp: consume_one_def catchE_def)
next
  case True
  then obtain fn u where fn: "dict_get (di_actions D) (ms_topic m) = Some fn" "request_user m = Inr u"
    by (auto simp: dispatched_def)
  obtain p s1 where cb: "callback D fn m s = (Inr p, s1)" "out (ds_service s1) = out (ds_service s)"
    "ds_user s1 = ds_user s" "ds_headers s1 = ds_headers s" by (rule callback_out [OF assms fn])
  have d: "dispatch D fresh m s = (case ms_reply_topic m of None \<Rightarrow> (Inr (), s1)
      | Some t \<Rightarrow> di_send D (BrokerMessageV1_init fresh t p (Some (ms_identifier m)) None None) s1)"
    using fn(1) cb(1) by (simp add: dispatch_def get_action_def bindE_apply split: option.splits)
  show ?thesis
  proof (cases "ms_reply_topic m")
    case None
    with d cb True show ?thesis by (auto simp: consume_one_def catchE_def should_reply_def)
  next
    case (Some t)
    let ?n = "BrokerMessageV1_init fresh t p (Some (ms_identifier m)) None None"
    obtain s2 where "di_send D ?n s1 = (Inr (), s2)" "out (ds_service s2) = out (ds_service s1) @ [?n]"
      "ds_user s2 = ds_user s1" "ds_headers s2 = ds_headers s1"
      using assms unfolding outbox_ok_def by meson
    with d cb Some True show ?thesis
      by (auto simp: consume_one_def catchE_def should_reply_def answers_def BrokerMessageV1_init_def)
  qed
qed

text \<open>C24: every request is answered once. When a service consumes a list of messages, for each message
  that is dispatched and wants a reply exactly one reply is sent, to its reply topic and with its
  identifier, in the order of the messages, whatever the handlers return or raise; an exception stops
  nothing, and the context variables of the task are as before. A message whose topic has no action or
  whose user header is malformed is dropped without a reply.\<close>

theorem requests_answered:
  assumes "outbox_ok D out"
  shows "\<exists>s' ns. forE ms (consume_one D fresh) s = (Inr (), s') \<and> out (ds_service s') = out (ds_service s) @ ns
    \<and> list_all2 answers (filter (\<lambda>m. dispatched D m \<and> should_reply m) ms) ns
    \<and> ds_user s' = ds_user s \<and> ds_headers s' = ds_headers s"
proof (induction ms arbitrary: s)
  case (Cons m ms)
  obtain s1 ns where one: "consume_one D fresh m s = (Inr (), s1)" "out (ds_service s1) = out (ds_service s) @ ns"
    "ds_user s1 = ds_user s" "ds_headers s1 = ds_headers s" "list_all2 answers (filter (\<lambda>m. dispatched D m \<and> should_reply m) [m]) ns"
    using consume_one_out [OF assms] by blast
  obtain s2 ns' where rest: "forE ms (consume_one D fresh) s1 = (Inr (), s2)" "out (ds_service s2) = out (ds_service s1) @ ns'"
    "list_all2 answers (filter (\<lambda>m. dispatched D m \<and> should_reply m) ms) ns'" "ds_user s2 = ds_user s1" "ds_headers s2 = ds_headers s1"
    using Cons.IH [of s1] by blast
  have "list_all2 answers (filter (\<lambda>m. dispatched D m \<and> should_reply m) [m] @ filter (\<lambda>m. dispatched D m \<and> should_reply m) ms) (ns @ ns')"
    using one(5) rest(3) by (rule list_all2_appendI)
  moreover have "filter (\<lambda>m. dispatched D m \<and> should_reply m) [m] @ filter (\<lambda>m. dispatched D m \<and> should_reply m) ms
      = filter (\<lambda>m. dispatched D m \<and> should_reply m) (m # ms)" by simp
  ultimately have "list_all2 answers (filter (\<lambda>m. dispatched D m \<and> should_reply m) (m # ms)) (ns @ ns')" by metis
  with one rest show ?case by (intro exI [of _ s2] exI [of _ "ns @ ns'"]) simp
qed simp

definition demo_dispatcher :: "(string BrokerMessageV1 list, string) dispatcher" where
  "demo_dispatcher = \<lparr>di_actions = [(''Create'', Some (\<lambda>m s. (Returned (Some (''done'', 200)), s))), (''Fail'', Some (\<lambda>m s. (RaisedOther ''KeyError()'', s)))],
     di_send = (\<lambda>m s. (Inr (), s\<lparr>ds_service := ds_service s @ [m]\<rparr>)), di_none = [], di_text = id\<rparr>"

definition demo_request :: "string \<Rightarrow> uuid \<Rightarrow> (string, string) dict \<Rightarrow> string BrokerMessageV1" where
  "demo_request t u h = \<lparr>ms_topic = t, ms_identifier = u, ms_reply_topic = Some ''reply'', ms_strategy = UNICAST,
     ms_payload = \<lparr>pl_content = [], pl_status = STATUS_SUCCESS, pl_headers = h\<rparr>\<rparr>"

definition demo_requests :: "string BrokerMessageV1 list" where
  "demo_requests = [demo_request ''Fail'' 1 [], demo_request ''Create'' 2 [(''user'', ''?'')], demo_request ''Create'' 3 []]"

theorem requests_answered_witness:
  "\<exists>s'. forE demo_requests (consume_one demo_dispatcher 9) \<lparr>ds_user = None, ds_headers = None, ds_service = []\<rparr> = (Inr (), s')
    \<and> map ms_identifier (ds_service s') = [1, 3]"
proof -
  have ok: "outbox_ok demo_dispatcher id" by (auto simp: outbox_ok_def demo_dispatcher_def)
  obtain s' ns where r: "forE demo_requests (consume_one demo_dispatcher 9) \<lparr>ds_user = None, ds_headers = None, ds_service = []\<rparr> = (Inr (), s')"
    "ds_service s' = ns" "list_all2 answers (filter (\<lambda>m. dispatched demo_dispatcher m \<and> should_reply m) demo_requests) ns"
    using requests_answered [OF ok, of demo_requests 9 "\<lparr>ds_user = None, ds_headers = None, ds_service = []\<rparr>"] by auto
  have "uuid_of ''?'' = Inl (Agg ValueError)" by code_simp
  then have "filter (\<lambda>m. dispatched demo_dispatcher m \<and> should_reply m) demo_requests = [demo_request ''Fail'' 1 [], demo_request ''Create'' 3 []]"
    by (simp add: demo_requests_def dispatched_def should_reply_def demo_dispatcher_def demo_request_def request_user_def)
  with r(3) have "map ms_identifier ns = [1, 3]"
    by (auto simp: answers_def demo_request_def list_all2_Cons1)
  with r(2) have "map ms_identifier (ds_service s') = [1, 3]" by simp
  with r(1) show ?thesis by (intro exI [of _ s'] conjI)
qed

end
