(* ===== verification/Model_Types.thy ===== *)
theory Model_Types
  imports Saga_Base
begin

text \<open>
  The run-time types of the common package (\<open>common/model/types\<close>): type hints as data, their
  comparison (\<open>comparators.py\<close>, \<open>model_types.py\<close>), and the hint of a value (\<open>builders.py\<close>).

  A type hint is one of the classes the serializers know, a \<open>ModelType\<close>, a collection of a hint, or a
  union. \<open>Other_class\<close> is any class besides (\<open>object\<close>, a bare \<open>list\<close>, the class of a class), taken to be
  unrelated to the rest. Floating point numbers, decimals, enumerations, type variables and model
  classes of an application are left out: a \<open>ModelType\<close> is one without a class of its own, whose values
  are \<open>DataTransferObject\<close>s.
\<close>

section \<open>Type hints and values\<close>

datatype ty =
    Any_type | None_type | Bool_type | Int_type | Str_type | Bytes_type
  | Datetime_type | Timedelta_type | Date_type | Time_type | Uuid_type
  | Other_class string
  | ModelType string string "(string \<times> ty) list"
  | List_of ty | Set_of ty | Dict_of ty ty
  | Union_of "ty list"

text \<open>Python values. Times are numbers of microseconds (of days for a \<open>date\<close>) since 1970, or since midnight
  for a \<open>time\<close>, in UTC. \<open>Missing\<close> is the class \<open>MissingSentinel\<close>. A set is a list without
  repetitions, in the order of insertion; dictionaries have their keys in order. A \<open>DataTransferObject\<close>
  has a name, a namespace and its fields with their hints.\<close>

datatype pyval =
    PNone | Missing | PBool bool | PInt int | PStr string | PBytes bytes
  | PDatetime int | PTimedelta int | PDate int | PTime int | PUuid uuid
  | PList "pyval list" | PSet "pyval list" | PDict "(pyval \<times> pyval) list"
  | DTO string string "(string \<times> ty \<times> pyval) list"

text \<open>Exceptions of the decoder, of \<open>Field\<close>, and those of Python that pass through them.\<close>

datatype model_error =
    DataDecoderMalformedTypeException | DataDecoderRequiredValueException | DataDecoderTypeException
  | MinosMalformedAttributeException | MinosReqAttributeException | MinosTypeAttributeException
  | MinosParseAttributeException | MinosAttributeValidationException
  | Overflow_error | Type_error | Value_error | Key_error | Recursion_error

section \<open>Unions\<close>

text \<open>\<open>Union[...]\<close> flattens nested unions and drops repetitions; a union of one is the one.\<close>

fun alternatives :: "ty \<Rightarrow> ty list" where
  "alternatives (Union_of ts) = ts"
| "alternatives t = [t]"

definition build_union :: "ty list \<Rightarrow> ty" where
  "build_union ts = (case uniq (concat (map alternatives ts)) of [t] \<Rightarrow> t | us \<Rightarrow> Union_of us)"

section \<open>Comparison\<close>

text \<open>\<open>get_args\<close>; a \<open>ModelType\<close> is a class and has none.\<close>

fun get_args :: "ty \<Rightarrow> ty list" where
  "get_args (List_of t) = [t]"
| "get_args (Set_of t) = [t]"
| "get_args (Dict_of k t) = [k, t]"
| "get_args (Union_of ts) = ts"
| "get_args t = []"

text \<open>The subclasses among the classes named here.\<close>

fun proper_subclass :: "ty \<Rightarrow> ty \<Rightarrow> bool" where
  "proper_subclass Bool_type Int_type = True"
| "proper_subclass Datetime_type Date_type = True"
| "proper_subclass _ _ = False"

text \<open>\<open>TypeHintComparator._compare\<close>, with \<open>ModelType.__le__\<close>: the first may have fewer fields. Equality of
  hints is tested first; what Python's equality identifies beyond that of the terms (the order of a
  union, of the fields of a model) is found by the other clauses.\<close>

lemma size_list_member: "x \<in> set xs \<Longrightarrow> size x < Suc (size_list size xs)"
  by (simp add: size_list_estimation' less_Suc_eq_le)

lemma size_field: "h \<in> set hs \<Longrightarrow> size (snd h) < Suc (size_list (size_prod f size) hs)"
proof (induction hs)
  case (Cons h hs)
  then show ?case by (cases h) auto
qed simp

lemma size_dict_get: "dict_get hs n = Some t \<Longrightarrow> size t < Suc (size_list (size_prod f size) hs)"
  using size_field [of "(n, t)" hs f] by (auto dest: map_of_SomeD)

lemma size_two: "x < Suc a \<Longrightarrow> y < Suc b \<Longrightarrow> x + y < Suc (Suc (a + b))"
  for x y a b :: nat
  by simp

function compare_types :: "ty \<Rightarrow> ty \<Rightarrow> bool" where
  "compare_types a b =
     (b = Any_type
      \<or> (case a of Union_of fs \<Rightarrow> (\<forall>f \<in> set fs. compare_types f b) | _ \<Rightarrow> False)
      \<or> (case b of Union_of ss \<Rightarrow> (\<exists>s \<in> set ss. compare_types a s) | _ \<Rightarrow> False)
      \<or> a = b
      \<or> proper_subclass a b
      \<or> (case (a, b) of
           (ModelType n ns hs, ModelType n' ns' hs') \<Rightarrow> n = n' \<and> ns = ns'
             \<and> (\<forall>h \<in> set hs. (case dict_get hs' (fst h) of None \<Rightarrow> False | Some t \<Rightarrow> compare_types (snd h) t))
         | (List_of s, List_of t) \<Rightarrow> compare_types s t
         | (Set_of s, Set_of t) \<Rightarrow> compare_types s t
         | (Dict_of k s, Dict_of l t) \<Rightarrow> compare_types k l \<and> compare_types s t
         | (Union_of fs, Union_of ss) \<Rightarrow> length fs = length ss \<and> (\<forall>(f, s) \<in> set (zip fs ss). compare_types f s)
         | _ \<Rightarrow> False))"

  by auto
termination
  by (relation "measure (\<lambda>(a, b). size a + size b)")
    (auto dest: size_list_member set_zip_leftD set_zip_rightD size_field [THEN size_two, OF _ size_dict_get]
      intro!: size_two intro: set_zip_leftD [THEN size_list_member] set_zip_rightD [THEN size_list_member])

declare compare_types.simps [simp del]

text \<open>The order of model types: \<open>__eq__\<close> between types without a class of their own, \<open>__le__\<close>, \<open>__lt__\<close>,
  \<open>__ge__\<close> and \<open>__gt__\<close>.\<close>

type_synonym hints = "(string \<times> ty) list"

definition hints_match :: "hints \<Rightarrow> hints \<Rightarrow> bool" where
  "hints_match hs hs' \<longleftrightarrow>
     (\<forall>h \<in> set hs. (case dict_get hs' (fst h) of None \<Rightarrow> False | Some t \<Rightarrow> compare_types (snd h) t))"

fun model_eq :: "ty \<Rightarrow> ty \<Rightarrow> bool" where
  "model_eq (ModelType n ns hs) (ModelType n' ns' hs') =
     (n = n' \<and> ns = ns' \<and> set (dict_keys hs) = set (dict_keys hs') \<and> hints_match hs hs')"
| "model_eq _ _ = False"

fun model_le :: "ty \<Rightarrow> ty \<Rightarrow> bool" where
  "model_le (ModelType n ns hs) (ModelType n' ns' hs') =
     (model_eq (ModelType n ns hs) (ModelType n' ns' hs')
      \<or> n = n' \<and> ns = ns' \<and> set (dict_keys hs) \<subseteq> set (dict_keys hs') \<and> hints_match hs hs')"
| "model_le _ _ = False"

fun model_lt :: "ty \<Rightarrow> ty \<Rightarrow> bool" where
  "model_lt (ModelType n ns hs) (ModelType n' ns' hs') =
     (n = n' \<and> ns = ns' \<and> set (dict_keys hs) \<subset> set (dict_keys hs') \<and> hints_match hs hs')"
| "model_lt _ _ = False"

fun model_ge :: "ty \<Rightarrow> ty \<Rightarrow> bool" where
  "model_ge (ModelType n ns hs) (ModelType n' ns' hs') =
     (model_eq (ModelType n ns hs) (ModelType n' ns' hs')
      \<or> n = n' \<and> ns = ns' \<and> set (dict_keys hs') \<subseteq> set (dict_keys hs) \<and> hints_match hs' hs)"
| "model_ge _ _ = False"

fun model_gt :: "ty \<Rightarrow> ty \<Rightarrow> bool" where
  "model_gt (ModelType n ns hs) (ModelType n' ns' hs') =
     (n = n' \<and> ns = ns' \<and> set (dict_keys hs') \<subset> set (dict_keys hs) \<and> hints_match hs' hs)"
| "model_gt _ _ = False"

section \<open>The hint of a value\<close>

text \<open>\<open>TypeHintBuilder\<close>. A static hint without arguments gives way to the dynamic one that matches it.\<close>

definition build_from_dynamic :: "ty \<Rightarrow> ty \<Rightarrow> ty" where
  "build_from_dynamic dynamic static =
     (if get_args static = [] \<and> compare_types dynamic static then dynamic else static)"

text \<open>The only argument of the static hint, as for \<open>list\<close> and \<open>set\<close>, or the two of a dictionary.\<close>

definition only_arg :: "ty option \<Rightarrow> ty" where
  "only_arg st = (case st of None \<Rightarrow> Any_type | Some t \<Rightarrow> (case get_args t of [x] \<Rightarrow> x | _ \<Rightarrow> Any_type))"

definition two_args :: "ty option \<Rightarrow> ty \<times> ty" where
  "two_args st = (case st of None \<Rightarrow> (Str_type, Any_type)
     | Some t \<Rightarrow> (case get_args t of [x, y] \<Rightarrow> (x, y) | _ \<Rightarrow> (Str_type, Any_type)))"

fun value_class :: "pyval \<Rightarrow> ty" where
  "value_class PNone = None_type"
| "value_class (PBool _) = Bool_type"
| "value_class (PInt _) = Int_type"
| "value_class (PStr _) = Str_type"
| "value_class (PBytes _) = Bytes_type"
| "value_class (PDatetime _) = Datetime_type"
| "value_class (PTimedelta _) = Timedelta_type"
| "value_class (PDate _) = Date_type"
| "value_class (PTime _) = Time_type"
| "value_class (PUuid _) = Uuid_type"
| "value_class Missing = Other_class ''type''"
| "value_class _ = Other_class ''''"

definition union_or :: "ty \<Rightarrow> ty list \<Rightarrow> ty" where
  "union_or t ts = (if ts = [] then t else build_union ts)"

text \<open>\<open>_build\<close>. The static hint is a union, or else the value decides.\<close>

definition is_union :: "ty option \<Rightarrow> bool" where
  "is_union st = (case st of Some (Union_of _) \<Rightarrow> True | _ \<Rightarrow> False)"

lemma size_fst_member: "x \<in> set xs \<Longrightarrow> size (fst x) < Suc (size_list (size_prod size g) xs)"
proof (induction xs)
  case (Cons h hs)
  then show ?case by (cases h) auto
qed simp

lemma size_value: "f \<in> set fs \<Longrightarrow> size (snd (snd f)) < Suc (size_list (size_prod g (size_prod h size)) fs)"
proof (induction fs)
  case (Cons h hs)
  then show ?case by (cases h) auto
qed simp

function type_of :: "pyval \<Rightarrow> ty option \<Rightarrow> ty" where
  "type_of v st =
     (if is_union st then build_union (map (build_from_dynamic (type_of v None)) (get_args (the st)))
      else case v of
        PList vs \<Rightarrow> List_of (union_or (only_arg st) (map (\<lambda>x. type_of x (Some (only_arg st))) vs))
      | PSet vs \<Rightarrow> Set_of (union_or (only_arg st) (map (\<lambda>x. type_of x (Some (only_arg st))) vs))
      | PDict kvs \<Rightarrow> Dict_of (union_or (fst (two_args st)) (map (\<lambda>x. type_of (fst x) (Some (fst (two_args st)))) kvs))
          (union_or (snd (two_args st)) (map (\<lambda>x. type_of (snd x) (Some (snd (two_args st)))) kvs))
      | DTO n ns fs \<Rightarrow> ModelType n ns (map (\<lambda>f. (fst f, type_of (snd (snd f)) (Some (fst (snd f))))) fs)
      | _ \<Rightarrow> (case st of None \<Rightarrow> value_class v | Some t \<Rightarrow> build_from_dynamic (value_class v) t))"
  by auto

termination
proof (relation "measures [\<lambda>(v, st). size v, \<lambda>(v, st). if is_union st then 1 else 0]", goal_cases)
  case (2 v st)
  then show ?case by (simp add: is_union_def)
next
  case (3 v st vs x)
  then show ?case by (auto dest: size_list_member)
next
  case (4 v st vs x)
  then show ?case by (auto dest: size_list_member)
next
  case (5 v st kvs x)
  then show ?case by (auto dest: size_fst_member)
next
  case (6 v st kvs x)
  then show ?case by (auto dest: size_field)
next
  case (7 v st n ns fs f)
  then show ?case by (auto dest: size_value)
qed simp

declare type_of.simps [simp del]

text \<open>\<open>ModelType.from_model\<close> of a value, whose fields have their real types.\<close>

definition type_of_model :: "pyval \<Rightarrow> ty" where
  "type_of_model v = type_of v None"

end
