(* ===== verification/Avro_Data.thy ===== *)
theory Avro_Data
  imports Model_Types
begin

text \<open>
  The data half of the Avro serializers (\<open>common/model/serializers/avro/data\<close>): the encoder, the decoder
  that casts data to a type hint, and the fields and \<open>DataTransferObject\<close>s that are built with it
  (\<open>common/model/fields.py\<close>, \<open>common/model/dynamic\<close>).

  The decoder calls itself for the parts of the data and, for fields of a model, twice. Its calls are
  bounded by the recursion limit of Python: \<open>decode n\<close> is the decoder with room for \<open>n\<close> nested calls,
  and \<open>Recursion_error\<close> is the value when there is none left.
\<close>

section \<open>Encoding\<close>

lemma size_snd_list: "size_list (size \<circ> snd) kvs \<le> size_list (size_prod g size) kvs"
proof (induction kvs)
  case (Cons a kvs)
  then show ?case by (cases a) auto
qed simp

lemma size_value_list: "size_list (size \<circ> (\<lambda>f. snd (snd f))) fs \<le> size_list (size_prod g (size_prod h size)) fs"
proof (induction fs)
  case (Cons a fs)
  then show ?case by (cases a) auto
qed simp

function encode :: "pyval \<Rightarrow> model_error + pyval" and encodes :: "pyval list \<Rightarrow> model_error + pyval list" where
  "encode v = (case v of
     Missing \<Rightarrow> Inl MinosMalformedAttributeException
   | PDatetime t \<Rightarrow> Inr (PInt t)
   | PTimedelta t \<Rightarrow> Inr (PInt t)
   | PDate t \<Rightarrow> Inr (PInt t)
   | PTime t \<Rightarrow> Inr (PInt t)
   | PUuid u \<Rightarrow> Inr (PStr (uuid_str u))
   | PList vs \<Rightarrow> map_sum id PList (encodes vs)
   | PSet vs \<Rightarrow> map_sum id PList (encodes vs)
   | PDict kvs \<Rightarrow> map_sum id (\<lambda>xs. PDict (zip (map fst kvs) xs)) (encodes (map snd kvs))
   | DTO n ns fs \<Rightarrow> map_sum id (\<lambda>xs. PDict (zip (map (\<lambda>f. PStr (fst f)) fs) xs)) (encodes (map (\<lambda>f. snd (snd f)) fs))
   | _ \<Rightarrow> Inr v)"
| "encodes [] = Inr []"
| "encodes (v # vs) = (case encode v of Inl e \<Rightarrow> Inl e | Inr x \<Rightarrow> (case encodes vs of Inl e \<Rightarrow> Inl e | Inr xs \<Rightarrow> Inr (x # xs)))"
  by pat_completeness auto

termination
  by (relation "measure (\<lambda>x. case x of Inl v \<Rightarrow> 2 * size v + 1 | Inr vs \<Rightarrow> 2 * size_list size vs)")
    (auto simp: less_Suc_eq_le intro!: le_SucI mult_le_mono2 size_snd_list size_value_list)

declare encode.simps [simp del]

lemma map_sum_Inr: "map_sum id f r = Inr x \<longleftrightarrow> (\<exists>y. r = Inr y \<and> x = f y)"
  by (cases r) auto

lemma encode_values [simp]:
  "encode PNone = Inr PNone" "encode (PBool b) = Inr (PBool b)" "encode (PInt i) = Inr (PInt i)"
  "encode (PStr s) = Inr (PStr s)" "encode (PBytes x) = Inr (PBytes x)" "encode (PDatetime t) = Inr (PInt t)"
  "encode (PTimedelta t) = Inr (PInt t)" "encode (PDate t) = Inr (PInt t)" "encode (PTime t) = Inr (PInt t)"
  "encode (PUuid u) = Inr (PStr (uuid_str u))"
  by (simp_all add: encode.simps)

lemma encode_collections:
  "encode (PList vs) = Inr x \<longleftrightarrow> (\<exists>xs. encodes vs = Inr xs \<and> x = PList xs)"
  "encode (PSet vs) = Inr x \<longleftrightarrow> (\<exists>xs. encodes vs = Inr xs \<and> x = PList xs)"
  "encode (PDict kvs) = Inr x \<longleftrightarrow> (\<exists>xs. encodes (map snd kvs) = Inr xs \<and> x = PDict (zip (map fst kvs) xs))"
  "encode (DTO n ns fs) = Inr x \<longleftrightarrow> (\<exists>xs. encodes (map (\<lambda>f. snd (snd f)) fs) = Inr xs
     \<and> x = PDict (zip (map (\<lambda>f. PStr (fst f)) fs) xs))"
  by (simp_all add: encode.simps map_sum_Inr)

text \<open>The dictionary of a model is encoded a second time by \<open>_build_model\<close>, which changes nothing.\<close>

lemma encode_idempotent:
  "encode v = Inr x \<Longrightarrow> encode x = Inr x"
  "encodes vs = Inr xs \<Longrightarrow> encodes xs = Inr xs \<and> length xs = length vs"
proof (induction v and vs arbitrary: x and xs rule: encode_encodes.induct)
  case (1 v)
  have list: "encode (PList xs) = Inr (PList xs)" if "encodes xs = Inr xs" for xs
    using that by (simp add: encode_collections)
  have dict: "encode (PDict (zip ks xs)) = Inr (PDict (zip ks xs))" if "encodes xs = Inr xs" "length xs = length ks" for ks xs
    using that by (simp add: encode_collections map_fst_zip map_snd_zip)
  show ?case
  proof (cases v)
    case (PList vs)
    then obtain xs where "encodes vs = Inr xs" "x = PList xs" using 1(5) PList by (auto simp: encode_collections)
    then show ?thesis using 1(1) [OF PList] list by auto
  next
    case (PSet vs)
    then obtain xs where "encodes vs = Inr xs" "x = PList xs" using 1(5) PSet by (auto simp: encode_collections)
    then show ?thesis using 1(2) [OF PSet] list by auto
  next
    case (PDict kvs)
    then obtain xs where "encodes (map snd kvs) = Inr xs" "x = PDict (zip (map fst kvs) xs)"
      using 1(5) PDict by (auto simp: encode_collections)
    then show ?thesis using 1(3) [OF PDict] dict by auto
  next
    case (DTO n ns fs)
    then obtain xs where "encodes (map (\<lambda>f. snd (snd f)) fs) = Inr xs" "x = PDict (zip (map (\<lambda>f. PStr (fst f)) fs) xs)"
      using 1(5) DTO by (auto simp: encode_collections)
    then show ?thesis using 1(4) [OF DTO] dict by auto
  qed (use 1(5) in \<open>auto simp: encode.simps\<close>)
next
  case (3 v vs)
  then obtain y ys where "encode v = Inr y" "encodes vs = Inr ys" "xs = y # ys" by (auto split: sum.split_asm)
  with 3 show ?case by simp
qed simp

section \<open>Numbers in text\<close>

text \<open>\<open>int(...)\<close> of a text: spaces around, a sign, digits that may be separated by single underscores.\<close>

definition digit_value :: "char \<Rightarrow> nat option" where
  "digit_value c = (case filter (\<lambda>i. ''0123456789'' ! i = c) [0..<10] of [] \<Rightarrow> None | i # _ \<Rightarrow> Some i)"

fun read_digits :: "bool \<Rightarrow> int \<Rightarrow> string \<Rightarrow> int option" where
  "read_digits after acc [] = (if after then Some acc else None)"
| "read_digits after acc (c # cs) = (case digit_value c of
     Some d \<Rightarrow> read_digits True (10 * acc + int d) cs
   | None \<Rightarrow> if c = CHR ''_'' \<and> after then read_digits False acc cs else None)"

definition ascii_spaces :: string where
  "ascii_spaces = [CHR 0x09, CHR 0x0A, CHR 0x0B, CHR 0x0C, CHR 0x0D, CHR 0x20]"

definition text_spaces :: string where
  "text_spaces = ascii_spaces @ [CHR 0x1C, CHR 0x1D, CHR 0x1E, CHR 0x1F, CHR 0x85, CHR 0xA0]"

definition strip_with :: "string \<Rightarrow> string \<Rightarrow> string" where
  "strip_with ws s = rev (dropWhile (\<lambda>c. c \<in> set ws) (rev (dropWhile (\<lambda>c. c \<in> set ws) s)))"

definition py_int :: "string \<Rightarrow> string \<Rightarrow> int option" where
  "py_int ws s = (case strip_with ws s of
     [] \<Rightarrow> None
   | c # cs \<Rightarrow> if c = CHR ''-'' then map_option uminus (read_digits False 0 cs)
       else if c = CHR ''+'' then read_digits False 0 cs else read_digits False 0 (c # cs))"

section \<open>Decoding simple types\<close>

text \<open>\<open>isinstance(data, int)\<close>, which a \<open>bool\<close> is.\<close>

fun as_int :: "pyval \<Rightarrow> int option" where
  "as_int (PInt i) = Some i"
| "as_int (PBool b) = Some (if b then 1 else 0)"
| "as_int _ = None"

text \<open>\<open>int(data)\<close>; a \<open>UUID\<close> has \<open>__int__\<close>.\<close>

fun build_int :: "pyval \<Rightarrow> model_error + pyval" where
  "build_int (PStr s) = (case py_int text_spaces s of None \<Rightarrow> Inl DataDecoderTypeException | Some i \<Rightarrow> Inr (PInt i))"
| "build_int (PBytes b) = (case py_int ascii_spaces (map char_of b) of None \<Rightarrow> Inl DataDecoderTypeException | Some i \<Rightarrow> Inr (PInt i))"
| "build_int (PUuid u) = Inr (PInt (int u))"
| "build_int d = (case as_int d of None \<Rightarrow> Inl DataDecoderTypeException | Some i \<Rightarrow> Inr (PInt i))"

fun build_bool :: "pyval \<Rightarrow> model_error + pyval" where
  "build_bool (PBool b) = Inr (PBool b)"
| "build_bool _ = Inl DataDecoderTypeException"

fun build_string :: "pyval \<Rightarrow> model_error + pyval" where
  "build_string (PStr s) = Inr (PStr s)"
| "build_string _ = Inl DataDecoderTypeException"

fun build_bytes :: "pyval \<Rightarrow> model_error + pyval" where
  "build_bytes (PBytes b) = Inr (PBytes b)"
| "build_bytes _ = Inl DataDecoderTypeException"

text \<open>The ranges of \<open>datetime\<close>, \<open>date\<close> and \<open>timedelta\<close>; beyond them Python raises \<open>OverflowError\<close>, which the
  decoder does not catch.\<close>

definition datetime_min :: int where "datetime_min = -62135596800000000"
definition datetime_max :: int where "datetime_max = 253402300799999999"
definition date_min :: int where "date_min = -719162"
definition date_max :: int where "date_max = 2932896"
definition timedelta_min :: int where "timedelta_min = -86399999913600000000"
definition timedelta_max :: int where "timedelta_max = 86399999999999999999"
definition day_micros :: int where "day_micros = 86400000000"

definition in_range :: "int \<Rightarrow> int \<Rightarrow> (int \<Rightarrow> pyval) \<Rightarrow> int option \<Rightarrow> model_error + pyval" where
  "in_range lo hi f i = (case i of None \<Rightarrow> Inl DataDecoderTypeException
     | Some n \<Rightarrow> if lo \<le> n \<and> n \<le> hi then Inr (f n) else Inl Overflow_error)"

fun build_date :: "pyval \<Rightarrow> model_error + pyval" where
  "build_date (PDate d) = Inr (PDate d)"
| "build_date (PDatetime d) = Inr (PDatetime d)"
| "build_date d = in_range date_min date_max PDate (as_int d)"

fun build_time :: "pyval \<Rightarrow> model_error + pyval" where
  "build_time (PTime t) = Inr (PTime t)"
| "build_time d = in_range 0 (datetime_max - datetime_min) (\<lambda>n. PTime (n mod day_micros)) (as_int d)"

fun build_datetime :: "pyval \<Rightarrow> model_error + pyval" where
  "build_datetime (PDatetime t) = Inr (PDatetime t)"
| "build_datetime d = in_range datetime_min datetime_max PDatetime (as_int d)"

fun build_timedelta :: "pyval \<Rightarrow> model_error + pyval" where
  "build_timedelta (PTimedelta t) = Inr (PTimedelta t)"
| "build_timedelta d = in_range timedelta_min timedelta_max PTimedelta (as_int d)"

fun build_uuid :: "pyval \<Rightarrow> model_error + pyval" where
  "build_uuid (PUuid u) = Inr (PUuid u)"
| "build_uuid (PStr s) = (case uuid_of s of Inl _ \<Rightarrow> Inl DataDecoderTypeException | Inr u \<Rightarrow> Inr (PUuid u))"
| "build_uuid (PBytes b) = (if length b = 16 then Inr (PUuid (foldl (\<lambda>u x. 256 * u + x) 0 b)) else Inl DataDecoderTypeException)"
| "build_uuid _ = Inl DataDecoderTypeException"

section \<open>Decoding collections\<close>

text \<open>\<open>Iterable\<close>, strings apart: a dictionary and a model give their keys, bytes their numbers.\<close>

fun items_of :: "pyval \<Rightarrow> pyval list option" where
  "items_of (PList vs) = Some vs"
| "items_of (PSet vs) = Some vs"
| "items_of (PDict kvs) = Some (map fst kvs)"
| "items_of (DTO n ns fs) = Some (map (\<lambda>f. PStr (fst f)) fs)"
| "items_of (PBytes b) = Some (map (\<lambda>x. PInt (int x)) b)"
| "items_of _ = None"

fun mapping_of :: "pyval \<Rightarrow> (pyval \<times> pyval) list option" where
  "mapping_of (PDict kvs) = Some kvs"
| "mapping_of (DTO n ns fs) = Some (map (\<lambda>f. (PStr (fst f), snd (snd f))) fs)"
| "mapping_of _ = None"

fun map_result :: "('a \<Rightarrow> 'e + 'b) \<Rightarrow> 'a list \<Rightarrow> 'e + 'b list" where
  "map_result f [] = Inr []"
| "map_result f (x # xs) = (case f x of Inl e \<Rightarrow> Inl e | Inr y \<Rightarrow>
     (case map_result f xs of Inl e \<Rightarrow> Inl e | Inr ys \<Rightarrow> Inr (y # ys)))"

lemma map_result_cong [fundef_cong]:
  "\<lbrakk>xs = ys; \<And>x. x \<in> set ys \<Longrightarrow> f x = g x\<rbrakk> \<Longrightarrow> map_result f xs = map_result g ys"
proof (induction ys arbitrary: xs)
  case (Cons y ys)
  from Cons.IH [OF refl] Cons.prems have "map_result f ys = map_result g ys" "f y = g y" by simp_all
  with Cons.prems(1) show ?case by (auto split: sum.split)
qed simp

text \<open>What a set may hold: lists, sets and dictionaries have no hash, and \<open>DataTransferObject\<close> defines
  \<open>__eq__\<close> without \<open>__hash__\<close>. Equality of the rest identifies truth values with the numbers 0 and 1.\<close>

fun hashable :: "pyval \<Rightarrow> bool" where
  "hashable (PList _) = False"
| "hashable (PSet _) = False"
| "hashable (PDict _) = False"
| "hashable (DTO _ _ _) = False"
| "hashable _ = True"

definition py_same :: "pyval \<Rightarrow> pyval \<Rightarrow> bool" where
  "py_same a b \<longleftrightarrow> a = b \<or> (as_int a \<noteq> None \<and> as_int a = as_int b)"

fun set_of_items :: "(pyval \<Rightarrow> model_error + pyval) \<Rightarrow> pyval list \<Rightarrow> pyval list \<Rightarrow> model_error + pyval list" where
  "set_of_items f acc [] = Inr acc"
| "set_of_items f acc (x # xs) = (case f x of Inl e \<Rightarrow> Inl e | Inr y \<Rightarrow>
     if \<not> hashable y then Inl Type_error
     else set_of_items f (if \<exists>z \<in> set acc. py_same z y then acc else acc @ [y]) xs)"

fun dict_of_items :: "(pyval \<Rightarrow> model_error + pyval) \<Rightarrow> (pyval \<Rightarrow> model_error + pyval) \<Rightarrow> (pyval \<times> pyval) list
    \<Rightarrow> (pyval \<times> pyval) list \<Rightarrow> model_error + (pyval \<times> pyval) list" where
  "dict_of_items f g acc [] = Inr acc"
| "dict_of_items f g acc ((k, v) # kvs) = (case f k of Inl e \<Rightarrow> Inl e | Inr k' \<Rightarrow>
     (case g v of Inl e \<Rightarrow> Inl e | Inr v' \<Rightarrow> dict_of_items f g (dict_set k' v' acc) kvs))"

definition build_list :: "(ty \<Rightarrow> pyval \<Rightarrow> model_error + pyval) \<Rightarrow> ty \<Rightarrow> pyval \<Rightarrow> model_error + pyval" where
  "build_list rec t d = (case items_of d of None \<Rightarrow> Inl DataDecoderTypeException
     | Some xs \<Rightarrow> map_sum id PList (map_result (rec t) xs))"

definition build_set :: "(ty \<Rightarrow> pyval \<Rightarrow> model_error + pyval) \<Rightarrow> ty \<Rightarrow> pyval \<Rightarrow> model_error + pyval" where
  "build_set rec t d = (case items_of d of None \<Rightarrow> Inl DataDecoderTypeException
     | Some xs \<Rightarrow> map_sum id PSet (set_of_items (rec t) [] xs))"

definition build_dict :: "(ty \<Rightarrow> pyval \<Rightarrow> model_error + pyval) \<Rightarrow> ty \<Rightarrow> ty \<Rightarrow> pyval \<Rightarrow> model_error + pyval" where
  "build_dict rec k t d = (case mapping_of d of None \<Rightarrow> Inl DataDecoderTypeException
     | Some kvs \<Rightarrow> if k \<noteq> Str_type then Inl DataDecoderMalformedTypeException
         else map_sum id PDict (dict_of_items (rec k) (rec t) [] kvs))"

section \<open>Fields and transfer objects\<close>

text \<open>The setter of \<open>Field.value\<close>: parser, cast, validator. \<open>None\<close> of the parser is its exception.\<close>

definition set_value ::
  "(ty \<Rightarrow> pyval \<Rightarrow> model_error + pyval) \<Rightarrow> (pyval \<Rightarrow> pyval option) option \<Rightarrow> (pyval \<Rightarrow> bool) option
   \<Rightarrow> ty \<Rightarrow> pyval \<Rightarrow> model_error + pyval" where
  "set_value dec parser validator t d =
     (case (case parser of None \<Rightarrow> Some d | Some p \<Rightarrow> p d) of None \<Rightarrow> Inl MinosParseAttributeException | Some d \<Rightarrow>
     (case dec t d of
        Inl DataDecoderMalformedTypeException \<Rightarrow> Inl MinosMalformedAttributeException
      | Inl DataDecoderRequiredValueException \<Rightarrow> Inl MinosReqAttributeException
      | Inl DataDecoderTypeException \<Rightarrow> Inl MinosTypeAttributeException
      | Inl e \<Rightarrow> Inl e
      | Inr v \<Rightarrow> (case validator of
            Some ok \<Rightarrow> if v \<noteq> PNone \<and> \<not> ok v then Inl MinosAttributeValidationException else Inr v
          | None \<Rightarrow> Inr v)))"

text \<open>\<open>DynamicModel._build_fields\<close>: positional arguments first, then named ones; what is given by neither is
  missing.\<close>

fun dto_fields ::
  "(ty \<Rightarrow> pyval \<Rightarrow> model_error + pyval) \<Rightarrow> hints \<Rightarrow> pyval list \<Rightarrow> (string \<times> pyval) list
   \<Rightarrow> model_error + (string \<times> ty \<times> pyval) list" where
  "dto_fields dec [] [] kw = Inr []"
| "dto_fields dec [] (a # args) kw = Inl Type_error"
| "dto_fields dec ((n, t) # hs) args kw =
     (let a = (case args of [] \<Rightarrow> Missing | a # _ \<Rightarrow> a) in
      if dict_get kw n \<noteq> None \<and> a \<noteq> Missing then Inl Type_error else
      (case set_value dec None None t (if a = Missing then (case dict_get kw n of None \<Rightarrow> Missing | Some v \<Rightarrow> v) else a) of
         Inl e \<Rightarrow> Inl e
       | Inr v \<Rightarrow> (case dto_fields dec hs (tl args) kw of Inl e \<Rightarrow> Inl e | Inr fs \<Rightarrow> Inr ((n, t, v) # fs))))"

text \<open>Names that are parameters of the methods between \<open>type_(...)\<close> and \<open>_build_fields\<close>: a field of such
  a name cannot be given by name.\<close>

definition parameter_names :: "string list" where
  "parameter_names = [''cls'', ''model_type'', ''type_hints'', ''additional_type_hints'']"

definition from_model_type ::
  "(ty \<Rightarrow> pyval \<Rightarrow> model_error + pyval) \<Rightarrow> string \<Rightarrow> string \<Rightarrow> hints \<Rightarrow> pyval list \<Rightarrow> (string \<times> pyval) list
   \<Rightarrow> model_error + pyval" where
  "from_model_type dec n ns hs args kw =
     (if \<exists>k \<in> set (dict_keys kw). k \<in> set parameter_names then Inl Type_error
      else if CHR ''.'' \<in> set n then Inl Value_error
      else map_sum id (DTO n ns) (dto_fields dec hs args kw))"

section \<open>Decoding models\<close>

text \<open>The values of the fields a dictionary has, cast to their hints.\<close>

fun named_values :: "(ty \<Rightarrow> pyval \<Rightarrow> model_error + pyval) \<Rightarrow> hints \<Rightarrow> (pyval \<times> pyval) list
    \<Rightarrow> model_error + (string \<times> pyval) list" where
  "named_values rec [] kvs = Inr []"
| "named_values rec ((n, t) # hs) kvs = (case dict_get kvs (PStr n) of
     None \<Rightarrow> named_values rec hs kvs
   | Some d \<Rightarrow> (case rec t d of Inl e \<Rightarrow> Inl e | Inr v \<Rightarrow>
       (case named_values rec hs kvs of Inl e \<Rightarrow> Inl e | Inr r \<Rightarrow> Inr ((n, v) # r))))"

text \<open>All data as the value of the first field, \<open>None\<close> as that of the others. Without fields the data has no
  hint.\<close>

definition positional_values :: "(ty \<Rightarrow> pyval \<Rightarrow> model_error + pyval) \<Rightarrow> hints \<Rightarrow> pyval \<Rightarrow> model_error + pyval list" where
  "positional_values rec hs d = (case hs of
     [] \<Rightarrow> Inl DataDecoderMalformedTypeException
   | h # hs' \<Rightarrow> map_result (\<lambda>(t, x). rec t x) ((snd h, d) # map (\<lambda>h. (snd h, PNone)) hs'))"

definition is_dto :: "pyval \<Rightarrow> bool" where
  "is_dto d = (case d of DTO _ _ _ \<Rightarrow> True | _ \<Rightarrow> False)"

definition build_model_type ::
  "(ty \<Rightarrow> pyval \<Rightarrow> model_error + pyval) \<Rightarrow> string \<Rightarrow> string \<Rightarrow> hints \<Rightarrow> pyval \<Rightarrow> model_error + pyval" where
  "build_model_type rec n ns hs d =
     (if is_dto d \<and> model_ge (type_of_model d) (ModelType n ns hs) then Inr d
      else case (case d of
          PDict kvs \<Rightarrow> (case named_values rec hs kvs of Inl e \<Rightarrow> Inl e | Inr kw \<Rightarrow> from_model_type rec n ns hs [] kw)
        | _ \<Rightarrow> Inl DataDecoderTypeException) of
        Inr v \<Rightarrow> Inr v
      | Inl _ \<Rightarrow> (case (case positional_values rec hs d of Inl e \<Rightarrow> Inl e | Inr args \<Rightarrow> from_model_type rec n ns hs args []) of
          Inr v \<Rightarrow> Inr v
        | Inl _ \<Rightarrow> Inl DataDecoderTypeException))"

section \<open>The decoder\<close>

definition absent :: "pyval \<Rightarrow> bool" where
  "absent d \<longleftrightarrow> d = PNone \<or> d = Missing"

definition build_typed :: "(ty \<Rightarrow> pyval \<Rightarrow> model_error + pyval) \<Rightarrow> ty \<Rightarrow> pyval \<Rightarrow> model_error + pyval" where
  "build_typed rec t d =
     (if t = None_type then (if absent d then Inr PNone else Inl DataDecoderTypeException)
      else if absent d then Inl DataDecoderRequiredValueException
      else case t of
        Bool_type \<Rightarrow> build_bool d
      | Int_type \<Rightarrow> build_int d
      | Str_type \<Rightarrow> build_string d
      | Bytes_type \<Rightarrow> build_bytes d
      | Datetime_type \<Rightarrow> build_datetime d
      | Timedelta_type \<Rightarrow> build_timedelta d
      | Date_type \<Rightarrow> build_date d
      | Time_type \<Rightarrow> build_time d
      | Uuid_type \<Rightarrow> build_uuid d
      | ModelType n ns hs \<Rightarrow> build_model_type rec n ns hs d
      | List_of t \<Rightarrow> build_list rec t d
      | Set_of t \<Rightarrow> build_set rec t d
      | Dict_of k t \<Rightarrow> build_dict rec k t d
      | _ \<Rightarrow> Inl DataDecoderMalformedTypeException)"

definition build_single :: "(ty \<Rightarrow> pyval \<Rightarrow> model_error + pyval) \<Rightarrow> ty \<Rightarrow> pyval \<Rightarrow> model_error + pyval" where
  "build_single rec t d = build_typed rec (if t = Any_type then type_of d None else t) d"

fun first_success :: "('a \<Rightarrow> 'e + 'b) \<Rightarrow> 'a list \<Rightarrow> 'b option" where
  "first_success f [] = None"
| "first_success f (x # xs) = (case f x of Inr y \<Rightarrow> Some y | Inl _ \<Rightarrow> first_success f xs)"

definition build_union_data :: "(ty \<Rightarrow> pyval \<Rightarrow> model_error + pyval) \<Rightarrow> ty list \<Rightarrow> pyval \<Rightarrow> model_error + pyval" where
  "build_union_data rec ts d = (case first_success (\<lambda>t. build_single rec t d) ts of
     Some v \<Rightarrow> Inr v
   | None \<Rightarrow> Inl (if absent d then DataDecoderRequiredValueException else DataDecoderTypeException))"

definition build :: "(ty \<Rightarrow> pyval \<Rightarrow> model_error + pyval) \<Rightarrow> ty \<Rightarrow> pyval \<Rightarrow> model_error + pyval" where
  "build rec t d = (case t of Union_of ts \<Rightarrow> build_union_data rec ts d | _ \<Rightarrow> build_single rec t d)"

primrec decode :: "nat \<Rightarrow> ty \<Rightarrow> pyval \<Rightarrow> model_error + pyval" where
  "decode 0 = (\<lambda>t d. Inl Recursion_error)"
| "decode (Suc n) = build (decode n)"

end
