(* ===== verification/Avro_Schema.thy ===== *)
theory Avro_Schema
  imports Avro_Data
begin

text \<open>
  The schema half of the Avro serializers (\<open>common/model/serializers/avro/schema\<close>) and what a model does
  with both halves (\<open>avro_schema\<close>, \<open>avro_data\<close>, \<open>from_avro\<close> of \<open>common/model/abc.py\<close>). The bytes in
  between are those of a third-party library.

  A schema is a Python value of texts, lists and dictionaries. The namespace of a record is written with
  a random part, drawn from a source of identifiers that is threaded through the encoder. No class is
  found under the name of a record, as for every \<open>ModelType\<close> here.
\<close>

datatype schema = Name string | Options "schema list" | Entries "(string \<times> schema) list"

section \<open>Encoding\<close>

definition logical :: "string \<Rightarrow> string \<Rightarrow> schema" where
  "logical t l = Entries [(''type'', Name t), (''logicalType'', Name l)]"

fun encode_schema :: "(nat \<Rightarrow> string) \<Rightarrow> ty \<Rightarrow> nat \<Rightarrow> model_error + schema \<times> nat"
  and encode_options :: "(nat \<Rightarrow> string) \<Rightarrow> ty list \<Rightarrow> nat \<Rightarrow> model_error + schema list \<times> nat"
  and encode_fields :: "(nat \<Rightarrow> string) \<Rightarrow> (string \<times> ty) list \<Rightarrow> nat \<Rightarrow> model_error + schema list \<times> nat" where
  "encode_schema rnd (Union_of ts) k = (case encode_options rnd ts k of Inl e \<Rightarrow> Inl e | Inr (ss, k) \<Rightarrow> Inr (Options ss, k))"
| "encode_schema rnd Any_type k = Inr (Name ''null'', k)"
| "encode_schema rnd None_type k = Inr (Name ''null'', k)"
| "encode_schema rnd Bool_type k = Inr (Name ''boolean'', k)"
| "encode_schema rnd Int_type k = Inr (Name ''int'', k)"
| "encode_schema rnd Str_type k = Inr (Name ''string'', k)"
| "encode_schema rnd Bytes_type k = Inr (Name ''bytes'', k)"
| "encode_schema rnd Datetime_type k = Inr (logical ''long'' ''timestamp-micros'', k)"
| "encode_schema rnd Timedelta_type k = Inr (logical ''long'' ''timedelta-micros'', k)"
| "encode_schema rnd Date_type k = Inr (logical ''int'' ''date'', k)"
| "encode_schema rnd Time_type k = Inr (logical ''int'' ''time-micros'', k)"
| "encode_schema rnd Uuid_type k = Inr (logical ''string'' ''uuid'', k)"
| "encode_schema rnd (ModelType n ns hs) k =
     (let ns' = (if ns = [] then ns else ns @ CHR ''.'' # rnd k); k = (if ns = [] then k else Suc k) in
      case encode_fields rnd hs k of Inl e \<Rightarrow> Inl e | Inr (fs, k) \<Rightarrow>
        Inr (Entries [(''name'', Name n), (''namespace'', Name ns'), (''type'', Name ''record''), (''fields'', Options fs)], k))"
| "encode_schema rnd (List_of t) k = (case encode_schema rnd t k of Inl e \<Rightarrow> Inl e | Inr (s, k) \<Rightarrow>
     Inr (Entries [(''type'', Name ''array''), (''items'', s)], k))"
| "encode_schema rnd (Set_of t) k = (case encode_schema rnd t k of Inl e \<Rightarrow> Inl e | Inr (s, k) \<Rightarrow>
     Inr (Entries [(''type'', Name ''array''), (''items'', s), (''logicalType'', Name ''set'')], k))"
| "encode_schema rnd (Dict_of l t) k = (case encode_schema rnd t k of Inl e \<Rightarrow> Inl e | Inr (s, k) \<Rightarrow>
     Inr (Entries [(''type'', Name ''map''), (''values'', s)], k))"
| "encode_schema rnd (Other_class c) k = Inl Value_error"
| "encode_options rnd [] k = Inr ([], k)"
| "encode_options rnd (t # ts) k = (case encode_schema rnd t k of Inl e \<Rightarrow> Inl e | Inr (s, k) \<Rightarrow>
     (case encode_options rnd ts k of Inl e \<Rightarrow> Inl e | Inr (ss, k) \<Rightarrow>
        Inr ((case s of Options xs \<Rightarrow> xs | _ \<Rightarrow> [s]) @ ss, k)))"
| "encode_fields rnd [] k = Inr ([], k)"
| "encode_fields rnd ((n, t) # hs) k = (case encode_schema rnd t k of Inl e \<Rightarrow> Inl e | Inr (s, k) \<Rightarrow>
     (case encode_fields rnd hs k of Inl e \<Rightarrow> Inl e | Inr (fs, k) \<Rightarrow>
        Inr (Entries [(''name'', Name n), (''type'', s)] # fs, k)))"

section \<open>Decoding\<close>

text \<open>\<open>text.rsplit(''.'', 1)\<close>: the parts around the last dot, if there is one.\<close>

fun split_last_dot :: "string \<Rightarrow> (string \<times> string) option" where
  "split_last_dot [] = None"
| "split_last_dot (c # cs) = (case split_last_dot cs of
     Some (a, b) \<Rightarrow> Some (c # a, b)
   | None \<Rightarrow> if c = CHR ''.'' then Some ([], cs) else None)"

definition unpatch_namespace :: "string \<Rightarrow> string" where
  "unpatch_namespace ns = (case split_last_dot ns of Some (a, _) \<Rightarrow> a | None \<Rightarrow> ns)"

text \<open>The names of simple types; numbers with a fraction have no hint of their own here.\<close>

definition simple_type :: "string \<Rightarrow> model_error + ty" where
  "simple_type s =
     (if s = ''null'' then Inr None_type else if s = ''int'' then Inr Int_type
      else if s = ''boolean'' then Inr Bool_type else if s = ''string'' then Inr Str_type
      else if s = ''bytes'' then Inr Bytes_type else if s = ''float'' \<or> s = ''double'' then Inr (Other_class ''float'')
      else Inl MinosMalformedAttributeException)"

text \<open>The classes of the logical types, sets apart.\<close>

definition logical_class :: "schema \<Rightarrow> ty option" where
  "logical_class l =
     (if l = Name ''date'' then Some Date_type else if l = Name ''time-micros'' then Some Time_type
      else if l = Name ''timestamp-micros'' then Some Datetime_type
      else if l = Name ''timedelta-micros'' then Some Timedelta_type
      else if l = Name ''uuid'' then Some Uuid_type else None)"

text \<open>\<open>_build_iterable\<close>: no hint is left of \<open>Any\<close>, so \<open>None\<close> is read as \<open>Any\<close>.\<close>

definition element_type :: "ty \<Rightarrow> ty" where
  "element_type t = (if t = None_type then Any_type else t)"

definition record_name :: "(string \<times> schema) list \<Rightarrow> model_error + string \<times> string" where
  "record_name s = (case (dict_get s ''name'', dict_get s ''namespace'') of
     (Some (Name n), Some (Name ns)) \<Rightarrow> Inr (n, unpatch_namespace ns)
   | (Some (Name n), None) \<Rightarrow> (case split_last_dot n of None \<Rightarrow> Inr (n, []) | Some (ns, m) \<Rightarrow> Inr (m, unpatch_namespace ns))
   | (None, _) \<Rightarrow> Inl Key_error
   | _ \<Rightarrow> Inl Type_error)"

definition union_of_options :: "ty list \<Rightarrow> model_error + ty" where
  "union_of_options ts = (if ts = [] then Inl Type_error else Inr (build_union ts))"

lemma map_filter_cong [fundef_cong]:
  "\<lbrakk>xs = ys; \<And>x. x \<in> set ys \<Longrightarrow> f x = g x\<rbrakk> \<Longrightarrow> List.map_filter f xs = List.map_filter g ys"
  by (simp add: List.map_filter_def cong: filter_cong)

lemma size_entry: "dict_get s k = Some x \<Longrightarrow> size x < Suc (size_list (size_prod f size) s)"
proof (induction s)
  case (Cons e s)
  then show ?case by (cases e) (auto split: if_splits)
qed simp

lemma size_dict_del: "dict_get s k \<noteq> None \<Longrightarrow> size_list (size_prod f size) (dict_del k s) < size_list (size_prod f size) s"
proof (induction s)
  case (Cons e s)
  have le: "size_list (size_prod f size) (dict_del k s) \<le> size_list (size_prod f size) s" for s
    by (induction s) (auto simp: dict_del_def)
  show ?case
  proof (cases "fst e = k")
    case True
    with le [of s] show ?thesis by (cases e) (simp add: dict_del_def)
  next
    case False
    with Cons show ?thesis by (cases e) (simp add: dict_del_def)
  qed
qed simp

lemma size_subentry:
  assumes "dict_get s k = Some (Options fs)" "Entries g \<in> set fs"
  shows "size_list (size_prod (\<lambda>_. 0) size) g < size_list (size_prod (\<lambda>_. 0) size) s"
proof -
  have "size (Options fs) < Suc (size_list (size_prod (\<lambda>_. 0) size) s)" by (rule size_entry [OF assms(1)])
  moreover have "size (Entries g) < Suc (size_list size fs)" by (rule size_list_member [OF assms(2)])
  ultimately show ?thesis by simp
qed

function decode_schema :: "schema \<Rightarrow> model_error + ty" where
  "decode_schema (Name s) = simple_type s"
| "decode_schema (Options ss) = union_of_options (List.map_filter (\<lambda>s. case decode_schema s of Inr t \<Rightarrow> Some t | Inl _ \<Rightarrow> None) ss)"
| "decode_schema (Entries s) = (case dict_get s ''logicalType'' of
     Some l \<Rightarrow> (case logical_class l of Some t \<Rightarrow> Inr t | None \<Rightarrow>
       if l = Name ''set'' then
         (case dict_get s ''items'' of None \<Rightarrow> Inl Key_error | Some x \<Rightarrow> map_sum id (\<lambda>t. Set_of (element_type t)) (decode_schema x))
       else decode_schema (Entries (dict_del ''logicalType'' s)))
   | None \<Rightarrow> (case dict_get s ''type'' of None \<Rightarrow> Inl Key_error | Some t \<Rightarrow>
       if t = Name ''array'' then
         (case dict_get s ''items'' of None \<Rightarrow> Inl Key_error | Some x \<Rightarrow> map_sum id (\<lambda>t. List_of (element_type t)) (decode_schema x))
       else if t = Name ''map'' then
         (case dict_get s ''values'' of None \<Rightarrow> Inl Key_error | Some x \<Rightarrow> map_sum id (\<lambda>t. Dict_of Str_type (element_type t)) (decode_schema x))
       else if t = Name ''record'' then
         (case record_name s of Inl e \<Rightarrow> Inl e | Inr (n, ns) \<Rightarrow>
         (case dict_get s ''fields'' of
            None \<Rightarrow> Inl Key_error
          | Some (Options fs) \<Rightarrow> map_sum id (\<lambda>hs. ModelType n ns (fold (\<lambda>(m, t). dict_set m t) hs []))
              (map_result (\<lambda>f. case f of
                 Entries g \<Rightarrow> (case dict_get g ''name'' of
                     Some (Name m) \<Rightarrow> map_sum id (Pair m) (decode_schema (Entries g))
                   | Some _ \<Rightarrow> Inl Type_error
                   | None \<Rightarrow> Inl Key_error)
               | _ \<Rightarrow> Inl Type_error) fs)
          | Some _ \<Rightarrow> Inl Type_error))
       else decode_schema t))"
  by pat_completeness auto
termination
  by (relation "measure size") (auto dest: size_entry size_list_member size_subentry intro!: size_dict_del)

declare decode_schema.simps [simp del]

section \<open>Models\<close>

text \<open>\<open>ModelType.build\<close>: the hints as a dictionary or as named parameters, the namespace in the name when it
  is not given; and \<open>classname\<close> of a \<open>DataTransferObject\<close>.\<close>

definition build_model_hint :: "string \<Rightarrow> hints option \<Rightarrow> string option \<Rightarrow> hints \<Rightarrow> model_error + ty" where
  "build_model_hint n hs ns kw =
     (if hs \<noteq> None \<and> kw \<noteq> [] then Inl Value_error else
      let hs = (case hs of None \<Rightarrow> kw | Some hs \<Rightarrow> hs) in
      Inr (case ns of Some ns \<Rightarrow> ModelType n ns hs
        | None \<Rightarrow> (case split_last_dot n of Some (ns, m) \<Rightarrow> ModelType m ns hs | None \<Rightarrow> ModelType n [] hs)))"

definition dto_classname :: "string \<Rightarrow> string \<Rightarrow> string" where
  "dto_classname n ns = (if ns = [] then n else ns @ CHR ''.'' # n)"

lemma split_last_dot_None: "CHR ''.'' \<notin> set b \<Longrightarrow> split_last_dot b = None"
  by (induction b) auto

lemma split_last_dot_append: "CHR ''.'' \<notin> set b \<Longrightarrow> split_last_dot (a @ CHR ''.'' # b) = Some (a, b)"
  by (induction a) (simp_all add: split_last_dot_None)

text \<open>So the name and the namespace of the hint of a \<open>DataTransferObject\<close> are its own.\<close>

lemma hint_of_classname: "CHR ''.'' \<notin> set n \<Longrightarrow> build_model_hint (dto_classname n ns) (Some hs) None [] = Inr (ModelType n ns hs)"
  by (simp add: build_model_hint_def dto_classname_def split_last_dot_None split_last_dot_append)

text \<open>\<open>avro_schema\<close> and \<open>avro_data\<close> of an instance, and \<open>from_avro\<close>.\<close>

definition avro_schema :: "(nat \<Rightarrow> string) \<Rightarrow> pyval \<Rightarrow> nat \<Rightarrow> model_error + schema \<times> nat" where
  "avro_schema rnd m k = (case encode_schema rnd (type_of_model m) k of Inl e \<Rightarrow> Inl e | Inr (s, k) \<Rightarrow> Inr (Options [s], k))"

definition avro_data :: "pyval \<Rightarrow> model_error + pyval" where
  "avro_data = encode"

definition from_avro :: "nat \<Rightarrow> schema \<Rightarrow> pyval \<Rightarrow> model_error + pyval" where
  "from_avro limit s d = (case decode_schema s of Inl e \<Rightarrow> Inl e | Inr t \<Rightarrow> decode limit t d)"

text \<open>\<open>Field.from_avro\<close>: the name is in the schema of the field.\<close>

definition field_from_avro :: "nat \<Rightarrow> schema \<Rightarrow> pyval \<Rightarrow> model_error + string \<times> ty \<times> pyval" where
  "field_from_avro limit s d = (case decode_schema s of Inl e \<Rightarrow> Inl e | Inr t \<Rightarrow>
     (case s of
        Entries e \<Rightarrow> (case dict_get e ''name'' of
            Some (Name n) \<Rightarrow> map_sum id (\<lambda>v. (n, t, v)) (set_value (decode limit) None None t d)
          | Some _ \<Rightarrow> Inl Type_error
          | None \<Rightarrow> Inl Key_error)
      | _ \<Rightarrow> Inl Type_error))"

end
