(* ===== verification/Avro_Decoding.thy ===== *)
theory Avro_Decoding
  imports Avro_Schema
begin

text \<open>
  The decoder on what the encoder gives: a value that has a type is read back from itself and from its
  encoding, when no union of the type has an alternative that reads the values of a later one.
\<close>

section \<open>Comparison of hints\<close>

lemma compare_any [simp]: "compare_types a Any_type"
  by (simp add: compare_types.simps)

lemma compare_refl [simp]: "compare_types a a"
  by (simp add: compare_types.simps)

lemma compare_member: "s \<in> set ss \<Longrightarrow> compare_types a s \<Longrightarrow> compare_types a (Union_of ss)"
  by (subst compare_types.simps) auto

lemma compare_union_member:
  "compare_types (Union_of fs) t \<Longrightarrow> f \<in> set fs \<Longrightarrow> compare_types f t"
proof (induction "size t" arbitrary: t rule: less_induct)
  case less
  consider "t = Any_type" | "\<forall>f \<in> set fs. compare_types f t"
    | ss s where "t = Union_of ss" "s \<in> set ss" "compare_types (Union_of fs) s"
    | "t = Union_of fs"
    | ss where "t = Union_of ss" "length fs = length ss" "\<forall>(f, s) \<in> set (zip fs ss). compare_types f s"
    using less.prems(1) by (subst (asm) compare_types.simps) (auto split: ty.splits)
  then show ?case
  proof cases
    case (3 ss s)
    then have "compare_types f s" using less.hyps [of s] less.prems(2) by (auto dest: size_list_member)
    with 3 show ?thesis by (auto intro: compare_member)
  next
    case 4
    then show ?thesis using less.prems(2) by (auto intro: compare_member)
  next
    case (5 ss)
    from less.prems(2) obtain i where "i < length fs" "fs ! i = f" by (auto simp: in_set_conv_nth)
    with 5 have "(f, ss ! i) \<in> set (zip fs ss)" "ss ! i \<in> set ss" by (auto simp: set_zip)
    with 5 show ?thesis by (auto intro: compare_member)
  qed (use less.prems(2) in auto)
qed

lemma compare_alternatives: "compare_types r t \<Longrightarrow> a \<in> set (alternatives r) \<Longrightarrow> compare_types a t"
  by (cases r) (auto intro: compare_union_member)

lemma compare_build_union:
  assumes "\<forall>r \<in> set rs. compare_types r t"
  shows "compare_types (build_union rs) t"
proof -
  have all: "\<forall>a \<in> set (uniq (concat (map alternatives rs))). compare_types a t"
    using assms compare_alternatives by auto
  show ?thesis
  proof (cases "\<exists>a. uniq (concat (map alternatives rs)) = [a]")
    case True
    then obtain a where a: "uniq (concat (map alternatives rs)) = [a]" by blast
    with all have "compare_types a t" by (metis list.set_intros(1))
    then show ?thesis by (simp add: build_union_def a)
  next
    case False
    then have "build_union rs = Union_of (uniq (concat (map alternatives rs)))"
      by (auto simp: build_union_def split: list.splits)
    with all show ?thesis by (subst compare_types.simps) simp
  qed
qed

section \<open>Values of a type\<close>

inductive typed :: "pyval \<Rightarrow> ty \<Rightarrow> bool" where
  typed_none: "typed PNone None_type"
| typed_bool: "typed (PBool b) Bool_type"
| typed_int: "typed (PInt i) Int_type"
| typed_str: "typed (PStr s) Str_type"
| typed_bytes: "typed (PBytes x) Bytes_type"
| typed_datetime: "datetime_min \<le> t \<Longrightarrow> t \<le> datetime_max \<Longrightarrow> typed (PDatetime t) Datetime_type"
| typed_timedelta: "timedelta_min \<le> t \<Longrightarrow> t \<le> timedelta_max \<Longrightarrow> typed (PTimedelta t) Timedelta_type"
| typed_date: "date_min \<le> t \<Longrightarrow> t \<le> date_max \<Longrightarrow> typed (PDate t) Date_type"
| typed_time: "0 \<le> t \<Longrightarrow> t < day_micros \<Longrightarrow> typed (PTime t) Time_type"
| typed_uuid: "u < 2 ^ 128 \<Longrightarrow> typed (PUuid u) Uuid_type"
| typed_list: "\<forall>v \<in> set vs. typed v t \<Longrightarrow> typed (PList vs) (List_of t)"
| typed_set: "\<forall>v \<in> set vs. typed v t \<and> hashable v \<Longrightarrow> sorted_wrt (\<lambda>v w. \<not> py_same v w) vs \<Longrightarrow> typed (PSet vs) (Set_of t)"
| typed_dict: "\<forall>e \<in> set kvs. typed (snd e) t \<Longrightarrow> distinct (dict_keys kvs)
    \<Longrightarrow> typed (PDict (map (\<lambda>e. (PStr (fst e), snd e)) kvs)) (Dict_of Str_type t)"
| typed_dto: "\<forall>f \<in> set fs. typed (snd (snd f)) (fst (snd f)) \<and> fst f \<notin> set parameter_names \<Longrightarrow> distinct (map fst fs)
    \<Longrightarrow> CHR ''.'' \<notin> set n \<Longrightarrow> typed (DTO n ns fs) (ModelType n ns (map (\<lambda>f. (fst f, fst (snd f))) fs))"
| typed_union: "t \<in> set ts \<Longrightarrow> alternatives t = [t] \<Longrightarrow> typed v t \<Longrightarrow> typed v (Union_of ts)"

text \<open>The hint built of a value matches its type: so an instance of a model is recognised as one.\<close>

lemma compare_from_dynamic: "compare_types (build_from_dynamic c t) t"
  by (simp add: build_from_dynamic_def)

lemma type_of_scalar:
  "\<not> is_union st \<Longrightarrow> value_class v \<noteq> Other_class '''' \<Longrightarrow>
   type_of v st = (case st of None \<Rightarrow> value_class v | Some t \<Rightarrow> build_from_dynamic (value_class v) t)"
  by (subst type_of.simps) (cases v; simp)

lemma compare_union_or: "\<forall>r \<in> set rs. compare_types r t \<Longrightarrow> compare_types (union_or t rs) t"
  by (auto simp: union_or_def intro: compare_build_union)

lemma real_type_matches: "typed v t \<Longrightarrow> compare_types (type_of v (Some t)) t"
proof (induction rule: typed.induct)
  case (typed_list vs t)
  have "compare_types (union_or t (map (\<lambda>x. type_of x (Some t)) vs)) t"
    using typed_list by (intro compare_union_or) auto
  then show ?case by (subst type_of.simps) (simp add: is_union_def only_arg_def compare_types.simps [of "List_of _"])
next
  case (typed_set vs t)
  have "compare_types (union_or t (map (\<lambda>x. type_of x (Some t)) vs)) t"
    using typed_set by (intro compare_union_or) auto
  then show ?case by (subst type_of.simps) (simp add: is_union_def only_arg_def compare_types.simps [of "Set_of _"])
next
  case (typed_dict kvs t)
  have "compare_types (union_or t (map (\<lambda>x. type_of (snd x) (Some t)) kvs)) t"
    using typed_dict by (intro compare_union_or) auto
  moreover have "type_of (PStr s) (Some Str_type) = Str_type" for s
    by (subst type_of_scalar) (simp_all add: is_union_def build_from_dynamic_def)
  then have "compare_types (union_or Str_type (map (\<lambda>x. type_of (PStr (fst x)) (Some Str_type)) kvs)) Str_type"
    by (intro compare_union_or) auto
  ultimately show ?case
    by (subst type_of.simps) (simp add: is_union_def two_args_def comp_def compare_types.simps [of "Dict_of _ _"])
next
  case (typed_dto fs n ns)
  let ?hs = "map (\<lambda>f. (fst f, fst (snd f))) fs"
  have "dict_get ?hs (fst f) = Some (fst (snd f))" if "f \<in> set fs" for f
    using that typed_dto(2) by (intro map_of_is_SomeI) (auto simp: comp_def)
  then show ?case
    using typed_dto(1)
    by (subst type_of.simps) (simp add: is_union_def compare_types.simps [of "ModelType _ _ _"])
next
  case (typed_union t ts v)
  have "compare_types (build_from_dynamic c s) (Union_of ts)" if "s \<in> set ts" for c s
    using that compare_member [OF that compare_from_dynamic] by simp
  then have "compare_types (build_union (map (build_from_dynamic (type_of v None)) ts)) (Union_of ts)"
    by (intro compare_build_union) auto
  then show ?case by (subst type_of.simps) (simp add: is_union_def)
qed (simp_all add: type_of_scalar is_union_def compare_from_dynamic)

section \<open>Unambiguous unions\<close>

text \<open>The forms of values, and whether the decoder of the first type may read a value of the second, itself
  or encoded: numbers are read from texts, bytes and identifiers, times from numbers, lists from
  anything that can be iterated, and a model from everything but \<open>None\<close>.\<close>

fun form :: "ty \<Rightarrow> nat" where
  "form None_type = 0"
| "form Bool_type = 1"
| "form Int_type = 2"
| "form Datetime_type = 3"
| "form Timedelta_type = 3"
| "form Date_type = 3"
| "form Time_type = 3"
| "form Str_type = 4"
| "form Uuid_type = 5"
| "form Bytes_type = 6"
| "form (List_of _) = 7"
| "form (Set_of _) = 7"
| "form (Dict_of _ _) = 8"
| "form (ModelType _ _ _) = 9"
| "form _ = 10"

definition reads :: "ty \<Rightarrow> ty \<Rightarrow> bool" where
  "reads t s \<longleftrightarrow> (if form t = 0 then form s = 0 else form s \<noteq> 0 \<and>
     (form s \<in> (case form t of Suc 0 \<Rightarrow> {1} | _ \<Rightarrow>
        if form t = 2 then {1, 2, 3, 4, 5, 6} else if form t = 3 then {1, 2, 3} else if form t = 4 then {4, 5}
        else if form t = 5 then {4, 5, 6} else if form t = 6 then {6} else if form t = 7 then {6, 7, 8, 9}
        else if form t = 8 then {8, 9} else {1 .. 10})))"

fun clear :: "ty \<Rightarrow> bool" where
  "clear (List_of t) = clear t"
| "clear (Set_of t) = clear t"
| "clear (Dict_of k t) = clear t"
| "clear (ModelType n ns hs) = (\<forall>h \<in> set hs. clear (snd h))"
| "clear (Union_of ts) = ((\<forall>t \<in> set ts. clear t \<and> alternatives t = [t]) \<and> sorted_wrt (\<lambda>t s. \<not> reads t s) ts)"
| "clear Any_type = False"
| "clear (Other_class _) = False"
| "clear _ = True"

fun depth :: "ty \<Rightarrow> nat" where
  "depth (List_of t) = Suc (depth t)"
| "depth (Set_of t) = Suc (depth t)"
| "depth (Dict_of k t) = Suc (max (depth k) (depth t))"
| "depth (ModelType n ns hs) = Suc (Max (insert 0 ((\<lambda>h. depth (snd h)) ` set hs)))"
| "depth (Union_of ts) = Max (insert 1 (depth ` set ts))"
| "depth _ = 1"

lemma depth_pos: "0 < depth t"
  by (induction t rule: depth.induct) (auto simp: Max_gr_iff)

lemma depth_hint: "depth (ModelType n ns hs) \<le> Suc m \<Longrightarrow> h \<in> set hs \<Longrightarrow> depth (snd h) \<le> m"
  by simp

lemma depth_alternative: "depth (Union_of ts) \<le> n \<Longrightarrow> t \<in> set ts \<Longrightarrow> depth t \<le> n"
  by simp

section \<open>Decoding what was encoded\<close>

lemma encodes_results:
  assumes "\<forall>v \<in> set vs. \<exists>x. encode v = Inr x \<and> P x v"
  shows "\<exists>xs. encodes vs = Inr xs \<and> list_all2 P xs vs"
  using assms
proof (induction vs)
  case (Cons v vs)
  then obtain x xs where "encode v = Inr x" "P x v" "encodes vs = Inr xs" "list_all2 P xs vs" by auto
  then show ?case by simp
qed simp

lemma map_result_all2: "list_all2 (\<lambda>x v. f x = Inr v) xs vs \<Longrightarrow> map_result f xs = Inr vs"
  by (induction rule: list_all2_induct) auto

lemma set_of_items_all2:
  "\<lbrakk>list_all2 (\<lambda>x v. f x = Inr v) xs vs; \<forall>v \<in> set vs. hashable v; sorted_wrt (\<lambda>v w. \<not> py_same v w) (acc @ vs)\<rbrakk> \<Longrightarrow>
   set_of_items f acc xs = Inr (acc @ vs)"
proof (induction arbitrary: acc rule: list_all2_induct)
  case (Cons x xs v vs)
  then have "\<not> (\<exists>z \<in> set acc. py_same z v)" "hashable v" by (auto simp: sorted_wrt_append)
  with Cons show ?case by (simp add: sorted_wrt_append)
qed simp

lemma dict_of_items_all2:
  "\<lbrakk>list_all2 (\<lambda>x e. fst x = fst e \<and> f (fst x) = Inr (fst x) \<and> g (snd x) = Inr (snd e)) xs es; distinct (dict_keys (acc @ es))\<rbrakk> \<Longrightarrow>
   dict_of_items f g acc xs = Inr (acc @ es)"
proof (induction arbitrary: acc rule: list_all2_induct)
  case (Cons x xs e es)
  obtain k v where e: "e = (k, v)" by fastforce
  have "dict_set k v acc = acc @ [(k, v)]"
  proof -
    have "k \<notin> set (dict_keys acc)" using Cons.prems e by auto
    then show ?thesis by (induction acc) auto
  qed
  with Cons e show ?case by (cases x) simp
qed simp

lemma union_not_alone [simp]: "alternatives (Union_of ts) \<noteq> [Union_of ts]"
proof
  assume "alternatives (Union_of ts) = [Union_of ts]"
  then have "size_list size ts = size_list size [Union_of ts]" by simp
  then show False by simp
qed

declare decode.simps(2) [simp del]

lemma decode_nonunion: "alternatives t = [t] \<Longrightarrow> decode (Suc n) t d = build_single (decode n) t d"
proof (cases t)
  case (Union_of ts)
  moreover assume "alternatives t = [t]"
  ultimately show ?thesis using union_not_alone [of ts] by simp
qed (simp_all add: build_def decode.simps(2))

text \<open>The decoder by type, on data that is there.\<close>

lemma absent_simps [simp]:
  "absent PNone" "\<not> absent (PBool b)" "\<not> absent (PInt i)" "\<not> absent (PStr s)" "\<not> absent (PBytes x)" "\<not> absent (PDatetime t)"
  "\<not> absent (PTimedelta t)" "\<not> absent (PDate t)" "\<not> absent (PTime t)" "\<not> absent (PUuid u)" "\<not> absent (PList vs)"
  "\<not> absent (PSet vs)" "\<not> absent (PDict kvs)" "\<not> absent (DTO n ns fs)"
  by (simp_all add: absent_def)

lemma build_single_present:
  assumes "\<not> absent d"
  shows "build_single rec None_type d = Inl DataDecoderTypeException" "build_single rec Bool_type d = build_bool d"
    "build_single rec Int_type d = build_int d" "build_single rec Str_type d = build_string d"
    "build_single rec Bytes_type d = build_bytes d" "build_single rec Datetime_type d = build_datetime d"
    "build_single rec Timedelta_type d = build_timedelta d" "build_single rec Date_type d = build_date d"
    "build_single rec Time_type d = build_time d" "build_single rec Uuid_type d = build_uuid d"
    "build_single rec (ModelType n ns hs) d = build_model_type rec n ns hs d" "build_single rec (List_of t) d = build_list rec t d"
    "build_single rec (Set_of t) d = build_set rec t d" "build_single rec (Dict_of k t) d = build_dict rec k t d"
  using assms by (simp_all add: build_single_def build_typed_def)

lemma build_single_none: "t \<noteq> Any_type \<Longrightarrow> build_single rec t PNone = (if t = None_type then Inr PNone else Inl DataDecoderRequiredValueException)"
  by (simp add: build_single_def build_typed_def)

lemma not_read:
  assumes "typed v s" "alternatives s = [s]" "alternatives t = [t]" "clear t" "\<not> reads t s" "encode v = Inr x"
  shows "\<exists>e e'. build_single rec t v = Inl e \<and> build_single rec t x = Inl e'"
  using assms(1)
proof (cases rule: typed.cases)
  case typed_none
  with assms show ?thesis by (cases t) (auto simp: build_single_none reads_def)
next
  case (typed_bool b)
  with assms show ?thesis by (cases t) (auto simp: build_single_present reads_def build_list_def build_set_def build_dict_def)
next
  case (typed_int i)
  with assms show ?thesis by (cases t) (auto simp: build_single_present reads_def build_list_def build_set_def build_dict_def)
next
  case (typed_str s)
  with assms show ?thesis by (cases t) (auto simp: build_single_present reads_def build_list_def build_set_def build_dict_def in_range_def)
next
  case (typed_bytes x)
  with assms show ?thesis by (cases t) (auto simp: build_single_present reads_def build_list_def build_set_def build_dict_def in_range_def)
next
  case (typed_datetime i)
  with assms show ?thesis by (cases t) (auto simp: build_single_present reads_def build_list_def build_set_def build_dict_def in_range_def)
next
  case (typed_timedelta i)
  with assms show ?thesis by (cases t) (auto simp: build_single_present reads_def build_list_def build_set_def build_dict_def in_range_def)
next
  case (typed_date i)
  with assms show ?thesis by (cases t) (auto simp: build_single_present reads_def build_list_def build_set_def build_dict_def in_range_def)
next
  case (typed_time i)
  with assms show ?thesis by (cases t) (auto simp: build_single_present reads_def build_list_def build_set_def build_dict_def in_range_def)
next
  case (typed_uuid u)
  with assms show ?thesis by (cases t) (auto simp: build_single_present reads_def build_list_def build_set_def build_dict_def in_range_def)
next
  case (typed_list vs t')
  with assms show ?thesis
    by (cases t) (auto simp: encode_collections build_single_present reads_def build_dict_def in_range_def)
next
  case (typed_set vs t')
  with assms show ?thesis
    by (cases t) (auto simp: encode_collections build_single_present reads_def build_dict_def in_range_def)
next
  case (typed_dict kvs t')
  with assms show ?thesis
    by (cases t) (auto simp: encode_collections build_single_present reads_def in_range_def)
next
  case (typed_dto fs n ns)
  with assms show ?thesis
    by (cases t) (auto simp: encode_collections build_single_present reads_def in_range_def)
next
  case (typed_union t' ts)
  with assms(2) union_not_alone [of ts] show ?thesis by metis
qed

lemma first_success_at:
  assumes "i < length ts" "f (ts ! i) = Inr v" "\<And>j. j < i \<Longrightarrow> \<exists>e. f (ts ! j) = Inl e"
  shows "first_success f ts = Some v"
  using assms
proof (induction ts arbitrary: i)
  case (Cons t ts)
  show ?case
  proof (cases i)
    case 0
    with Cons.prems(2) show ?thesis by simp
  next
    case (Suc j)
    obtain e where "f t = Inl e" using Cons.prems(3) [of 0] Suc by auto
    moreover have "\<exists>e. f (ts ! k) = Inl e" if "k < j" for k
      using Cons.prems(3) [of "Suc k"] that Suc by simp
    then have "first_success f ts = Some v" using Cons.prems(1,2) Suc by (intro Cons.IH [of j]) simp_all
    ultimately show ?thesis by simp
  qed
qed simp

lemma in_range_in [simp]: "lo \<le> n \<Longrightarrow> n \<le> hi \<Longrightarrow> in_range lo hi f (Some n) = Inr (f n)"
  by (simp add: in_range_def)

lemma time_in_range: "0 \<le> t \<Longrightarrow> t < day_micros \<Longrightarrow> t \<le> datetime_max - datetime_min"
  by (simp add: day_micros_def datetime_max_def datetime_min_def)

text \<open>A model: from itself, and from the dictionary it is encoded as.\<close>

lemma named_values_all2:
  assumes "list_all2 (\<lambda>x f. rec (fst (snd f)) x = Inr (snd (snd f))) xs fs" "distinct (map fst fs)"
    and "\<forall>(n, x) \<in> set (zip (map fst fs) xs). dict_get kvs (PStr n) = Some x"
  shows "named_values rec (map (\<lambda>f. (fst f, fst (snd f))) fs) kvs = Inr (map (\<lambda>f. (fst f, snd (snd f))) fs)"
  using assms by (induction rule: list_all2_induct) auto

lemma dto_fields_named:
  assumes "\<forall>f \<in> set fs. dec (fst (snd f)) (snd (snd f)) = Inr (snd (snd f)) \<and> dict_get kw (fst f) = Some (snd (snd f))"
  shows "dto_fields dec (map (\<lambda>f. (fst f, fst (snd f))) fs) [] kw = Inr fs"
  using assms by (induction fs) (auto simp: set_value_def)

lemma dict_get_zip_keys:
  "distinct (map fst fs) \<Longrightarrow> length xs = length fs \<Longrightarrow> (n, x) \<in> set (zip (map fst fs) xs) \<Longrightarrow>
   dict_get (zip (map (\<lambda>f. PStr (fst f)) fs) xs) (PStr n) = Some x"
proof -
  assume a: "distinct (map fst fs)" "length xs = length fs" "(n, x) \<in> set (zip (map fst fs) xs)"
  have "map (\<lambda>f. PStr (fst f)) fs = map PStr (map fst fs)" by simp
  then have "distinct (map (\<lambda>f. PStr (fst f)) fs)" using a(1) by (simp only: distinct_map) (auto simp: inj_on_def)
  moreover have "(PStr n, x) \<in> set (zip (map (\<lambda>f. PStr (fst f)) fs) xs)"
  proof -
    obtain k where "k < length fs" "n = fst (fs ! k)" "x = xs ! k" using a(2,3) by (auto simp: in_set_zip)
    then show ?thesis using a(2) by (auto simp: in_set_zip intro!: exI [of _ k])
  qed
  ultimately show ?thesis using a(2) by (intro map_of_is_SomeI) (simp_all add: map_fst_zip)
qed

lemma decode_typed:
  "typed v t \<Longrightarrow> clear t \<Longrightarrow> depth t \<le> n \<Longrightarrow>
   decode n t v = Inr v \<and> (\<exists>x. encode v = Inr x \<and> decode n t x = Inr v)"
proof (induction arbitrary: n rule: typed.induct)
  case (typed_list vs t)
  then obtain m where m: "n = Suc m" "depth t \<le> m" by (cases n) auto
  have each: "\<forall>v \<in> set vs. decode m t v = Inr v \<and> (\<exists>x. encode v = Inr x \<and> decode m t x = Inr v)"
    using typed_list m(2) by auto
  then obtain xs where xs: "encodes vs = Inr xs" "list_all2 (\<lambda>x v. decode m t x = Inr v) xs vs"
    using encodes_results [of vs "\<lambda>x v. decode m t x = Inr v"] by blast
  have "list_all2 (\<lambda>x v. decode m t x = Inr v) vs vs" using each by (simp add: list.rel_refl_strong)
  with xs show ?case
    by (simp add: m(1) decode_nonunion build_single_present build_list_def encode_collections map_result_all2)
next
  case (typed_set vs t)
  then obtain m where m: "n = Suc m" "depth t \<le> m" by (cases n) auto
  have each: "\<forall>v \<in> set vs. decode m t v = Inr v \<and> (\<exists>x. encode v = Inr x \<and> decode m t x = Inr v)"
    using typed_set m(2) by auto
  then obtain xs where xs: "encodes vs = Inr xs" "list_all2 (\<lambda>x v. decode m t x = Inr v) xs vs"
    using encodes_results [of vs "\<lambda>x v. decode m t x = Inr v"] by blast
  have self: "list_all2 (\<lambda>x v. decode m t x = Inr v) vs vs" using each by (simp add: list.rel_refl_strong)
  have "\<forall>v \<in> set vs. hashable v" "sorted_wrt (\<lambda>v w. \<not> py_same v w) ([] @ vs)" using typed_set by simp_all
  from set_of_items_all2 [OF self this] set_of_items_all2 [OF xs(2) this] xs(1) show ?case
    by (simp add: m(1) decode_nonunion build_single_present build_set_def encode_collections)
next
  case (typed_dict kvs t)
  let ?kvs = "map (\<lambda>e. (PStr (fst e), snd e)) kvs"
  from typed_dict obtain m where m: "n = Suc m" "depth t \<le> m" by (cases n) auto
  have "0 < m" using m(2) depth_pos [of t] by simp
  then obtain k where k: "m = Suc k" by (cases m) auto
  have key: "decode m Str_type (PStr s) = Inr (PStr s)" for s by (simp add: k decode_nonunion build_single_present)
  have each: "\<forall>v \<in> set (map snd ?kvs). decode m t v = Inr v \<and> (\<exists>x. encode v = Inr x \<and> decode m t x = Inr v)"
    using typed_dict m(2) by auto
  then obtain xs where xs: "encodes (map snd ?kvs) = Inr xs" "list_all2 (\<lambda>x v. decode m t x = Inr v) xs (map snd ?kvs)"
    using encodes_results [of "map snd ?kvs" "\<lambda>x v. decode m t x = Inr v"] by blast
  have dist: "distinct (dict_keys ([] @ ?kvs))"
    using typed_dict(2) by (simp add: distinct_map inj_on_def)
  have "list_all2 (\<lambda>x e. fst x = fst e \<and> decode m Str_type (fst x) = Inr (fst x) \<and> decode m t (snd x) = Inr (snd e)) ?kvs ?kvs"
    using each key by (auto intro!: list.rel_refl_strong)
  moreover have "list_all2 (\<lambda>x e. fst x = fst e \<and> decode m Str_type (fst x) = Inr (fst x) \<and> decode m t (snd x) = Inr (snd e))
      (zip (map fst ?kvs) xs) ?kvs"
    using xs(2) key by (auto simp: list_all2_conv_all_nth)
  ultimately show ?case
    using dict_of_items_all2 [OF _ dist, where f = "decode m Str_type" and g = "decode m t"] xs(1)
    by (simp add: m(1) decode_nonunion build_single_present build_dict_def encode_collections)
next
  case (typed_dto fs nm ns)
  let ?hs = "map (\<lambda>f. (fst f, fst (snd f))) fs" and ?vs = "map (\<lambda>f. snd (snd f)) fs"
  obtain m where m: "n = Suc m" using typed_dto.prems(2) by (cases n) auto
  have deep: "depth (fst (snd f)) \<le> m" if "f \<in> set fs" for f
    using depth_hint [of nm ns ?hs m "(fst f, fst (snd f))"] typed_dto.prems(2) m that by auto
  have each: "\<forall>f \<in> set fs. decode m (fst (snd f)) (snd (snd f)) = Inr (snd (snd f))
      \<and> (\<exists>x. encode (snd (snd f)) = Inr x \<and> decode m (fst (snd f)) x = Inr (snd (snd f)))"
    using typed_dto deep by auto
  have "model_ge (type_of_model (DTO nm ns fs)) (ModelType nm ns ?hs)"
  proof -
    let ?rs = "map (\<lambda>f. (fst f, type_of (snd (snd f)) (Some (fst (snd f))))) fs"
    have "type_of_model (DTO nm ns fs) = ModelType nm ns ?rs"
      unfolding type_of_model_def by (subst type_of.simps) (simp add: is_union_def)
    moreover have "dict_get ?hs (fst f) = Some (fst (snd f))" if "f \<in> set fs" for f
      using that typed_dto(2) by (intro map_of_is_SomeI) (auto simp: comp_def)
    then have "hints_match ?rs ?hs"
      using typed_dto(1) real_type_matches by (auto simp: hints_match_def)
    ultimately show ?thesis by (simp add: image_image)
  qed
  then have self: "decode n (ModelType nm ns ?hs) (DTO nm ns fs) = Inr (DTO nm ns fs)"
    by (simp add: m decode_nonunion build_single_present build_model_type_def is_dto_def)
  have "\<exists>xs. encodes ?vs = Inr xs \<and> list_all2 (\<lambda>x f. decode m (fst (snd f)) x = Inr (snd (snd f))) xs fs"
    using each
  proof (induction fs)
    case (Cons f fs)
    then obtain xs where "encodes (map (\<lambda>f. snd (snd f)) fs) = Inr xs"
      "list_all2 (\<lambda>x f. decode m (fst (snd f)) x = Inr (snd (snd f))) xs fs" by auto
    with Cons.prems show ?case by auto
  qed simp
  then obtain xs where xs: "encodes ?vs = Inr xs" "list_all2 (\<lambda>x f. decode m (fst (snd f)) x = Inr (snd (snd f))) xs fs" by blast
  let ?d = "zip (map (\<lambda>f. PStr (fst f)) fs) xs" and ?kw = "map (\<lambda>f. (fst f, snd (snd f))) fs"
  have "named_values (decode m) ?hs ?d = Inr ?kw"
    using xs(2) typed_dto(2) dict_get_zip_keys [OF typed_dto(2) list_all2_lengthD [OF xs(2)]]
    by (intro named_values_all2) auto
  moreover have "dto_fields (decode m) ?hs [] ?kw = Inr fs"
  proof (rule dto_fields_named)
    have "dict_get ?kw (fst f) = Some (snd (snd f))" if "f \<in> set fs" for f
      using that typed_dto(2) by (intro map_of_is_SomeI) (auto simp: comp_def)
    with each show "\<forall>f \<in> set fs. decode m (fst (snd f)) (snd (snd f)) = Inr (snd (snd f)) \<and> dict_get ?kw (fst f) = Some (snd (snd f))"
      by blast
  qed
  ultimately have "decode n (ModelType nm ns ?hs) (PDict ?d) = Inr (DTO nm ns fs)"
    using typed_dto(1,3)
    by (auto simp: m decode_nonunion build_single_present build_model_type_def is_dto_def from_model_type_def)
  with self xs(1) show ?case by (auto simp: encode_collections)
next
  case (typed_union t ts v)
  obtain m where m: "n = Suc m" using typed_union.prems(2) depth_pos [of "Union_of ts"] by (cases n) (simp_all del: depth.simps)
  obtain i where i: "i < length ts" "ts ! i = t" using typed_union(1) by (auto simp: in_set_conv_nth)
  have dt: "depth t \<le> n" "clear t" using typed_union depth_alternative [OF typed_union.prems(2) typed_union(1)] by auto
  from typed_union.IH [OF dt(2,1)] obtain x where x: "decode n t v = Inr v" "encode v = Inr x" "decode n t x = Inr v" by blast
  have single: "build_single (decode m) t v = Inr v" "build_single (decode m) t x = Inr v"
    using x typed_union(2) by (simp_all add: m decode_nonunion)
  have "\<exists>e e'. build_single (decode m) (ts ! j) v = Inl e \<and> build_single (decode m) (ts ! j) x = Inl e'" if "j < i" for j
  proof (rule not_read [OF typed_union(3,2) _ _ _ x(2)])
    have "ts ! j \<in> set ts" using that i by simp
    then show "alternatives (ts ! j) = [ts ! j]" "clear (ts ! j)" using typed_union.prems(1) by auto
    show "\<not> reads (ts ! j) t" using typed_union.prems(1) that i by (auto simp: sorted_wrt_iff_nth_less)
  qed
  then have "first_success (\<lambda>t. build_single (decode m) t v) ts = Some v"
    "first_success (\<lambda>t. build_single (decode m) t x) ts = Some v"
    using single i by (auto intro!: first_success_at [of i])
  with x(2) show ?case by (simp add: m decode.simps(2) build_def build_union_data_def)
next
  case (typed_datetime t)
  then show ?case by (cases n) (simp_all add: decode_nonunion build_single_present)
next
  case (typed_timedelta t)
  then show ?case by (cases n) (simp_all add: decode_nonunion build_single_present)
next
  case (typed_date t)
  then show ?case by (cases n) (simp_all add: decode_nonunion build_single_present)
next
  case (typed_time t)
  then show ?case by (cases n) (simp_all add: decode_nonunion build_single_present time_in_range)
next
  case (typed_uuid u)
  then show ?case by (cases n) (simp_all add: decode_nonunion build_single_present uuid_of_str del: power_numeral)
next
  case typed_none
  then show ?case by (cases n) (simp_all add: decode_nonunion build_single_none)
next
  case (typed_bool b)
  then show ?case by (cases n) (simp_all add: decode_nonunion build_single_present)
next
  case (typed_int i)
  then show ?case by (cases n) (simp_all add: decode_nonunion build_single_present)
next
  case (typed_str s)
  then show ?case by (cases n) (simp_all add: decode_nonunion build_single_present)
next
  case (typed_bytes x)
  then show ?case by (cases n) (simp_all add: decode_nonunion build_single_present)
qed

end
