(* ===== verification/Avro_Shapes.thy ===== *)
theory Avro_Shapes
  imports Avro_Decoding
begin

text \<open>
  What comes out of the decoder has the shape of the type, and the recursion of the decoder is bounded
  by the depth of the type, whatever the data is.
\<close>

section \<open>The shape of what is decoded\<close>

fun conforms :: "ty \<Rightarrow> pyval \<Rightarrow> bool" where
  "conforms Date_type v = (value_class v = Date_type \<or> value_class v = Datetime_type)"
| "conforms (List_of t) v = (case v of PList vs \<Rightarrow> (\<forall>x \<in> set vs. conforms t x) | _ \<Rightarrow> False)"
| "conforms (Set_of t) v = (case v of PSet vs \<Rightarrow> (\<forall>x \<in> set vs. conforms t x \<and> hashable x) | _ \<Rightarrow> False)"
| "conforms (Dict_of k t) v = (case v of PDict kvs \<Rightarrow> (\<forall>e \<in> set kvs. value_class (fst e) = Str_type \<and> conforms t (snd e)) | _ \<Rightarrow> False)"
| "conforms (ModelType n ns hs) v = (case v of DTO m ms fs \<Rightarrow> m = n \<and> ms = ns \<and> fst ` set hs \<subseteq> fst ` set fs | _ \<Rightarrow> False)"
| "conforms (Union_of ts) v = (\<exists>t \<in> set ts. conforms t v)"
| "conforms Any_type v = True"
| "conforms (Other_class _) v = False"
| "conforms t v = (value_class v = t)"

definition yields :: "('a \<Rightarrow> 'e + 'b) \<Rightarrow> ('b \<Rightarrow> bool) \<Rightarrow> bool" where
  "yields f P \<longleftrightarrow> (\<forall>x y. f x = Inr y \<longrightarrow> P y)"

lemma yieldsD: "yields f P \<Longrightarrow> f x = Inr y \<Longrightarrow> P y"
  by (simp add: yields_def)

lemma map_result_conforms: "yields f P \<Longrightarrow> map_result f xs = Inr ys \<Longrightarrow> \<forall>y \<in> set ys. P y"
proof (induction xs arbitrary: ys)
  case (Cons x xs)
  then obtain z zs where "f x = Inr z" "map_result f xs = Inr zs" "ys = z # zs" by (simp split: sum.split_asm)
  with Cons.IH [OF Cons.prems(1)] yieldsD [OF Cons.prems(1)] show ?case by simp
qed simp

lemma set_of_items_conforms:
  "yields f P \<Longrightarrow> set_of_items f acc xs = Inr ys \<Longrightarrow> \<forall>y \<in> set acc. P y \<and> hashable y \<Longrightarrow>
   \<forall>y \<in> set ys. P y \<and> hashable y"
proof (induction xs arbitrary: acc)
  case (Cons x xs)
  from Cons.prems(2) obtain y where y: "f x = Inr y" "hashable y"
    "set_of_items f (if \<exists>z \<in> set acc. py_same z y then acc else acc @ [y]) xs = Inr ys"
    by (simp split: sum.split_asm if_split_asm)
  have "P y" using yieldsD [OF Cons.prems(1) y(1)] .
  then show ?case using Cons.prems(3) y(2) by (intro Cons.IH [OF Cons.prems(1) y(3)]) simp
qed simp

lemma set_dict_set: "e \<in> set (dict_set k v d) \<Longrightarrow> e = (k, v) \<or> e \<in> set d"
  by (induction k v d rule: dict_set.induct) (auto split: if_splits)

lemma dict_of_items_conforms:
  "yields f Q \<Longrightarrow> yields g P \<Longrightarrow> dict_of_items f g acc xs = Inr ys \<Longrightarrow> \<forall>e \<in> set acc. Q (fst e) \<and> P (snd e)
   \<Longrightarrow> \<forall>e \<in> set ys. Q (fst e) \<and> P (snd e)"
proof (induction xs arbitrary: acc)
  case (Cons x xs)
  obtain k v where x: "x = (k, v)" by fastforce
  with Cons.prems(3) obtain k' v' where kv: "f k = Inr k'" "g v = Inr v'" "dict_of_items f g (dict_set k' v' acc) xs = Inr ys"
    by (simp split: sum.split_asm)
  have new: "Q k'" "P v'" using yieldsD [OF Cons.prems(1) kv(1)] yieldsD [OF Cons.prems(2) kv(2)] by this
  have "\<forall>e \<in> set (dict_set k' v' acc). Q (fst e) \<and> P (snd e)"
  proof
    fix e assume "e \<in> set (dict_set k' v' acc)"
    from set_dict_set [OF this] show "Q (fst e) \<and> P (snd e)" using new Cons.prems(4) by (elim disjE) simp_all
  qed
  then show ?case by (rule Cons.IH [OF Cons.prems(1,2) kv(3)])
qed simp

lemma dto_fields_names: "dto_fields dec hs args kw = Inr fs \<Longrightarrow> map fst fs = map fst hs"
proof (induction hs arbitrary: args fs)
  case Nil
  then show ?case by (cases args) simp_all
next
  case (Cons h hs)
  obtain n t where h: "h = (n, t)" by fastforce
  with Cons.prems obtain v gs where "dto_fields dec hs (tl args) kw = Inr gs" "fs = (n, t, v) # gs"
    by (auto simp: Let_def split: if_split_asm sum.split_asm)
  with Cons.IH h show ?case by simp
qed

lemma built_by_arguments:
  assumes "build_model_type rec n ns hs d = Inr v" "\<not> (is_dto d \<and> model_ge (type_of_model d) (ModelType n ns hs) \<and> v = d)"
  shows "\<exists>args kw. from_model_type rec n ns hs args kw = Inr v"
proof -
  define named where "named = (case d of
      PDict kvs \<Rightarrow> (case named_values rec hs kvs of Inl e \<Rightarrow> Inl e | Inr kw \<Rightarrow> from_model_type rec n ns hs [] kw)
    | _ \<Rightarrow> Inl DataDecoderTypeException)"
  define positional where "positional = (case positional_values rec hs d of Inl e \<Rightarrow> Inl e | Inr args \<Rightarrow> from_model_type rec n ns hs args [])"
  have "named = Inr v \<or> positional = Inr v"
    using assms unfolding build_model_type_def named_def [symmetric] positional_def [symmetric]
    by (cases named; cases positional) (simp_all split: if_split_asm)
  then show ?thesis
  proof
    assume "named = Inr v"
    then obtain kvs where "(case named_values rec hs kvs of Inl e \<Rightarrow> Inl e | Inr kw \<Rightarrow> from_model_type rec n ns hs [] kw) = Inr v"
      by (cases d) (simp_all add: named_def)
    then show ?thesis by (cases "named_values rec hs kvs") auto
  next
    assume "positional = Inr v"
    then show ?thesis by (cases "positional_values rec hs d") (auto simp: positional_def)
  qed
qed

lemma model_conforms:
  assumes "build_model_type rec n ns hs d = Inr v"
  shows "conforms (ModelType n ns hs) v"
proof -
  consider "is_dto d" "model_ge (type_of_model d) (ModelType n ns hs)" "v = d"
    | args kw where "from_model_type rec n ns hs args kw = Inr v"
    using assms built_by_arguments by metis
  then show ?thesis
  proof cases
    case 1
    then obtain m ms fs where d: "d = DTO m ms fs" by (auto simp: is_dto_def split: pyval.split_asm)
    then have "type_of_model d = ModelType m ms (map (\<lambda>f. (fst f, type_of (snd (snd f)) (Some (fst (snd f))))) fs)"
      unfolding type_of_model_def by (subst type_of.simps) (simp add: is_union_def)
    with 1 d show ?thesis by (auto simp: image_image)
  next
    case (2 args kw)
    then obtain fs where "v = DTO n ns fs" "dto_fields rec hs args kw = Inr fs"
      by (auto simp: from_model_type_def map_sum_Inr split: if_split_asm)
    with dto_fields_names [OF this(2)] show ?thesis by simp (metis list.set_map subset_refl)
  qed
qed

text \<open>The results of the decoders of simple types.\<close>

lemma in_range_result: "in_range lo hi f i = Inr v \<Longrightarrow> \<exists>n. v = f n"
  by (auto simp: in_range_def split: option.split_asm if_split_asm)

lemma scalar_results:
  "build_int d = Inr v \<Longrightarrow> value_class v = Int_type" "build_bool d = Inr v \<Longrightarrow> value_class v = Bool_type"
  "build_string d = Inr v \<Longrightarrow> value_class v = Str_type" "build_bytes d = Inr v \<Longrightarrow> value_class v = Bytes_type"
  "build_uuid d = Inr v \<Longrightarrow> value_class v = Uuid_type"
  by (cases d; force split: option.split_asm sum.split_asm if_split_asm)+

lemma time_results:
  "build_datetime d = Inr v \<Longrightarrow> value_class v = Datetime_type" "build_timedelta d = Inr v \<Longrightarrow> value_class v = Timedelta_type"
  "build_time d = Inr v \<Longrightarrow> value_class v = Time_type"
  "build_date d = Inr v \<Longrightarrow> value_class v = Date_type \<or> value_class v = Datetime_type"
  by (cases d; force dest: in_range_result)+

lemma build_single_conforms:
  assumes "\<forall>t. yields (rec t) (conforms t)" "build_single rec t d = Inr v"
  shows "conforms t v"
proof (cases "absent d")
  case True
  then show ?thesis using assms(2) by (cases t) (auto simp: build_single_def build_typed_def split: if_split_asm)
next
  case False
  note run = assms(2) build_single_present [OF False]
  show ?thesis
  proof (cases t)
    case (List_of s)
    with run obtain xs ys where "map_result (rec s) xs = Inr ys" "v = PList ys"
      by (auto simp: build_list_def map_sum_Inr split: option.split_asm)
    with map_result_conforms [OF assms(1) [rule_format] this(1)] List_of show ?thesis by simp
  next
    case (Set_of s)
    with run obtain xs ys where "set_of_items (rec s) [] xs = Inr ys" "v = PSet ys"
      by (auto simp: build_set_def map_sum_Inr split: option.split_asm)
    with set_of_items_conforms [OF assms(1) [rule_format] this(1)] Set_of show ?thesis by simp
  next
    case (Dict_of k s)
    with run obtain xs ys where "dict_of_items (rec Str_type) (rec s) [] xs = Inr ys" "v = PDict ys"
      by (auto simp: build_dict_def map_sum_Inr split: option.split_asm if_split_asm)
    with dict_of_items_conforms [OF assms(1) [rule_format] assms(1) [rule_format] this(1)] Dict_of show ?thesis by simp
  next
    case (ModelType n ns hs)
    with run show ?thesis using model_conforms by metis
  next
    case (Union_of ts)
    with assms(2) False show ?thesis by (simp add: build_single_def build_typed_def)
  next
    case (Other_class c)
    with assms(2) False show ?thesis by (simp add: build_single_def build_typed_def)
  qed (use run in \<open>simp_all add: scalar_results time_results build_single_def absent_def\<close>)
qed

lemma first_success_Some: "first_success f ts = Some v \<Longrightarrow> \<exists>t \<in> set ts. f t = Inr v"
  by (induction ts) (auto split: sum.split_asm)

lemma decode_conforms_lemma: "decode n t d = Inr v \<Longrightarrow> conforms t v"
proof (induction n arbitrary: t d v)
  case (Suc n)
  have rec: "\<forall>t. yields (decode n t) (conforms t)" using Suc.IH by (simp add: yields_def)
  show ?case
  proof (cases "\<exists>ts. t = Union_of ts")
    case True
    then obtain ts where t: "t = Union_of ts" by blast
    with Suc.prems have "first_success (\<lambda>t. build_single (decode n) t d) ts = Some v"
      by (auto simp: decode.simps(2) build_def build_union_data_def split: option.split_asm)
    from first_success_Some [OF this] build_single_conforms [OF rec] t show ?thesis by auto
  next
    case False
    then have "build_single (decode n) t d = Inr v" using Suc.prems by (cases t) (auto simp: decode.simps(2) build_def)
    then show ?thesis by (rule build_single_conforms [OF rec])
  qed
qed simp

section \<open>How deep the decoder calls itself\<close>

text \<open>Types whose decoding follows the type alone: \<open>Any\<close> is replaced by the hint of the data.\<close>

fun no_any :: "ty \<Rightarrow> bool" where
  "no_any (List_of t) = no_any t"
| "no_any (Set_of t) = no_any t"
| "no_any (Dict_of k t) = (no_any k \<and> no_any t)"
| "no_any (ModelType n ns hs) = (\<forall>h \<in> set hs. no_any (snd h))"
| "no_any (Union_of ts) = (\<forall>t \<in> set ts. no_any t)"
| "no_any Any_type = False"
| "no_any _ = True"

fun parts :: "ty \<Rightarrow> ty list" where
  "parts (List_of t) = [t]"
| "parts (Set_of t) = [t]"
| "parts (Dict_of k t) = [k, t]"
| "parts (ModelType n ns hs) = map snd hs"
| "parts _ = []"

lemma part_shallow: "depth t \<le> Suc n \<Longrightarrow> s \<in> set (parts t) \<Longrightarrow> depth s \<le> n"
  by (cases t) auto

lemma part_no_any: "no_any t \<Longrightarrow> s \<in> set (parts t) \<Longrightarrow> no_any s"
  by (cases t) auto

lemma set_value_cong: "dec t = dec' t \<Longrightarrow> set_value dec p v t = set_value dec' p v t"
  by (rule ext) (simp add: set_value_def split: option.split)

lemma dto_fields_cong: "\<forall>h \<in> set hs. rec (snd h) = rec' (snd h) \<Longrightarrow> dto_fields rec hs args kw = dto_fields rec' hs args kw"
proof (induction hs arbitrary: args)
  case Nil
  show ?case by (cases args) simp_all
next
  case (Cons h hs)
  obtain n t where "h = (n, t)" by fastforce
  then have sv: "set_value rec None None t = set_value rec' None None t" using Cons.prems by (intro set_value_cong) simp
  have ih: "dto_fields rec hs args kw = dto_fields rec' hs args kw" for args using Cons by simp
  show ?case unfolding \<open>h = (n, t)\<close> dto_fields.simps sv ih by (rule refl)
qed

lemma named_values_cong: "\<forall>h \<in> set hs. rec (snd h) = rec' (snd h) \<Longrightarrow> named_values rec hs kvs = named_values rec' hs kvs"
  by (induction hs) (auto split: option.split sum.split)

lemma positional_values_cong:
  "\<forall>h \<in> set hs. rec (snd h) = rec' (snd h) \<Longrightarrow> positional_values rec hs d = positional_values rec' hs d"
  unfolding positional_values_def by (intro list.case_cong refl map_result_cong) auto

lemma build_model_type_cong:
  assumes "\<forall>h \<in> set hs. rec (snd h) = rec' (snd h)"
  shows "build_model_type rec n ns hs d = build_model_type rec' n ns hs d"
proof -
  have "from_model_type rec n ns hs = from_model_type rec' n ns hs"
    unfolding from_model_type_def [abs_def] dto_fields_cong [OF assms] by (rule refl)
  moreover have "named_values rec hs = named_values rec' hs" by (rule ext) (rule named_values_cong [OF assms])
  moreover have "positional_values rec hs = positional_values rec' hs" by (rule ext) (rule positional_values_cong [OF assms])
  ultimately show ?thesis unfolding build_model_type_def by (simp only:)
qed

lemma build_single_cong:
  assumes "t \<noteq> Any_type" "\<forall>s \<in> set (parts t). rec s = rec' s"
  shows "build_single rec t d = build_single rec' t d"
proof (cases t)
  case (ModelType n ns hs)
  then have "\<forall>h \<in> set hs. rec (snd h) = rec' (snd h)" using assms(2) by simp
  then have "build_model_type rec n ns hs d = build_model_type rec' n ns hs d" by (rule build_model_type_cong)
  then show ?thesis by (simp add: ModelType build_single_def build_typed_def)
next
  case (Dict_of k s)
  with assms(2) have same: "rec k = rec' k" "rec s = rec' s" by simp_all
  show ?thesis unfolding Dict_of build_single_def build_typed_def build_dict_def by (simp only: ty.distinct if_False ty.case same)
qed (use assms in \<open>simp_all add: build_single_def build_typed_def build_list_def build_set_def build_dict_def split: option.split\<close>)

lemma decode_limit: "no_any t \<Longrightarrow> depth t \<le> n \<Longrightarrow> depth t \<le> m \<Longrightarrow> decode n t = decode m t"
proof (induction n arbitrary: t m)
  case 0
  with depth_pos [of t] show ?case by simp
next
  case (Suc n)
  obtain k where m: "m = Suc k" using Suc.prems(3) depth_pos [of t] by (cases m) auto
  have single: "build_single (decode n) s d = build_single (decode k) s d"
    if "no_any s" "depth s \<le> Suc n" "depth s \<le> Suc k" for s d
  proof (rule build_single_cong)
    show "s \<noteq> Any_type" using that(1) by auto
    show "\<forall>r \<in> set (parts s). decode n r = decode k r"
      using Suc.IH part_shallow [OF that(2)] part_shallow [OF that(3)] part_no_any [OF that(1)] by blast
  qed
  have first: "first_success f ts = first_success g ts" if "\<forall>s \<in> set ts. f s = g s" for f g :: "ty \<Rightarrow> model_error + pyval" and ts
    using that by (induction ts) (auto split: sum.split)
  show ?case
  proof (cases "\<exists>ts. t = Union_of ts")
    case True
    then obtain ts where t: "t = Union_of ts" by blast
    have "\<forall>s \<in> set ts. build_single (decode n) s d = build_single (decode k) s d" for d
      using single Suc.prems by (auto simp: t m simp del: depth.simps dest: depth_alternative)
    from first [OF this] show ?thesis by (simp add: fun_eq_iff t m decode.simps(2) build_def build_union_data_def)
  next
    case False
    then show ?thesis using single [of t] Suc.prems by (cases t) (auto simp: fun_eq_iff m decode.simps(2) build_def)
  qed
qed

text \<open>Within the limit the decoder does not run out of room: every error is one of the decoder, of Python's
  ranges, or of a set that cannot hold its elements.\<close>

lemma map_result_error: "map_result f xs = Inl e \<Longrightarrow> \<exists>x. f x = Inl e"
  by (induction xs) (auto split: sum.split_asm)

lemma set_of_items_error: "set_of_items f acc xs = Inl e \<Longrightarrow> e = Type_error \<or> (\<exists>x. f x = Inl e)"
  by (induction f acc xs rule: set_of_items.induct) (auto split: sum.split_asm if_split_asm)

lemma dict_of_items_error: "dict_of_items f g acc xs = Inl e \<Longrightarrow> (\<exists>x. f x = Inl e) \<or> (\<exists>x. g x = Inl e)"
  by (induction f g acc xs rule: dict_of_items.induct) (auto split: sum.split_asm)

lemma in_range_error: "in_range lo hi f i = Inl e \<Longrightarrow> e = DataDecoderTypeException \<or> e = Overflow_error"
  by (auto simp: in_range_def split: option.split_asm if_split_asm)

lemma scalar_errors:
  "build_int d \<noteq> Inl Recursion_error" "build_bool d \<noteq> Inl Recursion_error" "build_string d \<noteq> Inl Recursion_error"
  "build_bytes d \<noteq> Inl Recursion_error" "build_uuid d \<noteq> Inl Recursion_error"
  "build_datetime d \<noteq> Inl Recursion_error" "build_timedelta d \<noteq> Inl Recursion_error"
  "build_time d \<noteq> Inl Recursion_error" "build_date d \<noteq> Inl Recursion_error"
  by (cases d; simp add: in_range_def split: option.split sum.split)+

lemma build_single_ends:
  assumes "t \<noteq> Any_type" "\<forall>s \<in> set (parts t). \<forall>d. rec s d \<noteq> Inl Recursion_error"
  shows "build_single rec t d \<noteq> Inl Recursion_error"
proof (cases t)
  case (List_of s)
  with assms(2) map_result_error [of "rec s" _ Recursion_error] show ?thesis
    by (cases "items_of d") (auto simp: build_single_def build_typed_def build_list_def map_sum_def split: sum.splits)
next
  case (Set_of s)
  with assms(2) set_of_items_error [of "rec s" _ _ Recursion_error] show ?thesis
    by (cases "items_of d") (auto simp: build_single_def build_typed_def build_set_def map_sum_def split: sum.splits)
next
  case (Dict_of k s)
  with assms(2) dict_of_items_error [of "rec k" "rec s" _ _ Recursion_error] show ?thesis
    by (cases "mapping_of d") (auto simp: build_single_def build_typed_def build_dict_def map_sum_def split: sum.splits)
next
  case (ModelType n ns hs)
  then show ?thesis
    by (simp add: build_single_def build_typed_def build_model_type_def split: sum.split)
qed (use assms in \<open>simp_all add: build_single_def build_typed_def scalar_errors\<close>)

lemma decode_ends: "no_any t \<Longrightarrow> depth t \<le> n \<Longrightarrow> decode n t d \<noteq> Inl Recursion_error"
proof (induction n arbitrary: t d)
  case 0
  with depth_pos [of t] show ?case by simp
next
  case (Suc n)
  show ?case
  proof (cases "\<exists>ts. t = Union_of ts")
    case True
    then show ?thesis by (auto simp: decode.simps(2) build_def build_union_data_def split: option.split_asm if_split_asm)
  next
    case False
    have "build_single (decode n) t d \<noteq> Inl Recursion_error"
    proof (rule build_single_ends)
      show "t \<noteq> Any_type" using Suc.prems(1) by auto
      show "\<forall>s \<in> set (parts t). \<forall>d. decode n s d \<noteq> Inl Recursion_error"
        using Suc.IH part_shallow [OF Suc.prems(2)] part_no_any [OF Suc.prems(1)] by blast
    qed
    with False show ?thesis by (cases t) (auto simp: decode.simps(2) build_def)
  qed
qed

end
