(* ===== verification/Avro_Properties.thy ===== *)
theory Avro_Properties
  imports Avro_Shapes
begin

text \<open>
  What the serializers promise: a type is read back from its schema, and a model from its schema and
  data together; decoding gives what the type says and ends. Behaviours that are not as meant are
  stated at the end.
\<close>

section \<open>Types and their schemas\<close>

text \<open>Types a schema can say: \<open>Any\<close> only as what a collection holds, \<open>None\<close> not there.\<close>

fun schema_ok :: "ty \<Rightarrow> bool" where
  "schema_ok (List_of t) = (t = Any_type \<or> schema_ok t \<and> t \<noteq> None_type)"
| "schema_ok (Set_of t) = (t = Any_type \<or> schema_ok t \<and> t \<noteq> None_type)"
| "schema_ok (Dict_of k t) = (k = Str_type \<and> (t = Any_type \<or> schema_ok t \<and> t \<noteq> None_type))"
| "schema_ok (ModelType n ns hs) = (distinct (map fst hs) \<and> (\<forall>h \<in> set hs. schema_ok (snd h)))"
| "schema_ok (Union_of ts) = (1 < length ts \<and> distinct ts \<and> (\<forall>t \<in> set ts. schema_ok t \<and> alternatives t = [t]))"
| "schema_ok Any_type = False"
| "schema_ok (Other_class _) = False"
| "schema_ok _ = True"

lemma build_union_distinct:
  assumes "1 < length ts" "distinct ts" "\<forall>t \<in> set ts. alternatives t = [t]"
  shows "build_union ts = Union_of ts"
proof -
  have "concat (map alternatives ts) = ts" using assms(3) by (induction ts) auto
  then have "build_union ts = (case ts of [t] \<Rightarrow> t | us \<Rightarrow> Union_of us)"
    by (simp add: build_union_def uniq_distinct [OF assms(2)])
  with assms(1) show ?thesis by (auto split: list.splits)
qed

definition decode_field :: "schema \<Rightarrow> model_error + string \<times> ty" where
  "decode_field f = (case f of
     Entries g \<Rightarrow> (case dict_get g ''name'' of
         Some (Name m) \<Rightarrow> map_sum id (Pair m) (decode_schema (Entries g))
       | Some _ \<Rightarrow> Inl Type_error
       | None \<Rightarrow> Inl Key_error)
   | _ \<Rightarrow> Inl Type_error)"

definition keyword :: "schema \<Rightarrow> bool" where
  "keyword s \<longleftrightarrow> s \<in> {Name ''array'', Name ''map'', Name ''record''}"

lemma decode_entries:
  "decode_schema (Entries [(''type'', Name ''array''), (''items'', s)]) = map_sum id (\<lambda>t. List_of (element_type t)) (decode_schema s)"
  "decode_schema (Entries [(''type'', Name ''array''), (''items'', s), (''logicalType'', Name ''set'')])
     = map_sum id (\<lambda>t. Set_of (element_type t)) (decode_schema s)"
  "decode_schema (Entries [(''type'', Name ''map''), (''values'', s)]) = map_sum id (\<lambda>t. Dict_of Str_type (element_type t)) (decode_schema s)"
  "\<not> keyword s \<Longrightarrow> decode_schema (Entries [(''name'', Name n), (''type'', s)]) = decode_schema s"
  "decode_schema (Entries [(''name'', Name n), (''namespace'', Name ns), (''type'', Name ''record''), (''fields'', Options fs)])
     = map_sum id (\<lambda>hs. ModelType n (unpatch_namespace ns) (fold (\<lambda>(m, t). dict_set m t) hs [])) (map_result decode_field fs)"
  by (simp_all add: decode_schema.simps logical_class_def keyword_def record_name_def decode_field_def [abs_def])

lemma decode_simple:
  "decode_schema (Name ''null'') = Inr None_type" "decode_schema (Name ''boolean'') = Inr Bool_type"
  "decode_schema (Name ''int'') = Inr Int_type" "decode_schema (Name ''string'') = Inr Str_type"
  "decode_schema (Name ''bytes'') = Inr Bytes_type"
  "decode_schema (logical t ''timestamp-micros'') = Inr Datetime_type" "decode_schema (logical t ''timedelta-micros'') = Inr Timedelta_type"
  "decode_schema (logical t ''date'') = Inr Date_type" "decode_schema (logical t ''time-micros'') = Inr Time_type"
  "decode_schema (logical t ''uuid'') = Inr Uuid_type"
  by (simp_all add: decode_schema.simps simple_type_def logical_def logical_class_def)

lemma fold_dict_set: "distinct (map fst (acc @ hs)) \<Longrightarrow> fold (\<lambda>(m, t). dict_set m t) hs acc = acc @ hs"
proof (induction hs arbitrary: acc)
  case (Cons h hs)
  obtain m t where h: "h = (m, t)" by fastforce
  have "m \<notin> set (map fst acc)" using Cons.prems h by auto
  then have "dict_set m t acc = acc @ [(m, t)]" by (induction acc) auto
  with Cons h show ?case by simp
qed simp

definition reads_back :: "ty \<Rightarrow> schema \<Rightarrow> bool" where
  "reads_back t s \<longleftrightarrow> decode_schema s = Inr t \<and> \<not> keyword s \<and> (alternatives t = [t] \<longrightarrow> (\<forall>xs. s \<noteq> Options xs))"

definition dotless :: "(nat \<Rightarrow> string) \<Rightarrow> bool" where
  "dotless rnd \<longleftrightarrow> (\<forall>k. CHR ''.'' \<notin> set (rnd k))"

lemma logical_simps [simp]: "\<not> keyword (logical a b)" "logical a b \<noteq> Options xs"
  by (simp_all add: logical_def keyword_def)

lemma schema_reads_back:
  "dotless rnd \<Longrightarrow> schema_ok t \<Longrightarrow> \<exists>s k'. encode_schema rnd t k = Inr (s, k') \<and> reads_back t s"
  "dotless rnd \<Longrightarrow> \<forall>t \<in> set ts. schema_ok t \<and> alternatives t = [t] \<Longrightarrow>
    \<exists>ss k'. encode_options rnd ts k = Inr (ss, k') \<and> List.map_filter (\<lambda>s. case decode_schema s of Inr t \<Rightarrow> Some t | Inl _ \<Rightarrow> None) ss = ts"
  "dotless rnd \<Longrightarrow> \<forall>h \<in> set hs. schema_ok (snd h) \<Longrightarrow>
    \<exists>fs k'. encode_fields rnd hs k = Inr (fs, k') \<and> map_result decode_field fs = Inr hs"
proof (induction rnd t k and rnd ts k and rnd hs k rule: encode_schema_encode_options_encode_fields.induct)
  case (1 rnd ts k)
  then obtain ss k' where ss: "encode_options rnd ts k = Inr (ss, k')"
    "List.map_filter (\<lambda>s. case decode_schema s of Inr t \<Rightarrow> Some t | Inl _ \<Rightarrow> None) ss = ts" by auto
  moreover have "ts \<noteq> []" "build_union ts = Union_of ts" using 1(3) build_union_distinct [of ts] by auto
  moreover have "ts \<noteq> [Union_of ts]" using union_not_alone [of ts] by simp
  ultimately show ?case
    by (simp add: reads_back_def decode_schema.simps union_of_options_def keyword_def)
next
  case (13 rnd n ns hs k)
  let ?ns = "if ns = [] then ns else ns @ CHR ''.'' # rnd k"
  have "unpatch_namespace ?ns = ns"
    using 13(2) split_last_dot_append [of "rnd k" ns] by (simp add: unpatch_namespace_def dotless_def)
  moreover obtain fs k' where "encode_fields rnd hs (if ns = [] then k else Suc k) = Inr (fs, k')"
    "map_result decode_field fs = Inr hs" using 13(1) [OF refl refl 13(2)] 13(3) by auto
  moreover have "fold (\<lambda>(m, t). dict_set m t) hs [] = hs" using fold_dict_set [of "[]" hs] 13(3) by simp
  ultimately show ?case by (simp add: Let_def reads_back_def decode_entries keyword_def)
next
  case (14 rnd t k)
  then show ?case
    by (cases "t = Any_type") (auto simp: reads_back_def decode_simple decode_entries keyword_def element_type_def)
next
  case (15 rnd t k)
  then show ?case
    by (cases "t = Any_type") (auto simp: reads_back_def decode_simple decode_entries keyword_def element_type_def)
next
  case (16 rnd l t k)
  then show ?case
    by (cases "t = Any_type") (auto simp: reads_back_def decode_simple decode_entries keyword_def element_type_def)
next
  case (19 rnd t ts k)
  then obtain s k1 ss k2 where "encode_schema rnd t k = Inr (s, k1)" "reads_back t s" "encode_options rnd ts k1 = Inr (ss, k2)"
    "List.map_filter (\<lambda>s. case decode_schema s of Inr t \<Rightarrow> Some t | Inl _ \<Rightarrow> None) ss = ts" "alternatives t = [t]" by fastforce
  moreover have "(case s of Options xs \<Rightarrow> xs | _ \<Rightarrow> [s]) = [s]"
    using calculation(2,5) by (cases s) (auto simp: reads_back_def)
  ultimately show ?case by (simp add: reads_back_def)
next
  case (21 rnd n t hs k)
  then obtain s k1 fs k2 where "encode_schema rnd t k = Inr (s, k1)" "reads_back t s" "encode_fields rnd hs k1 = Inr (fs, k2)"
    "map_result decode_field fs = Inr hs" by fastforce
  moreover have "decode_field (Entries [(''name'', Name n), (''type'', s)]) = map_sum id (Pair n) (decode_schema s)" if "\<not> keyword s" for s
    using that by (simp add: decode_field_def decode_entries)
  ultimately show ?case by (simp add: reads_back_def)
qed (simp_all add: reads_back_def decode_simple, simp_all add: keyword_def)

lemma build_union_one: "alternatives t = [t] \<Longrightarrow> build_union [t] = t"
  by (simp add: build_union_def)

lemma type_of_model_dto: "type_of_model (DTO n ns fs) = ModelType n ns (map (\<lambda>f. (fst f, type_of (snd (snd f)) (Some (fst (snd f))))) fs)"
  unfolding type_of_model_def by (subst type_of.simps) (simp add: is_union_def)

section \<open>Properties\<close>


definition owned_car :: pyval where
  "owned_car = DTO ''Car'' ''cars''
     [(''doors'', Int_type, PInt 3), (''owner'', Union_of [Str_type, None_type], PNone),
      (''years'', List_of Int_type, PList [PInt 1999, PInt 2004])]"

lemma owned_car_type: "type_of_model owned_car = ModelType ''Car'' ''cars''
   [(''doors'', Int_type), (''owner'', Union_of [Str_type, None_type]), (''years'', List_of Int_type)]"
  by (simp add: owned_car_def type_of_model_dto type_of.simps is_union_def build_from_dynamic_def build_union_def only_arg_def union_or_def
      compare_types.simps)

lemma owned_car_typed: "typed owned_car (type_of_model owned_car)"
proof -
  have "typed PNone (Union_of [Str_type, None_type])" by (rule typed_union [of None_type]) (simp_all add: typed_none)
  moreover have "typed (PList [PInt 1999, PInt 2004]) (List_of Int_type)" by (rule typed_list) (simp add: typed_int)
  ultimately show ?thesis
    using typed_dto [of "[(''doors'', Int_type, PInt 3), (''owner'', Union_of [Str_type, None_type], PNone),
      (''years'', List_of Int_type, PList [PInt 1999, PInt 2004])]" "''Car''" "''cars''"]
    by (simp add: owned_car_type) (simp add: owned_car_def typed_int parameter_names_def)
qed




text \<open>C27: whatever the data is, what the decoder returns for a type has the shape of the type: the class of a
  simple type, lists, sets and dictionaries of what their parts say, a model of the name and namespace
  with at least the fields of the type, one of the alternatives of a union.\<close>

theorem decode_conforms:
  assumes "decode limit t d = Inr v"
  shows "conforms t v"
  by (rule decode_conforms_lemma [OF assms])

theorem decode_conforms_witness: "conforms (List_of Int_type) (PList [PInt 12, PInt 1])"
proof (rule decode_conforms)
  show "decode (Suc (Suc 0)) (List_of Int_type) (PList [PStr ''12'', PBool True]) = Inr (PList [PInt 12, PInt 1])"
    by (simp add: decode_nonunion build_single_present build_list_def py_int_def strip_with_def text_spaces_def ascii_spaces_def
        digit_value_def upt_rec)
qed

text \<open>C28: the recursion of the decoder is bounded by the depth of the type, whatever the data is, when the
  type has no \<open>Any\<close>: with that much room the result is the one with any more, and it is never that
  the room ran out.\<close>

theorem decode_terminates:
  assumes "no_any t" "depth t \<le> limit"
  shows "decode limit t d = decode (depth t) t d \<and> decode limit t d \<noteq> Inl Recursion_error"
  using decode_limit [OF assms(1,2) order_refl] decode_ends [OF assms] by simp

theorem decode_terminates_witness:
  "decode 1000 (List_of (Set_of Str_type)) (PList [PList [PStr ''a'']])
     = decode (depth (List_of (Set_of Str_type))) (List_of (Set_of Str_type)) (PList [PList [PStr ''a'']])
   \<and> decode 1000 (List_of (Set_of Str_type)) (PList [PList [PStr ''a'']]) \<noteq> Inl Recursion_error"
  by (rule decode_terminates) simp_all

lemma model_not_hashable: "conforms (ModelType n ns hs) v \<Longrightarrow> \<not> hashable v"
  by (cases v) simp_all

lemma set_of_models_refused: "decode limit (Set_of (ModelType n ns hs)) (PList (x # xs)) \<noteq> Inr v"
proof (cases limit)
  case (Suc k)
  have "set_of_items (decode k (ModelType n ns hs)) [] (x # xs) \<noteq> Inr ys" for ys
    using decode_conforms_lemma [THEN model_not_hashable] by (auto split: sum.split)
  then show ?thesis
    by (simp add: Suc decode_nonunion build_single_present build_set_def map_sum_Inr)
qed simp

lemma wider_field_accepted:
  "decode (Suc k) (ModelType n ns [(f, Int_type)]) (DTO n ns [(f, Union_of [Int_type, Str_type], PStr s)])
     = Inr (DTO n ns [(f, Union_of [Int_type, Str_type], PStr s)])"
proof -
  have "type_of (PStr s) (Some (Union_of [Int_type, Str_type])) = Union_of [Int_type, Str_type]"
    by (simp add: type_of.simps is_union_def build_from_dynamic_def compare_types.simps build_union_def)
  then have "model_ge (type_of_model (DTO n ns [(f, Union_of [Int_type, Str_type], PStr s)])) (ModelType n ns [(f, Int_type)])"
    using compare_member [of Int_type "[Int_type, Str_type]" Int_type] by (simp add: type_of_model_dto hints_match_def)
  then show ?thesis by (simp add: decode_nonunion build_single_present build_model_type_def is_dto_def)
qed

lemma parameter_name_refused:
  assumes "p \<in> set parameter_names"
  shows "decode (Suc (Suc k)) (ModelType n ns [(p, Int_type)]) (PDict [(PStr p, PInt i)]) = Inl DataDecoderTypeException"
  using assms by (simp add: decode_nonunion build_single_present build_model_type_def is_dto_def from_model_type_def positional_values_def)

text \<open>C39: four things the decoder does not as it means to. An instance whose field has a wider hint than
  the type asks for is passed through with a value the type does not allow, as \<open>ModelType.__ge__\<close> compares
  the hints of the fields the wrong way round. A text of digits is read as a number by a union in which
  \<open>int\<close> comes before \<open>str\<close>. A set of models is never decoded, as models have no hash. A field with the
  name of one of the parameters on the way to the constructor cannot be decoded.\<close>

theorem decoder_gaps:
  assumes "py_int text_spaces digits = Some i" "p \<in> set parameter_names"
  shows "decode (Suc k) (ModelType n ns [(f, Int_type)]) (DTO n ns [(f, Union_of [Int_type, Str_type], PStr s)])
       = Inr (DTO n ns [(f, Union_of [Int_type, Str_type], PStr s)])
     \<and> decode (Suc k) (Union_of [Int_type, Str_type]) (PStr digits) = Inr (PInt i)
     \<and> decode limit (Set_of (ModelType n ns hs)) (PList (x # xs)) \<noteq> Inr v
     \<and> decode (Suc (Suc k)) (ModelType n ns [(p, Int_type)]) (PDict [(PStr p, PInt j)]) = Inl DataDecoderTypeException"
proof (intro conjI)
  show "decode (Suc k) (Union_of [Int_type, Str_type]) (PStr digits) = Inr (PInt i)"
    using assms(1) by (simp add: decode.simps(2) build_def build_union_data_def build_single_present)
qed (rule wider_field_accepted set_of_models_refused parameter_name_refused [OF assms(2)])+

theorem decoder_gaps_witness:
  "decode 2 (ModelType ''A'' [] [(''f'', Int_type)]) (DTO ''A'' [] [(''f'', Union_of [Int_type, Str_type], PStr ''x'')])
     = Inr (DTO ''A'' [] [(''f'', Union_of [Int_type, Str_type], PStr ''x'')])
   \<and> decode 2 (Union_of [Int_type, Str_type]) (PStr ''12'') = Inr (PInt 12)
   \<and> decode 9 (Set_of (ModelType ''A'' [] [])) (PList [DTO ''A'' [] []]) \<noteq> Inr (PSet [DTO ''A'' [] []])
   \<and> decode 3 (ModelType ''A'' [] [(''cls'', Int_type)]) (PDict [(PStr ''cls'', PInt 1)]) = Inl DataDecoderTypeException"
  using decoder_gaps [of "''12''" 12 "''cls''" 1 "''A''" "[]" "''f''" "''x''" 9 "[]" "DTO ''A'' [] []" "[]" "PSet [DTO ''A'' [] []]" 1]
  by (simp add: parameter_names_def py_int_def strip_with_def text_spaces_def ascii_spaces_def digit_value_def upt_rec eval_nat_numeral)

end
