(* ===== verification/Configuration.thy ===== *)
theory Configuration
  imports Prelude "HOL-Library.Sublist"
begin

text \<open>
  The configuration of a service (\<open>common/config\<close>): the lookup of dotted keys in the data of a file with
  its overrides (\<open>abc.py\<close>), and what the two versions of the format make of it (\<open>v1.py\<close>, \<open>v2.py\<close>).

  The data of a file is a tree of texts, numbers, truth values, lists and dictionaries with text keys.
  The classes that the configuration names are opaque: \<open>import_module\<close> and what is asked of a class
  (its name, its superclasses) are the record \<open>class_table\<close>, a parameter. A configuration holds the data, the
  named arguments it was made with and the environment of the process.
\<close>

section \<open>Data\<close>

datatype 'c conf = Text string | Number int | Flag bool | Null | Items "'c conf list"
  | Dict "(string \<times> 'c conf) list" | Class 'c

datatype config_error = MinosConfigException | MinosImportException
  | Config_attribute_error | Config_type_error | Config_key_error | Import_error string

record 'c config =
  cf_data :: "'c conf"
  cf_with_environment :: bool
  cf_parameterized :: "(string, 'c conf) dict"
  cf_environ :: "(string, string) dict"
  cf_defaults :: "(string, 'c conf) dict"

record 'c class_table =
  cl_import :: "string \<Rightarrow> config_error + 'c"
  cl_is_class :: "'c \<Rightarrow> bool"
  cl_name :: "'c \<Rightarrow> string"
  cl_is_pool :: "'c \<Rightarrow> bool"
  cl_is_pool_factory :: "'c \<Rightarrow> bool"
  cl_is_injectable :: "'c \<Rightarrow> bool"
  cl_is_buildable :: "'c \<Rightarrow> bool"
  cl_builder :: "'c \<Rightarrow> 'c"
  cl_builder_is_injectable :: "'c \<Rightarrow> bool"
  cl_pool_factory :: 'c

section \<open>Lookup by key\<close>

text \<open>\<open>key.partition(''.'')\<close>, without the separator.\<close>

definition key_head :: "string \<Rightarrow> string" where
  "key_head k = takeWhile (\<lambda>c. c \<noteq> CHR ''.'') k"

definition key_rest :: "string \<Rightarrow> string" where
  "key_rest k = tl (dropWhile (\<lambda>c. c \<noteq> CHR ''.'') k)"

definition full_key :: "string \<Rightarrow> string \<Rightarrow> string" where
  "full_key previous current = dropWhile (\<lambda>c. c = CHR ''.'') (previous @ CHR ''.'' # current)"

text \<open>Named arguments come before variables of the environment.\<close>

definition override :: "(string \<Rightarrow> string option) \<Rightarrow> (string \<Rightarrow> string option) \<Rightarrow> 'c config \<Rightarrow> string \<Rightarrow> 'c conf option" where
  "override par env c full =
     (case Option.bind (par full) (dict_get (cf_parameterized c)) of
        Some v \<Rightarrow> Some v
      | None \<Rightarrow> if cf_with_environment c then map_option Text (Option.bind (env full) (dict_get (cf_environ c))) else None)"

text \<open>\<open>deflt[current] if current in deflt\<close>: the inner option is the sentinel, the outer one an exception.\<close>

fun default_part :: "'c conf option \<Rightarrow> string \<Rightarrow> 'c conf option option" where
  "default_part None k = Some None"
| "default_part (Some (Dict d)) k = Some (dict_get d k)"
| "default_part (Some (Text s)) k = (if sublist k s then None else Some None)"
| "default_part (Some (Items xs)) k = (if Text k \<in> set xs then None else Some None)"
| "default_part (Some _) k = None"

fun data_part :: "'c conf \<Rightarrow> string \<Rightarrow> 'c conf option \<Rightarrow> 'c conf option" where
  "data_part (Dict d) k dp = (case dict_get d k of Some v \<Rightarrow> Some v | None \<Rightarrow> dp)"
| "data_part (Text s) k dp = (if sublist k s then None else dp)"
| "data_part (Items xs) k dp = (if Text k \<in> set xs then None else dp)"
| "data_part _ k dp = None"

fun conf_keys :: "'c conf option \<Rightarrow> string list" where
  "conf_keys (Some (Dict d)) = dict_keys d"
| "conf_keys _ = []"

definition conf_is_dict :: "'c conf \<Rightarrow> bool" where
  "conf_is_dict v = (case v of Dict _ \<Rightarrow> True | _ \<Rightarrow> False)"

definition default_size :: "'c conf option \<Rightarrow> nat" where
  "default_size d = (case d of None \<Rightarrow> 0 | Some v \<Rightarrow> size v)"

lemma size_conf_entry: "dict_get d k = Some v \<Longrightarrow> size v < Suc (size_list (size_prod f size) d)"
proof (induction d)
  case (Cons e d)
  then show ?case by (cases e) (auto split: if_splits)
qed simp

lemma default_part_size: "default_part d k = Some dp \<Longrightarrow> dp \<noteq> None \<Longrightarrow> default_size dp < default_size d"
  by (cases "(d, k)" rule: default_part.cases) (auto simp: default_size_def dest: size_conf_entry split: if_splits)

lemma data_part_size:
  assumes "default_part d k = Some dp" "data_part v k dp = Some p"
  shows "max (size p) (default_size dp) < max (size v) (default_size d)"
proof (cases "dp = None")
  case True
  with assms(2) have "size p < size v"
    by (cases "(v, k, dp)" rule: data_part.cases) (auto dest: size_conf_entry split: if_splits option.splits)
  with True show ?thesis by (simp add: default_size_def)
next
  case False
  then have "default_size dp < default_size d" using default_part_size [OF assms(1)] by simp
  moreover have "size p < size v \<or> dp = Some p"
    using assms(2) by (cases "(v, k, dp)" rule: data_part.cases) (auto dest: size_conf_entry split: if_splits option.splits)
  ultimately show ?thesis by (auto simp: default_size_def)
qed

text \<open>The inner function of \<open>get_by_key\<close>, \<open>None\<close> when it raises. The keys that only the defaults have come
  after those of the data (their order is that of a Python set).\<close>

function get_fn :: "(string \<Rightarrow> string option) \<Rightarrow> (string \<Rightarrow> string option) \<Rightarrow> 'c config \<Rightarrow> string \<Rightarrow> 'c conf \<Rightarrow> string
    \<Rightarrow> 'c conf option \<Rightarrow> 'c conf option" where
  "get_fn par env c k data previous deflt =
     (case override par env c (full_key previous (key_head k)) of
        Some v \<Rightarrow> Some v
      | None \<Rightarrow> (case default_part deflt (key_head k) of
          None \<Rightarrow> None
        | Some dp \<Rightarrow> (case data_part data (key_head k) dp of
            None \<Rightarrow> None
          | Some part \<Rightarrow>
              if key_rest k \<noteq> [] then get_fn par env c (key_rest k) part (full_key previous (key_head k)) dp
              else if conf_is_dict part then
                map_option Dict (those (map (\<lambda>s. map_option (Pair s)
                   (get_fn par env c s part (full_key previous (key_head k)) dp))
                  (conf_keys (Some part) @ filter (\<lambda>s. s \<notin> set (conf_keys (Some part))) (conf_keys dp))))
              else Some part)))"
  by pat_completeness auto
termination
  by (relation "measure (\<lambda>(_, _, _, _, data, _, deflt). max (size data) (default_size deflt))")
    (simp, simp_all only: in_measure prod.case data_part_size)

declare get_fn.simps [simp del]

definition get_by_key :: "(string \<Rightarrow> string option) \<Rightarrow> (string \<Rightarrow> string option) \<Rightarrow> 'c config \<Rightarrow> string \<Rightarrow> config_error + 'c conf" where
  "get_by_key par env c key = (case get_fn par env c key (cf_data c) [] (Some (Dict (cf_defaults c))) of
     None \<Rightarrow> Inl MinosConfigException | Some v \<Rightarrow> Inr v)"

end
