(* ===== verification/Config_Versions.thy ===== *)
theory Config_Versions
  imports Configuration
begin

text \<open>
  The two versions of the configuration format (\<open>common/config/v1.py\<close>, \<open>common/config/v2.py\<close>) and the
  operations of \<open>Config\<close> on top of them. Every operation is a function of the configuration: \<open>get_by_key\<close>
  builds new dictionaries (and \<open>v2.py\<close> copies them), so what the operations remove or replace
  is never the stored data.
\<close>

section \<open>Results\<close>

definition and_then :: "'e + 'a \<Rightarrow> ('a \<Rightarrow> 'e + 'b) \<Rightarrow> 'e + 'b" where
  "and_then r f = (case r of Inl e \<Rightarrow> Inl e | Inr x \<Rightarrow> f x)"

text \<open>\<open>try: ... except MinosConfigException: ...\<close>\<close>

definition or_else :: "config_error + 'a \<Rightarrow> 'a \<Rightarrow> config_error + 'a" where
  "or_else r d = (case r of Inl MinosConfigException \<Rightarrow> Inr d | _ \<Rightarrow> r)"

text \<open>\<open>with suppress(MinosConfigException): ...\<close> around what extends a collection.\<close>

definition suppressing :: "config_error + 'a \<Rightarrow> ('a \<Rightarrow> 'b \<Rightarrow> 'b) \<Rightarrow> 'b \<Rightarrow> config_error + 'b" where
  "suppressing r f acc = (case r of Inl MinosConfigException \<Rightarrow> Inr acc | Inl e \<Rightarrow> Inl e | Inr x \<Rightarrow> Inr (f x acc))"

fun map_all :: "('a \<Rightarrow> 'e + 'b) \<Rightarrow> 'a list \<Rightarrow> 'e + 'b list" where
  "map_all f [] = Inr []"
| "map_all f (x # xs) = and_then (f x) (\<lambda>y. and_then (map_all f xs) (\<lambda>ys. Inr (y # ys)))"

lemma and_then_simps [simp]: "and_then (Inl e) f = Inl e" "and_then (Inr x) f = f x"
  by (simp_all add: and_then_def)

lemma and_then_Inr: "and_then r f = Inr y \<longleftrightarrow> (\<exists>x. r = Inr x \<and> f x = Inr y)"
  by (cases r) simp_all

section \<open>Python operations on the data\<close>

text \<open>\<open>v.get(key)\<close>, \<open>v[key]\<close>, \<open>v[key] = x\<close>, \<open>v.pop(key, None)\<close>, \<open>for x in v\<close>, \<open>v.items()\<close>.\<close>

fun conf_get :: "string \<Rightarrow> 'c conf \<Rightarrow> config_error + 'c conf" where
  "conf_get k (Dict d) = Inr (case dict_get d k of None \<Rightarrow> Null | Some v \<Rightarrow> v)"
| "conf_get k _ = Inl Config_attribute_error"

fun conf_item :: "string \<Rightarrow> 'c conf \<Rightarrow> config_error + 'c conf" where
  "conf_item k (Dict d) = (case dict_get d k of None \<Rightarrow> Inl Config_key_error | Some v \<Rightarrow> Inr v)"
| "conf_item k _ = Inl Config_type_error"

fun conf_set :: "string \<Rightarrow> 'c conf \<Rightarrow> 'c conf \<Rightarrow> config_error + 'c conf" where
  "conf_set k x (Dict d) = Inr (Dict (dict_set k x d))"
| "conf_set k x _ = Inl Config_type_error"

fun conf_pop :: "string \<Rightarrow> 'c conf \<Rightarrow> config_error + 'c conf" where
  "conf_pop k (Dict d) = Inr (Dict (dict_del k d))"
| "conf_pop k (Items xs) = Inl Config_type_error"
| "conf_pop k _ = Inl Config_attribute_error"

fun conf_iter :: "'c conf \<Rightarrow> config_error + 'c conf list" where
  "conf_iter (Items xs) = Inr xs"
| "conf_iter (Text s) = Inr (map (\<lambda>c. Text [c]) s)"
| "conf_iter (Dict d) = Inr (map (\<lambda>e. Text (fst e)) d)"
| "conf_iter _ = Inl Config_type_error"

fun conf_items :: "'c conf \<Rightarrow> config_error + (string \<times> 'c conf) list" where
  "conf_items (Dict d) = Inr d"
| "conf_items _ = Inl Config_attribute_error"

definition letters :: "(char \<times> char) list" where
  "letters = zip ''abcdefghijklmnopqrstuvwxyz'' ''ABCDEFGHIJKLMNOPQRSTUVWXYZ''"

definition lower_char :: "char \<Rightarrow> char" where
  "lower_char c = (case map_of (map (\<lambda>(l, u). (u, l)) letters) c of None \<Rightarrow> c | Some l \<Rightarrow> l)"

definition upper_char :: "char \<Rightarrow> char" where
  "upper_char c = (case map_of letters c of None \<Rightarrow> c | Some u \<Rightarrow> u)"

definition lower :: "string \<Rightarrow> string" where
  "lower = map lower_char"

text \<open>\<open>import_module\<close> of a value: its argument is hashed for the cache and then split.\<close>

fun import_conf :: "'c class_table \<Rightarrow> 'c conf \<Rightarrow> config_error + 'c conf" where
  "import_conf C (Text s) = map_sum id Class (cl_import C s)"
| "import_conf C (Items _) = Inl Config_type_error"
| "import_conf C (Dict _) = Inl Config_type_error"
| "import_conf C _ = Inl Config_attribute_error"

definition import_all :: "'c class_table \<Rightarrow> 'c conf \<Rightarrow> config_error + 'c conf list" where
  "import_all C v = and_then (conf_iter v) (map_all (import_conf C))"

definition import_at :: "'c class_table \<Rightarrow> string \<Rightarrow> 'c conf \<Rightarrow> config_error + 'c conf" where
  "import_at C k v = and_then (conf_item k v) (\<lambda>x. and_then (import_conf C x) (\<lambda>c. conf_set k c v))"

text \<open>\<open>if data.get(key) is not None: data[key] = f(data[key])\<close>\<close>

definition update_present :: "string \<Rightarrow> ('c conf \<Rightarrow> config_error + 'c conf) \<Rightarrow> 'c conf \<Rightarrow> config_error + 'c conf" where
  "update_present k f v = and_then (conf_get k v) (\<lambda>x. if x = Null then Inr v else and_then (f x) (\<lambda>y. conf_set k y v))"

section \<open>Common to both versions\<close>

text \<open>A version of the format gives the names of overrides.\<close>

definition imported_list :: "config_error + 'c conf \<Rightarrow> 'c class_table \<Rightarrow> config_error + 'c conf" where
  "imported_list found C = and_then (or_else found (Items [])) (\<lambda>v. map_sum id Items (import_all C v))"

definition type_by_key :: "config_error + 'c conf \<Rightarrow> 'c class_table \<Rightarrow> config_error + 'c conf" where
  "type_by_key found C = and_then found (import_conf C)"

text \<open>\<open>get_database_by_name\<close> and \<open>get_interface_by_name\<close>, of the dictionary of all of them.\<close>

definition entry_by_name :: "config_error + 'c conf \<Rightarrow> string \<Rightarrow> config_error + 'c conf" where
  "entry_by_name all n = and_then all (\<lambda>v. case v of
     Dict d \<Rightarrow> (case dict_get d n of None \<Rightarrow> Inl MinosConfigException | Some x \<Rightarrow> Inr x)
   | _ \<Rightarrow> Inl Config_type_error)"

definition database_by_name :: "config_error + 'c conf \<Rightarrow> string option \<Rightarrow> config_error + 'c conf" where
  "database_by_name all n = entry_by_name all (case n of None \<Rightarrow> ''default'' | Some n \<Rightarrow> n)"

section \<open>Version 1\<close>

text \<open>The two mappers: every key with its variable and its named argument.\<close>

definition v1_environment_mapper :: "(string, string) dict" where
  "v1_environment_mapper = [
     (''service.name'', ''MINOS_SERVICE_NAME''), (''rest.host'', ''MINOS_REST_HOST''), (''rest.port'', ''MINOS_REST_PORT''),
     (''broker.host'', ''MINOS_BROKER_HOST''), (''broker.port'', ''MINOS_BROKER_PORT''),
     (''broker.queue.host'', ''MINOS_BROKER_QUEUE_HOST''), (''broker.queue.port'', ''MINOS_BROKER_QUEUE_PORT''),
     (''broker.queue.database'', ''MINOS_BROKER_QUEUE_DATABASE''), (''broker.queue.user'', ''MINOS_BROKER_QUEUE_USER''),
     (''broker.queue.password'', ''MINOS_BROKER_QUEUE_PASSWORD''), (''commands.service'', ''MINOS_COMMANDS_SERVICE''),
     (''queries.service'', ''MINOS_QUERIES_SERVICE''), (''repository.host'', ''MINOS_REPOSITORY_HOST''),
     (''repository.port'', ''MINOS_REPOSITORY_PORT''), (''repository.database'', ''MINOS_REPOSITORY_DATABASE''),
     (''repository.user'', ''MINOS_REPOSITORY_USER''), (''repository.password'', ''MINOS_REPOSITORY_PASSWORD''),
     (''snapshot.host'', ''MINOS_SNAPSHOT_HOST''), (''snapshot.port'', ''MINOS_SNAPSHOT_PORT''),
     (''snapshot.database'', ''MINOS_SNAPSHOT_DATABASE''), (''snapshot.user'', ''MINOS_SNAPSHOT_USER''),
     (''snapshot.password'', ''MINOS_SNAPSHOT_PASSWORD''), (''discovery.client'', ''MINOS_DISCOVERY_CLIENT''),
     (''discovery.host'', ''MINOS_DISCOVERY_HOST''), (''discovery.port'', ''MINOS_DISCOVERY_PORT'')]"

definition v1_parameterized_mapper :: "(string, string) dict" where
  "v1_parameterized_mapper = [
     (''service.name'', ''service_name''), (''service.injections'', ''service_injections''), (''rest.host'', ''rest_host''),
     (''rest.port'', ''rest_port''), (''broker.host'', ''broker_host''), (''broker.port'', ''broker_port''),
     (''broker.queue.host'', ''broker_queue_host''), (''broker.queue.port'', ''broker_queue_port''),
     (''broker.queue.database'', ''broker_queue_database''), (''broker.queue.user'', ''broker_queue_user''),
     (''broker.queue.password'', ''broker_queue_password''), (''commands.service'', ''commands_service''),
     (''queries.service'', ''queries_service''), (''saga.broker'', ''saga_broker''), (''saga.port'', ''saga_port''),
     (''repository.host'', ''repository_host''), (''repository.port'', ''repository_port''),
     (''repository.database'', ''repository_database''), (''repository.user'', ''repository_user''),
     (''repository.password'', ''repository_password''), (''snapshot.host'', ''snapshot_host''),
     (''snapshot.port'', ''snapshot_port''), (''snapshot.database'', ''snapshot_database''),
     (''snapshot.user'', ''snapshot_user''), (''snapshot.password'', ''snapshot_password''),
     (''discovery.client'', ''minos_discovery_client''), (''discovery.host'', ''minos_discovery_host''),
     (''discovery.port'', ''minos_discovery_port'')]"

definition v1_get :: "'c config \<Rightarrow> string \<Rightarrow> config_error + 'c conf" where
  "v1_get = get_by_key (dict_get v1_parameterized_mapper) (dict_get v1_environment_mapper)"

definition v1_name :: "'c config \<Rightarrow> config_error + 'c conf" where
  "v1_name c = v1_get c ''service.name''"

definition v1_aggregate :: "'c class_table \<Rightarrow> 'c config \<Rightarrow> config_error + 'c conf" where
  "v1_aggregate C c = and_then (type_by_key (v1_get c ''service.aggregate'') C) (\<lambda>e.
     Inr (Dict [(''entities'', Items [e]), (''repositories'', Dict [])]))"

definition v1_saga :: "'c config \<Rightarrow> config_error + 'c conf" where
  "v1_saga c = and_then (or_else (v1_get c ''saga'') (Dict [])) (conf_pop ''storage'')"

definition v1_raw_injections :: "'c class_table \<Rightarrow> 'c config \<Rightarrow> config_error + 'c conf list" where
  "v1_raw_injections C c = and_then (or_else (v1_get c ''service.injections'') (Items []))
     (\<lambda>v. import_all C (case v of Dict d \<Rightarrow> Items (dict_values d) | _ \<Rightarrow> v))"

text \<open>\<open>issubclass\<close> of every element: an error as soon as one is not a class.\<close>

definition all_classes :: "'c class_table \<Rightarrow> 'c conf list \<Rightarrow> config_error + 'c list" where
  "all_classes C = map_all (\<lambda>v. case v of Class x \<Rightarrow> if cl_is_class C x then Inr x else Inl Config_type_error | _ \<Rightarrow> Inl Config_type_error)"

definition v1_pool_type :: "'c class_table \<Rightarrow> 'c \<Rightarrow> string option" where
  "v1_pool_type C x = (if sublist ''lock'' (lower (cl_name C x)) then Some ''lock''
     else if sublist ''database'' (lower (cl_name C x)) then Some ''database''
     else if sublist ''broker'' (lower (cl_name C x)) then Some ''broker'' else None)"

definition v1_pools :: "'c class_table \<Rightarrow> 'c config \<Rightarrow> config_error + 'c conf" where
  "v1_pools C c = and_then (v1_raw_injections C c) (\<lambda>vs. and_then (all_classes C vs) (\<lambda>xs.
     let pools = filter (cl_is_pool C) xs in
     Inr (if pools = [] then Dict [] else
       Dict [(''factory'', Class (case filter (cl_is_pool_factory C) xs of [] \<Rightarrow> cl_pool_factory C | x # _ \<Rightarrow> x)),
             (''types'', Dict (fold (\<lambda>x types. case v1_pool_type C x of None \<Rightarrow> types | Some k \<Rightarrow> dict_set k (Class x) types) pools []))])))"

definition v1_injections :: "'c class_table \<Rightarrow> 'c config \<Rightarrow> config_error + 'c conf list" where
  "v1_injections C c = and_then (v1_raw_injections C c) (\<lambda>vs. and_then (all_classes C vs) (\<lambda>xs.
     suppressing (and_then (v1_pools C c) (conf_get ''factory''))
       (\<lambda>f acc. if f = Null then acc else f # acc)
       (map Class (filter (\<lambda>x. \<not> (cl_is_pool C x \<or> cl_is_pool_factory C x)) xs))))"

text \<open>\<open>next(port for port in ... if ...)\<close>: every exception on the way is a \<open>MinosConfigException\<close>.\<close>

fun first_port :: "(string \<Rightarrow> bool) \<Rightarrow> 'c conf list \<Rightarrow> 'c conf option" where
  "first_port p [] = None"
| "first_port p (Text s # vs) = (if p (lower s) then Some (Text s) else first_port p vs)"
| "first_port p (v # vs) = None"

definition v1_port :: "(string \<Rightarrow> bool) \<Rightarrow> 'c config \<Rightarrow> config_error + 'c conf" where
  "v1_port p c = (case and_then (v1_get c ''service.services'') conf_iter of
     Inl _ \<Rightarrow> Inl MinosConfigException
   | Inr vs \<Rightarrow> (case first_port p vs of None \<Rightarrow> Inl MinosConfigException | Some v \<Rightarrow> Inr v))"

definition v1_interface_http :: "'c class_table \<Rightarrow> 'c config \<Rightarrow> config_error + 'c conf" where
  "v1_interface_http C c = and_then (v1_port (\<lambda>s. sublist ''http'' s \<or> sublist ''rest'' s) c) (\<lambda>port.
     and_then (or_else (v1_get c ''rest'') (Dict [])) (\<lambda>connector.
     and_then (import_conf C port) (\<lambda>port.
     Inr (Dict [(''port'', port), (''connector'', connector)]))))"

text \<open>The connection of the queue is that of its database, and is taken out.\<close>

definition v1_queue :: "'c conf \<Rightarrow> config_error + 'c conf" where
  "v1_queue q = fold (\<lambda>k r. and_then r (conf_pop k)) [''database'', ''port'', ''host'', ''port'', ''user'', ''password''] (Inr q)"

definition v1_interface_broker :: "'c class_table \<Rightarrow> 'c config \<Rightarrow> config_error + 'c conf" where
  "v1_interface_broker C c = and_then (v1_port (sublist ''broker'') c) (\<lambda>port.
     and_then (or_else (v1_get c ''broker'') (Dict [])) (\<lambda>common.
     and_then (case v1_get c ''broker.queue'' of
         Inl _ \<Rightarrow> conf_set ''queue'' (Dict []) common
       | Inr q \<Rightarrow> and_then (conf_set ''queue'' q common) (\<lambda>common. and_then (v1_queue q) (\<lambda>q. conf_set ''queue'' q common))) (\<lambda>common.
     and_then (import_conf C port) (\<lambda>port.
     Inr (Dict [(''port'', port), (''publisher'', Dict []), (''subscriber'', Dict []), (''common'', common)])))))"

definition v1_interface_periodic :: "'c class_table \<Rightarrow> 'c config \<Rightarrow> config_error + 'c conf" where
  "v1_interface_periodic C c = and_then (v1_port (sublist ''periodic'') c) (\<lambda>port.
     and_then (import_conf C port) (\<lambda>port. Inr (Dict [(''port'', port)])))"

text \<open>Entries that raise a \<open>MinosConfigException\<close> are left out.\<close>

definition available :: "(string \<times> (config_error + 'c conf)) list \<Rightarrow> config_error + 'c conf" where
  "available es = map_sum id Dict (fold (\<lambda>(k, r) acc. and_then acc (suppressing r (dict_set k))) es (Inr []))"

definition v1_interfaces :: "'c class_table \<Rightarrow> 'c config \<Rightarrow> config_error + 'c conf" where
  "v1_interfaces C c = available [(''http'', v1_interface_http C c), (''broker'', v1_interface_broker C c),
     (''periodic'', v1_interface_periodic C c)]"

definition v1_services :: "'c class_table \<Rightarrow> 'c config \<Rightarrow> config_error + 'c conf" where
  "v1_services C c = imported_list (v1_get c ''services'') C"

definition v1_routers :: "'c class_table \<Rightarrow> 'c config \<Rightarrow> config_error + 'c conf" where
  "v1_routers C c = imported_list (v1_get c ''routers'') C"

definition v1_middleware :: "'c class_table \<Rightarrow> 'c config \<Rightarrow> config_error + 'c conf" where
  "v1_middleware C c = imported_list (v1_get c ''middleware'') C"

definition v1_database :: "'c class_table \<Rightarrow> 'c config \<Rightarrow> string \<Rightarrow> config_error + 'c conf" where
  "v1_database C c key = and_then (v1_get c key) (\<lambda>v. and_then (conf_pop ''records'' v) (\<lambda>v. and_then (conf_pop ''retry'' v) (\<lambda>v.
     if ''client'' \<in> set (conf_keys (Some v)) then import_at C ''client'' v else Inr v)))"

definition v1_databases :: "'c class_table \<Rightarrow> 'c config \<Rightarrow> config_error + 'c conf" where
  "v1_databases C c = available [(''broker'', v1_database C c ''broker.queue''), (''event'', v1_database C c ''repository''),
     (''snapshot'', v1_database C c ''snapshot''), (''saga'', v1_database C c ''saga.storage''),
     (''query'', v1_database C c ''query_repository''), (''default'', v1_database C c ''repository'')]"

definition v1_discovery :: "'c class_table \<Rightarrow> 'c config \<Rightarrow> config_error + 'c conf" where
  "v1_discovery C c = and_then (v1_get c ''discovery'') (\<lambda>v.
     and_then (type_by_key (v1_get c ''discovery.client'') C) (\<lambda>x. conf_set ''client'' x v))"

section \<open>Version 2\<close>

definition v2_parameterized_variable :: "string \<Rightarrow> string option" where
  "v2_parameterized_variable k = Some (lower (map (\<lambda>c. if c = CHR ''.'' then CHR ''_'' else c) k))"

definition v2_environment_variable :: "string \<Rightarrow> string option" where
  "v2_environment_variable k = Some (''MINOS_'' @ map upper_char (map (\<lambda>c. if c = CHR ''.'' then CHR ''_'' else c) k))"

definition v2_get :: "'c config \<Rightarrow> string \<Rightarrow> config_error + 'c conf" where
  "v2_get = get_by_key v2_parameterized_variable v2_environment_variable"

definition v2_name :: "'c config \<Rightarrow> config_error + 'c conf" where
  "v2_name c = v2_get c ''name''"

definition v2_databases :: "'c class_table \<Rightarrow> 'c config \<Rightarrow> config_error + 'c conf" where
  "v2_databases C c = and_then (v2_get c ''databases'') (\<lambda>v. and_then (conf_items v) (\<lambda>d.
     map_sum id Dict (map_all (\<lambda>(n, x). map_sum id (Pair n) (update_present ''client'' (import_conf C) x)) d)))"

definition v2_parse_http :: "'c class_table \<Rightarrow> 'c conf \<Rightarrow> config_error + 'c conf" where
  "v2_parse_http C v = and_then (update_present ''port'' (import_conf C) v) (update_present ''connector'' (import_at C ''client''))"

definition v2_parse_broker :: "'c class_table \<Rightarrow> 'c conf \<Rightarrow> config_error + 'c conf" where
  "v2_parse_broker C v =
     and_then (update_present ''port'' (import_conf C) v) (\<lambda>v.
     and_then (update_present ''publisher'' (\<lambda>p.
         and_then (import_at C ''client'' p) (update_present ''queue'' (import_conf C))) v)
       (update_present ''subscriber'' (\<lambda>s.
         and_then (import_at C ''client'' s) (\<lambda>s.
         and_then (update_present ''queue'' (import_conf C) s) (update_present ''validator'' (import_conf C))))))"

definition v2_parse_periodic :: "'c class_table \<Rightarrow> 'c conf \<Rightarrow> config_error + 'c conf" where
  "v2_parse_periodic C v = update_present ''port'' (import_conf C) v"

definition v2_interfaces :: "'c class_table \<Rightarrow> 'c config \<Rightarrow> config_error + 'c conf" where
  "v2_interfaces C c = and_then (v2_get c ''interfaces'') (\<lambda>v.
     and_then (update_present ''http'' (v2_parse_http C) v) (\<lambda>v.
     and_then (update_present ''broker'' (v2_parse_broker C) v) (update_present ''periodic'' (v2_parse_periodic C))))"

definition v2_pools :: "'c class_table \<Rightarrow> 'c config \<Rightarrow> config_error + 'c conf" where
  "v2_pools C c = (case v2_get c ''pools'' of
     Inl _ \<Rightarrow> Inr (Dict [])
   | Inr v \<Rightarrow> and_then (conf_items v) (\<lambda>d.
       and_then (map_all (\<lambda>(n, x). map_sum id (Pair n) (import_conf C x)) d) (\<lambda>types.
       Inr (Dict [(''factory'', Class (cl_pool_factory C)), (''types'', Dict types)]))))"

definition v2_routers :: "'c class_table \<Rightarrow> 'c config \<Rightarrow> config_error + 'c conf" where
  "v2_routers C c = imported_list (v2_get c ''routers'') C"

definition v2_middleware :: "'c class_table \<Rightarrow> 'c config \<Rightarrow> config_error + 'c conf" where
  "v2_middleware C c = imported_list (v2_get c ''middleware'') C"

definition v2_services :: "'c class_table \<Rightarrow> 'c config \<Rightarrow> config_error + 'c conf" where
  "v2_services C c = imported_list (v2_get c ''services'') C"

definition v2_discovery :: "'c class_table \<Rightarrow> 'c config \<Rightarrow> config_error + 'c conf" where
  "v2_discovery C c = and_then (v2_get c ''discovery'') (\<lambda>v. and_then (import_at C ''client'' v) (import_at C ''connector''))"

definition v2_aggregate :: "'c class_table \<Rightarrow> 'c config \<Rightarrow> config_error + 'c conf" where
  "v2_aggregate C c = and_then (v2_get c ''aggregate'') (\<lambda>v. and_then (conf_items v) (\<lambda>d.
     and_then (import_all C (case dict_get d ''entities'' of None \<Rightarrow> Items [] | Some x \<Rightarrow> x)) (\<lambda>es.
     and_then (conf_items (case dict_get d ''repositories'' of None \<Rightarrow> Dict [] | Some x \<Rightarrow> x)) (\<lambda>rs.
     and_then (map_all (\<lambda>(n, x). map_sum id (Pair n) (import_conf C x)) rs) (\<lambda>rs.
     Inr (Dict (dict_set ''repositories'' (Dict rs) (dict_set ''entities'' (Items es) d))))))))"

definition v2_saga :: "'c class_table \<Rightarrow> 'c config \<Rightarrow> config_error + 'c conf" where
  "v2_saga C c = and_then (v2_get c ''saga'') (import_at C ''manager'')"

text \<open>What an injection of the configuration becomes: the class itself, or the builder that stands for it.\<close>

definition v2_injection :: "'c class_table \<Rightarrow> 'c conf \<Rightarrow> config_error + 'c conf" where
  "v2_injection C v = and_then (case v of Dict _ \<Rightarrow> conf_item ''client'' v | _ \<Rightarrow> Inr v) (\<lambda>v. case v of
     Class x \<Rightarrow>
       if \<not> cl_is_class C x then Inl Config_type_error
       else if cl_is_injectable C x then Inr (Class x)
       else if cl_is_buildable C x \<and> cl_builder_is_injectable C x then Inr (Class (cl_builder C x))
       else Inl MinosConfigException
   | _ \<Rightarrow> Inl Config_type_error)"

text \<open>The values of the repositories of the aggregate.\<close>

definition v2_repositories :: "'c class_table \<Rightarrow> 'c config \<Rightarrow> config_error + 'c conf list" where
  "v2_repositories C c = and_then (v2_aggregate C c) (\<lambda>v. and_then (conf_get ''repositories'' v) (\<lambda>r.
     map_sum id dict_values (conf_items r)))"

definition v2_partial_injections :: "'c class_table \<Rightarrow> 'c config \<Rightarrow> config_error + 'c conf list" where
  "v2_partial_injections C c =
     (let interface = (\<lambda>i k. and_then (v2_interfaces C c) (\<lambda>v. and_then (conf_get i v) (conf_get k))) in
      fold (\<lambda>r acc. and_then acc (suppressing r (\<lambda>vs acc. acc @ vs)))
       [map_sum id (\<lambda>v. [v]) (and_then (v2_pools C c) (conf_get ''factory'')),
        map_sum id (\<lambda>v. [v]) (interface ''http'' ''connector''),
        map_sum id (\<lambda>v. [v]) (interface ''broker'' ''publisher''),
        map_sum id (\<lambda>v. [v]) (interface ''broker'' ''subscriber''),
        v2_repositories C c,
        map_sum id (\<lambda>v. [v]) (and_then (v2_discovery C c) (conf_get ''connector'')),
        map_sum id (\<lambda>v. [v]) (and_then (v2_saga C c) (conf_get ''manager'')),
        and_then (v2_get c ''injections'') (import_all C)]
       (Inr []))"

definition v2_injections :: "'c class_table \<Rightarrow> 'c config \<Rightarrow> config_error + 'c conf list" where
  "v2_injections C c = and_then (v2_partial_injections C c) (\<lambda>vs. map_all (v2_injection C) (filter (\<lambda>v. v \<noteq> Null) vs))"

section \<open>The version of a file\<close>

text \<open>\<open>Config(path)\<close>: the data of the file decides the version; \<open>None\<close> is a file that does not exist.\<close>

definition file_version :: "'c conf option \<Rightarrow> config_error + nat" where
  "file_version file = (case file of
     None \<Rightarrow> Inl MinosConfigException
   | Some (Dict d) \<Rightarrow> (case dict_get d ''version'' of
       Some (Number n) \<Rightarrow> Inr (if n = 2 then 2 else 1)
     | Some (Items _) \<Rightarrow> Inl Config_type_error
     | Some (Dict _) \<Rightarrow> Inl Config_type_error
     | _ \<Rightarrow> Inr 1)
   | Some _ \<Rightarrow> Inl Config_attribute_error)"

definition config_get :: "nat \<Rightarrow> 'c config \<Rightarrow> string \<Rightarrow> config_error + 'c conf" where
  "config_get version = (if version = 2 then v2_get else v1_get)"

end
