(* ===== verification/Config_Properties.thy ===== *)
theory Config_Properties
  imports Config_Versions
begin

text \<open>
  What lookups in a configuration give: along a path of the data, with the overrides of the path, and
  that only variables of the environment with the prefix of the framework matter. The locale
  \<open>config_version\<close> is what a version of the format promises of its names; both versions keep it.
\<close>

section \<open>Only the overrides matter\<close>

lemma get_fn_cong:
  "(\<And>k. override par env c k = override par env c' k) \<Longrightarrow> get_fn par env c k v p d = get_fn par env c' k v p d"
proof (induction par env c k v p d rule: get_fn.induct)
  case (1 par env c k v p d)
  show ?case
  proof (cases "override par env c (full_key p (key_head k))")
    case (Some x)
    then have "override par env c' (full_key p (key_head k)) = Some x" using 1(3) by simp
    with Some show ?thesis by (simp add: get_fn.simps [of par env c k v p d] get_fn.simps [of par env c' k v p d])
  next
    case None
    then have none: "override par env c' (full_key p (key_head k)) = None" using 1(3) by simp
    show ?thesis
    proof (cases "Option.bind (default_part d (key_head k)) (\<lambda>dp. map_option (Pair dp) (data_part v (key_head k) dp))")
      case no: None
      then show ?thesis
        by (auto simp: get_fn.simps [of par env c k v p d] get_fn.simps [of par env c' k v p d] None none split: option.splits)
    next
      case (Some r)
      then obtain dp part where r: "default_part d (key_head k) = Some dp" "data_part v (key_head k) dp = Some part"
        by (auto simp: bind_eq_Some_conv)
      have rest: "get_fn par env c (key_rest k) part (full_key p (key_head k)) dp = get_fn par env c' (key_rest k) part (full_key p (key_head k)) dp"
        if "key_rest k \<noteq> []" using 1(1) [OF None r that 1(3)] .
      have entry: "get_fn par env c s part (full_key p (key_head k)) dp = get_fn par env c' s part (full_key p (key_head k)) dp"
        if "key_rest k = []" "conf_is_dict part"
          "s \<in> set (conf_keys (Some part) @ filter (\<lambda>s. s \<notin> set (conf_keys (Some part))) (conf_keys dp))" for s
        using 1(2) [OF None r _ that(2,3) 1(3)] that(1) by simp
      have entries: "map (\<lambda>s. map_option (Pair s) (get_fn par env c s part (full_key p (key_head k)) dp))
            (conf_keys (Some part) @ filter (\<lambda>s. s \<notin> set (conf_keys (Some part))) (conf_keys dp))
          = map (\<lambda>s. map_option (Pair s) (get_fn par env c' s part (full_key p (key_head k)) dp))
            (conf_keys (Some part) @ filter (\<lambda>s. s \<notin> set (conf_keys (Some part))) (conf_keys dp))"
        if "key_rest k = []" "conf_is_dict part" using entry [OF that] by (intro map_cong refl) simp
      show ?thesis
      proof (cases "key_rest k = [] \<and> conf_is_dict part")
        case True
        with entries show ?thesis
          unfolding get_fn.simps [of par env c k v p d] get_fn.simps [of par env c' k v p d]
          by (simp only: None none r option.case simp_thms if_False if_True)
      next
        case False
        with rest show ?thesis
          by (auto simp: get_fn.simps [of par env c k v p d] get_fn.simps [of par env c' k v p d] None none r)
      qed
    qed
  qed
qed

locale config_version =
  fixes par env :: "string \<Rightarrow> string option"
  assumes minos: "env k = Some v \<Longrightarrow> \<exists>s. v = ''MINOS_'' @ s"
begin

text \<open>Variables of the environment that are not named \<open>MINOS_...\<close> have no influence.\<close>

lemma foreign_variables:
  assumes "\<And>s. dict_get e (''MINOS_'' @ s) = dict_get (cf_environ c) (''MINOS_'' @ s)"
  shows "get_by_key par env (c\<lparr>cf_environ := e\<rparr>) k = get_by_key par env c k"
proof -
  have "override par env (c\<lparr>cf_environ := e\<rparr>) f = override par env c f" for f
  proof (cases "env f")
    case (Some v)
    then obtain s where "v = ''MINOS_'' @ s" using minos by blast
    with Some assms [of s] show ?thesis by (simp add: override_def split: option.split)
  qed (simp add: override_def split: option.split)
  then have "get_fn par env (c\<lparr>cf_environ := e\<rparr>) k v p d = get_fn par env c k v p d" for v p d
    by (rule get_fn_cong)
  then show ?thesis by (simp add: get_by_key_def)
qed

text \<open>Without the environment, variables have no influence at all.\<close>

lemma without_environment:
  "\<not> cf_with_environment c \<Longrightarrow> get_by_key par env (c\<lparr>cf_environ := e\<rparr>) k = get_by_key par env c k"
proof -
  assume "\<not> cf_with_environment c"
  then have "override par env (c\<lparr>cf_environ := e\<rparr>) f = override par env c f" for f by (simp add: override_def)
  then have "get_fn par env (c\<lparr>cf_environ := e\<rparr>) k v p d = get_fn par env c k v p d" for v p d
    by (rule get_fn_cong)
  then show ?thesis by (simp add: get_by_key_def)
qed

end

lemma v1_mapper_values: "\<forall>v \<in> snd ` set v1_environment_mapper. \<exists>s. v = ''MINOS_'' @ s"
  by (simp add: v1_environment_mapper_def)

interpretation v1: config_version "dict_get v1_parameterized_mapper" "dict_get v1_environment_mapper"
  by unfold_locales (use v1_mapper_values in \<open>fastforce dest: map_of_SomeD\<close>)

interpretation v2: config_version v2_parameterized_variable v2_environment_variable
  by unfold_locales (auto simp: v2_environment_variable_def)

section \<open>Paths\<close>

definition segment :: "string \<Rightarrow> bool" where
  "segment w \<longleftrightarrow> w \<noteq> [] \<and> CHR ''.'' \<notin> set w"

abbreviation dotted :: "string list \<Rightarrow> string" where
  "dotted \<equiv> join_with CHR ''.''"

fun walk :: "'c conf \<Rightarrow> string list \<Rightarrow> 'c conf option" where
  "walk v [] = Some v"
| "walk (Dict d) (w # ws) = (case dict_get d w of None \<Rightarrow> None | Some x \<Rightarrow> walk x ws)"
| "walk v (w # ws) = None"

lemma takeWhile_dotless: "CHR ''.'' \<notin> set w \<Longrightarrow> takeWhile (\<lambda>c. c \<noteq> CHR ''.'') (w @ CHR ''.'' # r) = w"
  by (induction w) auto

lemma dropWhile_dotless: "CHR ''.'' \<notin> set w \<Longrightarrow> dropWhile (\<lambda>c. c \<noteq> CHR ''.'') (w @ CHR ''.'' # r) = CHR ''.'' # r"
  by (induction w) auto

lemma takeWhile_all: "CHR ''.'' \<notin> set w \<Longrightarrow> takeWhile (\<lambda>c. c \<noteq> CHR ''.'') w = w \<and> dropWhile (\<lambda>c. c \<noteq> CHR ''.'') w = []"
  by (induction w) auto

lemma dotted_Cons: "ws \<noteq> [] \<Longrightarrow> dotted (w # ws) = w @ CHR ''.'' # dotted ws"
  by (cases ws) simp_all

lemma key_parts:
  assumes "segment w"
  shows "key_head (dotted (w # ws)) = w" "key_rest (dotted (w # ws)) = dotted ws"
  using assms by (cases ws; simp add: segment_def key_head_def key_rest_def takeWhile_all takeWhile_dotless dropWhile_dotless)+

lemma dotted_not_Nil: "ws \<noteq> [] \<Longrightarrow> \<forall>w \<in> set ws. segment w \<Longrightarrow> dotted ws \<noteq> []"
  by (cases ws; cases "tl ws") (auto simp: segment_def)

lemma dotted_snoc: "ps \<noteq> [] \<Longrightarrow> dotted (ps @ [w]) = dotted ps @ CHR ''.'' # w"
proof (induction ps)
  case (Cons p ps)
  then show ?case by (cases ps) simp_all
qed simp

lemma full_key_path:
  assumes "segment w" "\<forall>p \<in> set ps. segment p"
  shows "full_key (dotted ps) w = dotted (ps @ [w])"
proof (cases ps)
  case Nil
  with assms(1) show ?thesis by (cases w) (auto simp: full_key_def segment_def)
next
  case (Cons p qs)
  with assms(2) obtain a r where "p = a # r" "a \<noteq> CHR ''.''" by (cases p) (auto simp: segment_def)
  then obtain r' where "dotted ps = a # r'" "a \<noteq> CHR ''.''" using Cons by (cases qs) auto
  then show ?thesis using dotted_snoc [of ps w] Cons by (simp add: full_key_def)
qed

text \<open>One step of a lookup without defaults.\<close>

lemma get_fn_step:
  assumes "segment w" "\<forall>p \<in> set ps. segment p" "\<forall>u \<in> set us. segment u" "override par env c (dotted (ps @ [w])) = None"
  shows "get_fn par env c (dotted (w # us)) v (dotted ps) None =
    (case walk v [w] of None \<Rightarrow> None
     | Some part \<Rightarrow>
         if us \<noteq> [] then get_fn par env c (dotted us) part (dotted (ps @ [w])) None
         else if conf_is_dict part then
           map_option Dict (those (map (\<lambda>s. map_option (Pair s) (get_fn par env c s part (dotted (ps @ [w])) None)) (conf_keys (Some part))))
         else Some part)"
proof -
  have "data_part v w None = walk v [w]" by (cases v) (auto split: option.split)
  moreover have "dotted us \<noteq> [] \<longleftrightarrow> us \<noteq> []" using dotted_not_Nil [OF _ assms(3)] by auto
  ultimately show ?thesis
    unfolding get_fn.simps [of par env c "dotted (w # us)" v "dotted ps" None] key_parts [OF assms(1)]
      full_key_path [OF assms(1,2)] assms(4)
    by (cases "walk v [w]") simp_all
qed

lemma get_fn_walk:
  assumes "\<forall>w \<in> set (ps @ ws @ us). segment w" "us \<noteq> []"
    and "\<forall>n. n < length ws \<longrightarrow> override par env c (dotted (ps @ take (Suc n) ws)) = None"
  shows "get_fn par env c (dotted (ws @ us)) v (dotted ps) None =
    (case walk v ws of None \<Rightarrow> None | Some part \<Rightarrow> get_fn par env c (dotted us) part (dotted (ps @ ws)) None)"
  using assms
proof (induction ws arbitrary: ps v)
  case (Cons w ws)
  have "override par env c (dotted (ps @ [w])) = None" using Cons.prems(3) [rule_format, of 0] by simp
  then have step: "get_fn par env c (dotted (w # ws @ us)) v (dotted ps) None =
      (case walk v [w] of None \<Rightarrow> None | Some part \<Rightarrow> get_fn par env c (dotted (ws @ us)) part (dotted (ps @ [w])) None)"
    using Cons.prems(1,2) by (subst get_fn_step) (auto split: option.split)
  have "\<forall>n < length ws. override par env c (dotted ((ps @ [w]) @ take (Suc n) ws)) = None"
    using Cons.prems(3) by (auto dest: spec [of _ "Suc _"])
  then have rest: "get_fn par env c (dotted (ws @ us)) part (dotted (ps @ [w])) None =
      (case walk part ws of None \<Rightarrow> None | Some part \<Rightarrow> get_fn par env c (dotted us) part (dotted ((ps @ [w]) @ ws)) None)" for part
    using Cons.prems(1,2) by (intro Cons.IH) auto
  show ?case using step rest by (cases v) (auto split: option.split)
qed simp

text \<open>All keys of the data are segments: not empty and without a dot.\<close>

fun tidy :: "'c conf \<Rightarrow> bool" where
  "tidy (Dict d) = (\<forall>e \<in> set d. segment (fst e) \<and> tidy (snd e))"
| "tidy v = True"

lemma tidy_walk: "tidy v \<Longrightarrow> walk v ws = Some x \<Longrightarrow> tidy x"
proof (induction v ws rule: walk.induct)
  case (2 d w ws)
  then obtain y where y: "dict_get d w = Some y" "walk y ws = Some x" by (auto split: option.splits)
  then have "tidy y" using 2(2) by (fastforce dest: map_of_SomeD)
  with 2(1) y show ?case by simp
qed simp_all

lemma get_fn_no_default: "get_fn par env c k v p (Some (Dict [])) = get_fn par env c k v p None"
  unfolding get_fn.simps [of par env c k v p] by (simp split: option.split)

definition found :: "config_error + 'a \<Rightarrow> 'a option" where
  "found r = (case r of Inl _ \<Rightarrow> None | Inr x \<Rightarrow> Some x)"

definition or_missing :: "'a option \<Rightarrow> config_error + 'a" where
  "or_missing x = (case x of None \<Rightarrow> Inl MinosConfigException | Some v \<Rightarrow> Inr v)"

lemma found_or_missing [simp]: "found (or_missing x) = x"
  by (cases x) (simp_all add: found_def or_missing_def)

lemma get_by_key_fn:
  "cf_defaults c = [] \<Longrightarrow> get_by_key par env c (dotted ws) = or_missing (get_fn par env c (dotted ws) (cf_data c) (dotted []) None)"
  by (simp add: get_by_key_def get_fn_no_default or_missing_def)

text \<open>No override of a proper prefix of a path.\<close>

definition prefixes_free :: "(string \<Rightarrow> string option) \<Rightarrow> (string \<Rightarrow> string option) \<Rightarrow> 'c config \<Rightarrow> string list \<Rightarrow> bool" where
  "prefixes_free par env c ws \<longleftrightarrow> (\<forall>n. 0 < n \<and> n < length ws \<longrightarrow> override par env c (dotted (take n ws)) = None)"

lemma get_fn_last:
  assumes "cf_defaults c = []" "\<forall>w \<in> set (ws @ [w]). segment w" "prefixes_free par env c (ws @ [w])"
  shows "get_by_key par env c (dotted (ws @ [w])) = or_missing
    (case walk (cf_data c) ws of None \<Rightarrow> None | Some part \<Rightarrow> get_fn par env c w part (dotted ws) None)"
proof -
  have "override par env c (dotted ([] @ take (Suc n) ws)) = None" if "n < length ws" for n
    using assms(3) that by (auto simp: prefixes_free_def dest!: spec [of _ "Suc n"])
  then show ?thesis
    using get_fn_walk [of "[]" ws "[w]" par env c "cf_data c"] assms(2) by (simp add: get_by_key_fn [OF assms(1)] split: option.split)
qed

lemma walk_append: "walk v (ws @ us) = Option.bind (walk v ws) (\<lambda>x. walk x us)"
  by (induction v ws rule: walk.induct) (auto split: option.split)

lemma lookup_of_path:
  assumes "cf_defaults c = []" "\<forall>w \<in> set (us @ [w]). segment w" "tidy (cf_data c)" "prefixes_free par env c (us @ [w])"
  shows "get_by_key par env c (dotted (us @ [w])) = (case walk (cf_data c) us of None \<Rightarrow> Inl MinosConfigException | Some part \<Rightarrow>
    (case override par env c (dotted (us @ [w])) of
      Some v \<Rightarrow> Inr v
    | None \<Rightarrow> or_missing (case walk part [w] of
        None \<Rightarrow> None
      | Some (Dict d) \<Rightarrow> map_option Dict (those (map (\<lambda>k. map_option (Pair k) (found (get_by_key par env c (dotted (us @ [w, k]))))) (dict_keys d)))
      | Some v \<Rightarrow> Some v)))"
proof (cases "walk (cf_data c) us")
  case None
  then show ?thesis by (simp add: get_fn_last [OF assms(1,2,4)] or_missing_def)
next
  case (Some part)
  have at: "get_by_key par env c (dotted (us @ [w])) = or_missing (get_fn par env c w part (dotted us) None)"
    using get_fn_last [OF assms(1,2,4)] Some by simp
  have full: "full_key (dotted us) w = dotted (us @ [w])" "key_rest w = []" "key_head w = w"
    using assms(2) full_key_path [of w us] key_parts [of w "[]"] by simp_all
  show ?thesis
  proof (cases "override par env c (dotted (us @ [w]))")
    case (Some v)
    have "get_fn par env c w part (dotted us) None = Some v"
      unfolding get_fn.simps [of par env c w part "dotted us" None] full Some by simp
    then show ?thesis using at Some \<open>walk (cf_data c) us = Some part\<close> by (simp add: or_missing_def)
  next
    case None
    have step: "get_fn par env c w part (dotted us) None = (case walk part [w] of None \<Rightarrow> None | Some x \<Rightarrow>
        if conf_is_dict x then map_option Dict (those (map (\<lambda>k. map_option (Pair k) (get_fn par env c k x (dotted (us @ [w])) None)) (conf_keys (Some x))))
        else Some x)"
      using get_fn_step [of w us "[]" par env c part] assms(2) None by (cases "walk part [w]") simp_all
    show ?thesis
    proof (cases "walk part [w]")
      case missing: None
      then show ?thesis using at step None \<open>walk (cf_data c) us = Some part\<close> by simp
    next
      case here: (Some x)
      show ?thesis
      proof (cases "conf_is_dict x")
        case True
        then obtain d where d: "x = Dict d" by (cases x) (simp_all add: conf_is_dict_def)
        have walked: "walk (cf_data c) (us @ [w]) = Some (Dict d)" using Some here d by (simp add: walk_append)
        have "found (get_by_key par env c (dotted (us @ [w, k]))) = get_fn par env c k (Dict d) (dotted (us @ [w])) None"
          if "k \<in> set (dict_keys d)" for k
        proof -
          have "segment k" using tidy_walk [OF assms(3) walked] that by auto
          moreover have "prefixes_free par env c ((us @ [w]) @ [k])"
            using assms(4) None by (auto simp: prefixes_free_def less_Suc_eq)
          ultimately show ?thesis
            using get_fn_last [OF assms(1), of "us @ [w]" k par env] assms(2) walked by simp
        qed
        then have "map (\<lambda>k. map_option (Pair k) (found (get_by_key par env c (dotted (us @ [w, k]))))) (dict_keys d)
            = map (\<lambda>k. map_option (Pair k) (get_fn par env c k (Dict d) (dotted (us @ [w])) None)) (dict_keys d)"
          by (intro map_cong refl) simp
        then show ?thesis
          unfolding at step Some None here d option.case conf.case by (simp only: conf_is_dict_def conf.case if_True conf_keys.simps)
      next
        case False
        with at step None here Some show ?thesis by (cases x) (simp_all add: conf_is_dict_def)
      qed
    qed
  qed
qed

section \<open>What is available\<close>

text \<open>The entries of a version 1 configuration: those whose lookup succeeds.\<close>

lemma suppressing_simps:
  "suppressing (Inr x) f acc = Inr (f x acc)" "suppressing (Inl MinosConfigException) f acc = Inr acc"
  "e \<noteq> MinosConfigException \<Longrightarrow> suppressing (Inl e) f acc = Inl e"
  by (simp_all add: suppressing_def split: config_error.split)

lemma available_fold:
  assumes "distinct (map fst es)" "fold (\<lambda>(k, r) acc. and_then acc (suppressing r (dict_set k))) es (Inr d) = Inr d'"
    and "fst ` set es \<inter> fst ` set d = {}"
  shows "dict_get d' k = (case map_of es k of Some (Inr x) \<Rightarrow> Some x | Some (Inl _) \<Rightarrow> None | None \<Rightarrow> dict_get d k)"
  using assms
proof (induction es arbitrary: d)
  case (Cons e es)
  obtain n r where e: "e = (n, r)" by fastforce
  have raised: "fold (\<lambda>(k, r) acc. and_then acc (suppressing r (dict_set k))) rs (Inl x) = Inl x" for rs and x :: config_error
    by (induction rs) auto
  have fresh: "dict_get d n = None" "map_of es n = None" using Cons.prems e by (auto simp: map_of_eq_None_iff)
  show ?case
  proof (cases r)
    case (Inr x)
    then have "fold (\<lambda>(k, r) acc. and_then acc (suppressing r (dict_set k))) es (Inr (dict_set n x d)) = Inr d'"
      using Cons.prems(2) e by (simp add: suppressing_simps)
    moreover have "fst ` set es \<inter> fst ` set (dict_set n x d) = {}" using Cons.prems e by (auto simp: keys_dict_set)
    ultimately have "dict_get d' k = (case map_of es k of Some (Inr x) \<Rightarrow> Some x | Some (Inl _) \<Rightarrow> None | None \<Rightarrow> dict_get (dict_set n x d) k)"
      using Cons.IH Cons.prems(1) by simp
    then show ?thesis using fresh Inr e by (auto split: option.split)
  next
    case (Inl x)
    then have "x = MinosConfigException" using Cons.prems(2) e by (cases "x = MinosConfigException") (simp_all add: suppressing_simps raised)
    then have "fold (\<lambda>(k, r) acc. and_then acc (suppressing r (dict_set k))) es (Inr d) = Inr d'"
      using Cons.prems(2) e Inl by (simp add: suppressing_simps)
    then have "dict_get d' k = (case map_of es k of Some (Inr x) \<Rightarrow> Some x | Some (Inl _) \<Rightarrow> None | None \<Rightarrow> dict_get d k)"
      using Cons.IH Cons.prems(1,3) by auto
    then show ?thesis using fresh Inl e by (auto split: option.split)
  qed
qed simp

lemma available_get:
  assumes "distinct (map fst es)" "available es = Inr v"
  shows "conf_get k v = Inr (case map_of es k of Some (Inr x) \<Rightarrow> x | _ \<Rightarrow> Null)"
proof -
  obtain d where "v = Dict d" "fold (\<lambda>(k, r) acc. and_then acc (suppressing r (dict_set k))) es (Inr []) = Inr d"
    using assms(2) by (cases "fold (\<lambda>(k, r) acc. and_then acc (suppressing r (dict_set k))) es (Inr [])") (auto simp: available_def)
  with available_fold [OF assms(1) this(2)] show ?thesis by (auto split: option.split sum.split)
qed

text \<open>The default database of version 1 is that of the events, with or without a client.\<close>

lemma v1_default_database:
  "v1_databases C c = Inr v \<Longrightarrow> conf_get ''default'' v = conf_get ''event'' v"
  using available_get [of "[(''broker'', v1_database C c ''broker.queue''), (''event'', v1_database C c ''repository''),
     (''snapshot'', v1_database C c ''snapshot''), (''saga'', v1_database C c ''saga.storage''),
     (''query'', v1_database C c ''query_repository''), (''default'', v1_database C c ''repository'')]" v]
  by (simp add: v1_databases_def)

section \<open>Properties\<close>

text \<open>C29: what a lookup gives, for either version. Let no proper prefix of a dotted key be overridden. If
  the section of the key is missing in the file the lookup raises, also when the key itself is
  overridden. Otherwise an override of the key (a named argument before a variable) is the value; without one a
  dictionary is that of the lookups of its entries, so overrides reach into it, and anything else is the value
  in the file.\<close>

theorem configuration_lookup:
  assumes "cf_defaults c = []" "\<forall>w \<in> set (us @ [w]). segment w" "tidy (cf_data c)" "prefixes_free par env c (us @ [w])"
  shows "get_by_key par env c (dotted (us @ [w])) = (case walk (cf_data c) us of None \<Rightarrow> Inl MinosConfigException | Some part \<Rightarrow>
    (case override par env c (dotted (us @ [w])) of
      Some v \<Rightarrow> Inr v
    | None \<Rightarrow> or_missing (case walk part [w] of
        None \<Rightarrow> None
      | Some (Dict d) \<Rightarrow> map_option Dict (those (map (\<lambda>k. map_option (Pair k) (found (get_by_key par env c (dotted (us @ [w, k]))))) (dict_keys d)))
      | Some v \<Rightarrow> Some v)))"
  by (rule lookup_of_path [OF assms])

definition port_config :: "nat config" where
  "port_config = \<lparr>cf_data = Dict [(''databases'', Dict [(''default'', Dict [(''port'', Number 5432)])])],
     cf_with_environment = True, cf_parameterized = [], cf_environ = [(''MINOS_DATABASES_DEFAULT_PORT'', ''6543'')], cf_defaults = []\<rparr>"

lemma port_override: "override v2_parameterized_variable v2_environment_variable port_config k =
   (if v2_environment_variable k = Some ''MINOS_DATABASES_DEFAULT_PORT'' then Some (Text ''6543'') else None)"
  by (simp add: override_def port_config_def v2_parameterized_variable_def v2_environment_variable_def)

theorem configuration_lookup_witness:
  "v2_get port_config ''databases.default.port'' = Inr (Text ''6543'')"
proof -
  have free: "prefixes_free v2_parameterized_variable v2_environment_variable port_config ([''databases'', ''default''] @ [''port''])"
    by (auto simp: prefixes_free_def port_override v2_environment_variable_def less_Suc_eq upper_char_def letters_def numeral_2_eq_2)
  have set: "override v2_parameterized_variable v2_environment_variable port_config (dotted ([''databases'', ''default''] @ [''port'']))
      = Some (Text ''6543'')"
    by (simp add: port_override v2_environment_variable_def upper_char_def letters_def)
  have part: "walk (cf_data port_config) [''databases'', ''default''] = Some (Dict [(''port'', Number 5432)])"
    and plain: "tidy (cf_data port_config)" "cf_defaults port_config = []"
    by (simp_all add: port_config_def segment_def)
  have "\<forall>w \<in> set ([''databases'', ''default''] @ [''port'']). segment w" by (simp add: segment_def)
  from configuration_lookup [OF plain(2) this plain(1) free]
  show ?thesis unfolding part set option.case v2_get_def by simp
qed

lemma get_by_key_override:
  assumes "segment k" "override par env c k = Some v"
  shows "get_by_key par env c (k @ CHR ''.'' # rest) = Inr v"
proof -
  have "key_head (k @ CHR ''.'' # rest) = k" "full_key [] k = k"
    using assms(1) full_key_path [of k "[]"] by (simp_all add: key_head_def segment_def takeWhile_dotless)
  then show ?thesis by (simp add: get_by_key_def get_fn.simps [of par env c "k @ CHR ''.'' # rest"] assms(2))
qed

lemma those_None: "None \<in> set xs \<Longrightarrow> those xs = None"
  by (induction xs) (auto split: option.split)

lemma dotted_entry_unreadable:
  assumes "segment k" "cf_data c = Dict d" "dict_get d k = Some (Dict e)" "cf_defaults c = []" "\<And>f. override par env c f = None"
    and "n \<in> set (dict_keys e)" "key_head n \<notin> set (dict_keys e)"
  shows "get_by_key par env c k = Inl MinosConfigException"
proof -
  have key: "key_head k = k" "key_rest k = []" using key_parts [OF assms(1), of "[]"] by simp_all
  have "dict_get e (key_head n) = None" using assms(7) by (auto simp: map_of_eq_None_iff)
  then have "get_fn par env c n (Dict e) p None = None" for p
    by (simp add: get_fn.simps [of par env c n] assms(5))
  then have "None \<in> set (map (\<lambda>s. map_option (Pair s) (get_fn par env c s (Dict e) p None)) (dict_keys e))" for p
    using assms(6) by force
  from those_None [OF this] have "get_fn par env c k (Dict d) [] None = None"
    by (simp add: get_fn.simps [of par env c k] key assms(3,5) conf_is_dict_def del: map_map list.map_comp)
  then show ?thesis by (simp add: get_by_key_def assms(2,4) get_fn_no_default)
qed

lemma v2_injections_attribute_error:
  assumes "v2_pools C c = Inr p" "v2_interfaces C c = Inr (Dict d)" "dict_get d ''http'' = None"
  shows "v2_injections C c = Inl Config_attribute_error"
proof -
  have raised: "fold (\<lambda>r acc. and_then acc (suppressing r (\<lambda>vs acc. acc @ vs))) rs (Inl e) = Inl e"
    for rs :: "(config_error + 'a conf list) list" and e by (induction rs) simp_all
  have "\<exists>x. and_then (v2_pools C c) (conf_get ''factory'') = Inr x"
    using assms(1) by (auto simp: v2_pools_def and_then_def split: sum.splits)
  then obtain x where "and_then (v2_pools C c) (conf_get ''factory'') = Inr x" by blast
  then show ?thesis using assms by (simp add: v2_injections_def v2_partial_injections_def Let_def suppressing_def raised)
qed

text \<open>C40: three lookups that do not give what they should. An override of a section stands for every key
  under it, whatever the rest of the key is. A dictionary with a key that contains a dot cannot be read,
  as its keys are looked up as dotted keys again. And with interfaces that have no \<open>http\<close> part the
  injections of a configuration of version 2 end in an \<open>AttributeError\<close>, as only
  \<open>MinosConfigException\<close>s are suppressed.\<close>

theorem configuration_gaps:
  assumes "segment k" "override par env c k = Some v"
    and "segment k'" "cf_data c' = Dict d" "dict_get d k' = Some (Dict e)" "cf_defaults c' = []" "\<And>f. override par env c' f = None"
    and "n \<in> set (dict_keys e)" "key_head n \<notin> set (dict_keys e)"
    and "v2_pools C c2 = Inr p" "v2_interfaces C c2 = Inr (Dict i)" "dict_get i ''http'' = None"
  shows "get_by_key par env c (k @ CHR ''.'' # rest) = Inr v
    \<and> get_by_key par env c' k' = Inl MinosConfigException
    \<and> v2_injections C c2 = Inl Config_attribute_error"
  using get_by_key_override [OF assms(1,2)] dotted_entry_unreadable [OF assms(3-9)] v2_injections_attribute_error [OF assms(10-12)]
  by simp

definition section_config :: "nat config" where
  "section_config = \<lparr>cf_data = Dict [(''discovery'', Dict [(''port'', Number 8080)])],
     cf_with_environment = True, cf_parameterized = [], cf_environ = [(''MINOS_DISCOVERY'', ''consul'')], cf_defaults = []\<rparr>"

definition dotted_config :: "nat config" where
  "dotted_config = \<lparr>cf_data = Dict [(''loggers'', Dict [(''minos.saga'', Text ''debug'')])],
     cf_with_environment = False, cf_parameterized = [], cf_environ = [], cf_defaults = []\<rparr>"

definition periodic_config :: "nat config" where
  "periodic_config = \<lparr>cf_data = Dict [(''interfaces'', Dict [(''periodic'', Dict [])])],
     cf_with_environment = False, cf_parameterized = [], cf_environ = [], cf_defaults = []\<rparr>"

definition no_classes :: "nat class_table" where
  "no_classes = \<lparr>cl_import = (\<lambda>_. Inl MinosImportException), cl_is_class = (\<lambda>_. True), cl_name = (\<lambda>_. []), cl_is_pool = (\<lambda>_. False),
     cl_is_pool_factory = (\<lambda>_. False), cl_is_injectable = (\<lambda>_. True), cl_is_buildable = (\<lambda>_. False), cl_builder = id,
     cl_builder_is_injectable = (\<lambda>_. False), cl_pool_factory = 0\<rparr>"

lemma no_override: "\<not> cf_with_environment c \<Longrightarrow> cf_parameterized c = [] \<Longrightarrow> override par env c f = None"
  by (cases "par f") (simp_all add: override_def)

lemma periodic_lookup:
  "v2_get periodic_config ''interfaces'' = Inr (Dict [(''periodic'', Dict [])])" "v2_get periodic_config ''pools'' = Inl MinosConfigException"
proof -
  have free: "override par env periodic_config f = None" for par env f by (rule no_override) (simp_all add: periodic_config_def)
  have wf: "prefixes_free par env periodic_config ws" for par env ws by (simp add: prefixes_free_def free)
  have data: "cf_data periodic_config = Dict [(''interfaces'', Dict [(''periodic'', Dict [])])]" "cf_defaults periodic_config = []"
    by (simp_all add: periodic_config_def)
  note path = lookup_of_path [OF data(2) _ _ wf, unfolded free data(1)]
  have empty: "get_by_key par env periodic_config (dotted ([''interfaces''] @ [''periodic''])) = Inr (Dict [])" for par env
    by (subst path) (simp_all add: segment_def or_missing_def)
  show "v2_get periodic_config ''interfaces'' = Inr (Dict [(''periodic'', Dict [])])"
    using path [of "[]" "''interfaces''" v2_parameterized_variable v2_environment_variable] empty
    by (simp add: segment_def v2_get_def or_missing_def found_def)
  show "v2_get periodic_config ''pools'' = Inl MinosConfigException"
    using path [of "[]" "''pools''" v2_parameterized_variable v2_environment_variable] by (simp add: segment_def v2_get_def or_missing_def)
qed

theorem configuration_gaps_witness:
  "v2_get section_config ''discovery.port'' = Inr (Text ''consul'')
   \<and> get_by_key v2_parameterized_variable v2_environment_variable dotted_config ''loggers'' = Inl MinosConfigException
   \<and> v2_injections no_classes periodic_config = Inl Config_attribute_error"
proof -
  have a: "segment ''discovery''" "segment ''loggers''" by (simp_all add: segment_def)
  have b: "override v2_parameterized_variable v2_environment_variable section_config ''discovery'' = Some (Text ''consul'')"
    by (simp add: override_def section_config_def v2_parameterized_variable_def v2_environment_variable_def upper_char_def letters_def)
  have c: "cf_data dotted_config = Dict [(''loggers'', Dict [(''minos.saga'', Text ''debug'')])]" "cf_defaults dotted_config = []"
    by (simp_all add: dotted_config_def)
  have d: "override par env dotted_config f = None" for par env f by (rule no_override) (simp_all add: dotted_config_def)
  have p: "v2_pools no_classes periodic_config = Inr (Dict [])" by (simp add: v2_pools_def periodic_lookup)
  have i: "v2_interfaces no_classes periodic_config = Inr (Dict [(''periodic'', Dict [])])"
    by (simp add: v2_interfaces_def periodic_lookup update_present_def v2_parse_periodic_def)
  have "dict_get [(''loggers'', Dict [(''minos.saga'', Text ''debug'')])] ''loggers'' = Some (Dict [(''minos.saga'', Text ''debug'' :: nat conf)])"
    by simp
  from configuration_gaps [OF a(1) b a(2) c(1) this c(2) d _ _ p i, of "''minos.saga''" "''port''"]
  show ?thesis by (simp add: v2_get_def key_head_def)
qed

end
