(* ===== verification/Routing.thy ===== *)
theory Routing
  imports Prelude
begin

text \<open>
  How handlers of requests are declared and found (\<open>networks/decorators\<close>): the \<open>enroute\<close> decorators, the
  metadata of decorated functions with their checks (\<open>definitions\<close>, \<open>callables\<close>), the collection of
  the decorated functions of a service (\<open>collectors.py\<close>) and the table of handlers of all services
  (\<open>factories.py\<close>).

  A service is a list of functions in the order of their names. What functions, checks and
  middleware do is a parameter: an operation on a state \<open>'s\<close> that may raise. Sets of Python are lists without
  repetitions here; functions that run together are run one after the other.
\<close>

section \<open>Decorators\<close>

datatype EnrouteDecoratorKind = Command_kind | Query_kind | Event_kind

definition pre_fn_name :: "EnrouteDecoratorKind \<Rightarrow> string" where
  "pre_fn_name k = (case k of Command_kind \<Rightarrow> ''_pre_command_handle'' | Query_kind \<Rightarrow> ''_pre_query_handle'' | Event_kind \<Rightarrow> ''_pre_event_handle'')"

definition post_fn_name :: "EnrouteDecoratorKind \<Rightarrow> string" where
  "post_fn_name k = (case k of Command_kind \<Rightarrow> ''_post_command_handle'' | Query_kind \<Rightarrow> ''_post_query_handle'' | Event_kind \<Rightarrow> ''_post_event_handle'')"

text \<open>The topic of a broker decorator, the pattern of a periodic one, path and method of a REST one.\<close>

datatype EnrouteDecorator =
    BrokerCommandEnrouteDecorator string | BrokerQueryEnrouteDecorator string | BrokerEventEnrouteDecorator string
  | PeriodicEventEnrouteDecorator string
  | RestCommandEnrouteDecorator string string | RestQueryEnrouteDecorator string string

fun KIND :: "EnrouteDecorator \<Rightarrow> EnrouteDecoratorKind" where
  "KIND (BrokerCommandEnrouteDecorator _) = Command_kind"
| "KIND (BrokerQueryEnrouteDecorator _) = Query_kind"
| "KIND (BrokerEventEnrouteDecorator _) = Event_kind"
| "KIND (PeriodicEventEnrouteDecorator _) = Event_kind"
| "KIND (RestCommandEnrouteDecorator _ _) = Command_kind"
| "KIND (RestQueryEnrouteDecorator _ _) = Query_kind"

text \<open>\<open>tuple(decorator)\<close>; a pattern is a \<open>CronTab\<close>, which is not equal to a text.\<close>

datatype decorator_tuple = Topic string | Crontab string | Path string string

fun tuple_of :: "EnrouteDecorator \<Rightarrow> decorator_tuple" where
  "tuple_of (BrokerCommandEnrouteDecorator t) = Topic t"
| "tuple_of (BrokerQueryEnrouteDecorator t) = Topic t"
| "tuple_of (BrokerEventEnrouteDecorator t) = Topic t"
| "tuple_of (PeriodicEventEnrouteDecorator c) = Crontab c"
| "tuple_of (RestCommandEnrouteDecorator p m) = Path p m"
| "tuple_of (RestQueryEnrouteDecorator p m) = Path p m"

text \<open>\<open>HttpEnrouteDecorator.__init__\<close>: the deprecated \<open>url\<close> stands for a missing path.\<close>

datatype 'e route_error = MinosMultipleEnrouteDecoratorKindsException | MinosRedefinedEnrouteDecoratorException
  | NotSatisfiedCheckerException | CheckResponseException | Decorator_value_error | Raises 'e

definition http_decorator ::
  "(string \<Rightarrow> string \<Rightarrow> EnrouteDecorator) \<Rightarrow> string option \<Rightarrow> string option \<Rightarrow> string option \<Rightarrow> 'e route_error + EnrouteDecorator" where
  "http_decorator cls path method url =
     (case (if path = None then url else path) of
        None \<Rightarrow> Inl Decorator_value_error
      | Some p \<Rightarrow> (case method of None \<Rightarrow> Inl Decorator_value_error | Some m \<Rightarrow> Inr (cls p m)))"

section \<open>Checks\<close>

text \<open>A check: what it computes, whether it is a coroutine, attempts and delay between them. Checks are the same when
  they have the same function, attempts and delay; the function is identified by a name.\<close>

record ('s, 'e, 'q) CheckerMeta =
  ck_name :: string
  ck_func :: "'q \<Rightarrow> ('s, 'e route_error, bool) op"
  ck_coroutine :: bool
  ck_max_attempts :: nat
  ck_delay :: nat

text \<open>The loop of both wrappers, with the waiting as a parameter.\<close>

fun attempts :: "('s, 'e, bool) op \<Rightarrow> ('s, 'e, unit) op \<Rightarrow> nat \<Rightarrow> ('s, 'e, bool) op" where
  "attempts check wait 0 = retE False"
| "attempts check wait (Suc n) = bindE check (\<lambda>satisfied. if satisfied then retE True else thenE wait (attempts check wait n))"

definition run_check :: "(nat \<Rightarrow> ('s, 'e route_error, unit) op) \<Rightarrow> ('s, 'e, 'q) CheckerMeta \<Rightarrow> 'q \<Rightarrow> ('s, 'e route_error, bool) op" where
  "run_check sleep m q = attempts (ck_func m q) (sleep (ck_delay m)) (ck_max_attempts m)"

text \<open>\<open>run_sync\<close> stops at the first check that is not satisfied, \<open>run_async\<close> runs all of them first.\<close>

fun run_sync :: "(nat \<Rightarrow> ('s, 'e route_error, unit) op) \<Rightarrow> ('s, 'e, 'q) CheckerMeta list \<Rightarrow> 'q \<Rightarrow> ('s, 'e route_error, unit) op" where
  "run_sync sleep [] q = retE ()"
| "run_sync sleep (m # ms) q = (if ck_coroutine m then raiseE Decorator_value_error else
     bindE (run_check sleep m q) (\<lambda>satisfied. if satisfied then run_sync sleep ms q else raiseE NotSatisfiedCheckerException))"

fun gather :: "('s, 'e, 'a) op list \<Rightarrow> ('s, 'e, 'a list) op" where
  "gather [] = retE []"
| "gather (m # ms) = bindE m (\<lambda>x. bindE (gather ms) (\<lambda>xs. retE (x # xs)))"

definition run_async :: "(nat \<Rightarrow> ('s, 'e route_error, unit) op) \<Rightarrow> ('s, 'e, 'q) CheckerMeta list \<Rightarrow> 'q \<Rightarrow> ('s, 'e route_error, unit) op" where
  "run_async sleep ms q = bindE (gather (map (\<lambda>m. run_check sleep m q) ms))
     (\<lambda>results. if \<forall>satisfied \<in> set results. satisfied then retE () else raiseE NotSatisfiedCheckerException)"

section \<open>Decorated functions\<close>

record ('s, 'e, 'q, 'r) HandlerMeta =
  hm_func :: "'q \<Rightarrow> ('s, 'e route_error, 'r) op"
  hm_coroutine :: bool
  hm_decorators :: "EnrouteDecorator list"
  hm_checkers :: "('s, 'e, 'q) CheckerMeta list"

definition HandlerMeta_init :: "('q \<Rightarrow> ('s, 'e route_error, 'r) op) \<Rightarrow> bool \<Rightarrow> ('s, 'e, 'q, 'r) HandlerMeta" where
  "HandlerMeta_init f coroutine = \<lparr>hm_func = f, hm_coroutine = coroutine, hm_decorators = [], hm_checkers = []\<rparr>"

text \<open>\<open>add_decorator\<close> compares the kind with that of any decorator the function has.\<close>

definition add_decorator :: "EnrouteDecorator \<Rightarrow> ('s, 'e, 'q, 'r) HandlerMeta \<Rightarrow> 'e route_error + ('s, 'e, 'q, 'r) HandlerMeta" where
  "add_decorator d h = (case hm_decorators h of
     another # _ \<Rightarrow> if KIND another \<noteq> KIND d then Inl MinosMultipleEnrouteDecoratorKindsException
       else Inr (h\<lparr>hm_decorators := hm_decorators h @ (if d \<in> set (hm_decorators h) then [] else [d])\<rparr>)
   | [] \<Rightarrow> Inr (h\<lparr>hm_decorators := [d]\<rparr>))"

definition same_checker :: "('s, 'e, 'q) CheckerMeta \<Rightarrow> ('s, 'e, 'q) CheckerMeta \<Rightarrow> bool" where
  "same_checker m m' \<longleftrightarrow> ck_name m = ck_name m' \<and> ck_max_attempts m = ck_max_attempts m' \<and> ck_delay m = ck_delay m'"

text \<open>\<open>CheckDecorator.__call__\<close>\<close>

definition add_check :: "('s, 'e, 'q) CheckerMeta \<Rightarrow> ('s, 'e, 'q, 'r) HandlerMeta \<Rightarrow> 'e route_error + ('s, 'e, 'q, 'r) HandlerMeta" where
  "add_check m h = (if ck_coroutine m \<and> \<not> hm_coroutine h then Inl Decorator_value_error
     else Inr (h\<lparr>hm_checkers := hm_checkers h @ (if \<exists>m' \<in> set (hm_checkers h). same_checker m m' then [] else [m])\<rparr>))"

text \<open>The wrapper: the checks and then the function.\<close>

definition check_step :: "(nat \<Rightarrow> ('s, 'e route_error, unit) op) \<Rightarrow> ('s, 'e, 'q, 'r) HandlerMeta \<Rightarrow> 'q \<Rightarrow> ('s, 'e route_error, unit) op" where
  "check_step sleep h q = (if hm_coroutine h then run_async sleep (hm_checkers h) q else run_sync sleep (hm_checkers h) q)"

definition wrapper :: "(nat \<Rightarrow> ('s, 'e route_error, unit) op) \<Rightarrow> ('s, 'e, 'q, 'r) HandlerMeta \<Rightarrow> 'q \<Rightarrow> ('s, 'e route_error, 'r) op" where
  "wrapper sleep h q = thenE
     (catchE (check_step sleep h q) (\<lambda>e. case e of NotSatisfiedCheckerException \<Rightarrow> Some (raiseE CheckResponseException) | _ \<Rightarrow> None))
     (hm_func h q)"

section \<open>Services\<close>

text \<open>A member of a service is a decorated function or any other; the functions around handlers by name.\<close>

record ('s, 'e, 'q, 'r) service =
  sc_name :: string
  sc_members :: "(string \<times> ('s, 'e, 'q, 'r) HandlerMeta option) list"
  sc_pre :: "string \<Rightarrow> ('q \<Rightarrow> ('s, 'e route_error, 'q) op) option"
  sc_post :: "string \<Rightarrow> ('r \<Rightarrow> ('s, 'e route_error, 'r) op) option"

text \<open>The collector: names with the decorators of the expected types, those without any left out.\<close>

definition collect_all :: "('s, 'e, 'q, 'r) service \<Rightarrow> (string \<times> ('s, 'e, 'q, 'r) HandlerMeta) list" where
  "collect_all c = List.map_filter (\<lambda>(n, m). map_option (Pair n) m) (sc_members c)"

definition collect_items :: "(EnrouteDecorator \<Rightarrow> bool) \<Rightarrow> ('s, 'e, 'q, 'r) service
    \<Rightarrow> (string \<times> ('s, 'e, 'q, 'r) HandlerMeta \<times> EnrouteDecorator list) list" where
  "collect_items expected c = filter (\<lambda>(n, h, ds). ds \<noteq> []) (map (\<lambda>(n, h). (n, h, filter expected (hm_decorators h))) (collect_all c))"

text \<open>The types the methods of the collector ask for.\<close>

fun is_broker :: "EnrouteDecorator \<Rightarrow> bool" where
  "is_broker (BrokerCommandEnrouteDecorator _) = True"
| "is_broker (BrokerQueryEnrouteDecorator _) = True"
| "is_broker (BrokerEventEnrouteDecorator _) = True"
| "is_broker _ = False"

fun is_rest :: "EnrouteDecorator \<Rightarrow> bool" where
  "is_rest (RestCommandEnrouteDecorator _ _) = True"
| "is_rest (RestQueryEnrouteDecorator _ _) = True"
| "is_rest _ = False"

definition rest_command_query :: "EnrouteDecorator \<Rightarrow> bool" where "rest_command_query = is_rest"
definition broker_command_query_event :: "EnrouteDecorator \<Rightarrow> bool" where "broker_command_query_event = is_broker"
definition broker_command_query :: "EnrouteDecorator \<Rightarrow> bool" where "broker_command_query d \<longleftrightarrow> is_broker d \<and> KIND d \<noteq> Event_kind"
definition broker_event :: "EnrouteDecorator \<Rightarrow> bool" where "broker_event d \<longleftrightarrow> is_broker d \<and> KIND d = Event_kind"
definition periodic_event :: "EnrouteDecorator \<Rightarrow> bool" where "periodic_event d \<longleftrightarrow> \<not> is_broker d \<and> \<not> is_rest d"

section \<open>The table of handlers\<close>

text \<open>A built handler: the function with what runs before and after it, inside the middleware, the first
  of which is the outermost.\<close>

definition around :: "('s, 'e, 'q, 'r) service \<Rightarrow> EnrouteDecorator \<Rightarrow> ('q \<Rightarrow> ('s, 'e route_error, 'r) op) \<Rightarrow> 'q \<Rightarrow> ('s, 'e route_error, 'r) op" where
  "around c d fn q = bindE (case sc_pre c (pre_fn_name (KIND d)) of None \<Rightarrow> retE q | Some pre \<Rightarrow> pre q) (\<lambda>q.
     bindE (fn q) (\<lambda>r. case sc_post c (post_fn_name (KIND d)) of None \<Rightarrow> retE r | Some post \<Rightarrow> post r))"

type_synonym ('s, 'e, 'q, 'r) handler = "'q \<Rightarrow> ('s, 'e route_error, 'r) op"
type_synonym ('s, 'e, 'q, 'r) middleware = "'q \<Rightarrow> ('s, 'e, 'q, 'r) handler \<Rightarrow> ('s, 'e route_error, 'r) op"

definition build_one_method :: "(nat \<Rightarrow> ('s, 'e route_error, unit) op) \<Rightarrow> ('s, 'e, 'q, 'r) middleware list \<Rightarrow> ('s, 'e, 'q, 'r) service
    \<Rightarrow> ('s, 'e, 'q, 'r) HandlerMeta \<Rightarrow> EnrouteDecorator \<Rightarrow> ('s, 'e, 'q, 'r) handler" where
  "build_one_method sleep ms c h d = fold (\<lambda>m inner q. m q inner) (rev ms) (around c d (wrapper sleep h))"

text \<open>Every use of a decorator is a new function, so the sets of handlers have all of them.\<close>

definition add_handler :: "EnrouteDecorator \<Rightarrow> 'h \<Rightarrow> (EnrouteDecorator, 'h list) dict \<Rightarrow> (EnrouteDecorator, 'h list) dict" where
  "add_handler d h t = dict_set d ((case dict_get t d of None \<Rightarrow> [] | Some hs \<Rightarrow> hs) @ [h]) t"

definition uses :: "(EnrouteDecorator \<Rightarrow> bool) \<Rightarrow> ('s, 'e, 'q, 'r) service list
    \<Rightarrow> (EnrouteDecorator \<times> ('s, 'e, 'q, 'r) service \<times> ('s, 'e, 'q, 'r) HandlerMeta) list" where
  "uses expected cs = concat (map (\<lambda>c. concat (map (\<lambda>(n, h, ds). map (\<lambda>d. (d, c, h)) ds) (collect_items expected c))) cs)"

definition build_all_classes :: "(nat \<Rightarrow> ('s, 'e route_error, unit) op) \<Rightarrow> ('s, 'e, 'q, 'r) middleware list
    \<Rightarrow> (EnrouteDecorator \<Rightarrow> bool) \<Rightarrow> ('s, 'e, 'q, 'r) service list \<Rightarrow> (EnrouteDecorator, ('s, 'e, 'q, 'r) handler list) dict" where
  "build_all_classes sleep ms expected cs = fold (\<lambda>(d, c, h). add_handler d (build_one_method sleep ms c h d)) (uses expected cs) []"

text \<open>A table entry answers with the response of the handler, or with those of all handlers of an event.\<close>

datatype 'r answer = One 'r | All "'r list"

definition flatten_handlers :: "EnrouteDecorator \<Rightarrow> ('s, 'e, 'q, 'r) handler list \<Rightarrow> 'e route_error + ('q \<Rightarrow> ('s, 'e route_error, 'r answer) op)" where
  "flatten_handlers d fns = (case fns of
     [fn] \<Rightarrow> Inr (\<lambda>q. bindE (fn q) (\<lambda>r. retE (One r)))
   | _ \<Rightarrow> if KIND d \<noteq> Event_kind then Inl MinosRedefinedEnrouteDecoratorException
       else Inr (\<lambda>q. bindE (gather (map (\<lambda>fn. fn q) fns)) (\<lambda>rs. retE (All rs))))"

fun flatten_all :: "(EnrouteDecorator, ('s, 'e, 'q, 'r) handler list) dict
    \<Rightarrow> 'e route_error + (EnrouteDecorator, 'q \<Rightarrow> ('s, 'e route_error, 'r answer) op) dict" where
  "flatten_all [] = Inr []"
| "flatten_all ((d, fns) # t) = (case flatten_handlers d fns of Inl e \<Rightarrow> Inl e | Inr f \<Rightarrow>
     (case flatten_all t of Inl e \<Rightarrow> Inl e | Inr t' \<Rightarrow> Inr ((d, f) # t')))"

definition validate_not_redefined :: "EnrouteDecorator list \<Rightarrow> bool" where
  "validate_not_redefined ds \<longleftrightarrow> (\<forall>t \<in> set (map tuple_of ds). length (filter (\<lambda>d. tuple_of d = t) ds) \<le> 1)"

definition build_table :: "(nat \<Rightarrow> ('s, 'e route_error, unit) op) \<Rightarrow> ('s, 'e, 'q, 'r) middleware list
    \<Rightarrow> (EnrouteDecorator \<Rightarrow> bool) \<Rightarrow> ('s, 'e, 'q, 'r) service list
    \<Rightarrow> 'e route_error + (EnrouteDecorator, 'q \<Rightarrow> ('s, 'e route_error, 'r answer) op) dict" where
  "build_table sleep ms expected cs = (case flatten_all (build_all_classes sleep ms expected cs) of
     Inl e \<Rightarrow> Inl e
   | Inr t \<Rightarrow> if validate_not_redefined (dict_keys t) then Inr t else Inl MinosRedefinedEnrouteDecoratorException)"

section \<open>Routers\<close>

text \<open>The routers keep the entries of their kind of decorator of the table of all.\<close>

definition rest_router :: "(EnrouteDecorator, 'h) dict \<Rightarrow> (EnrouteDecorator, 'h) dict" where
  "rest_router = filter (\<lambda>(d, _). is_rest d)"

definition broker_router :: "(EnrouteDecorator, 'h) dict \<Rightarrow> (EnrouteDecorator, 'h) dict" where
  "broker_router = filter (\<lambda>(d, _). is_broker d)"

definition periodic_router :: "(EnrouteDecorator, 'h) dict \<Rightarrow> (EnrouteDecorator, 'h) dict" where
  "periodic_router = filter (\<lambda>(d, _). periodic_event d)"

text \<open>\<open>_build_routes\<close>, with the selection of the router.\<close>

definition build_routes :: "((EnrouteDecorator, 'q \<Rightarrow> ('s, 'e route_error, 'r answer) op) dict \<Rightarrow> (EnrouteDecorator, 'q \<Rightarrow> ('s, 'e route_error, 'r answer) op) dict)
    \<Rightarrow> (nat \<Rightarrow> ('s, 'e route_error, unit) op) \<Rightarrow> ('s, 'e, 'q, 'r) middleware list \<Rightarrow> ('s, 'e, 'q, 'r) service list
    \<Rightarrow> 'e route_error + (EnrouteDecorator, 'q \<Rightarrow> ('s, 'e route_error, 'r answer) op) dict" where
  "build_routes filter_routes sleep ms cs = map_sum id filter_routes (build_table sleep ms (\<lambda>_. True) cs)"

end
