(* ===== verification/Routing_Properties.thy ===== *)
theory Routing_Properties
  imports Routing "HOL-Library.Multiset"
begin

text \<open>
  The table of handlers in terms of the uses of decorators, and what checks guarantee: decorated functions keep
  their kinds apart, and the function of a handler is not called while a check is not satisfied.
\<close>

section \<open>Decorated functions\<close>

inductive decorated :: "('s, 'e, 'q, 'r) HandlerMeta \<Rightarrow> bool" where
  decorated_new: "decorated (HandlerMeta_init f coroutine)"
| decorated_decorator: "decorated h \<Longrightarrow> add_decorator d h = Inr h' \<Longrightarrow> decorated h'"
| decorated_check: "decorated h \<Longrightarrow> add_check m h = Inr h' \<Longrightarrow> decorated h'"

lemma add_decorator_adds:
  "add_decorator d h = Inr h' \<Longrightarrow> set (hm_decorators h') = insert d (set (hm_decorators h)) \<and> hm_checkers h' = hm_checkers h
     \<and> hm_coroutine h' = hm_coroutine h \<and> hm_func h' = hm_func h"
  by (auto simp: add_decorator_def split: list.split_asm if_split_asm)

lemma add_check_adds:
  "add_check m h = Inr h' \<Longrightarrow> hm_decorators h' = hm_decorators h \<and> hm_coroutine h' = hm_coroutine h \<and> hm_func h' = hm_func h
     \<and> set (hm_checkers h') \<subseteq> insert m (set (hm_checkers h)) \<and> (ck_coroutine m \<longrightarrow> hm_coroutine h)"
  by (auto simp: add_check_def split: if_split_asm)

lemma decorated_kinds: "decorated h \<Longrightarrow> d \<in> set (hm_decorators h) \<Longrightarrow> d' \<in> set (hm_decorators h) \<Longrightarrow> KIND d = KIND d'"
proof (induction arbitrary: d d' rule: decorated.induct)
  case (decorated_decorator h a h')
  have new: "KIND x = KIND a" if "x \<in> set (hm_decorators h)" for x
  proof (cases "hm_decorators h")
    case (Cons b bs)
    then have "KIND b = KIND a" using decorated_decorator.hyps(2) by (simp add: add_decorator_def split: if_split_asm)
    moreover have "KIND x = KIND b" by (rule decorated_decorator.IH [OF that]) (simp add: Cons)
    ultimately show ?thesis by simp
  qed (use that in simp)
  have kind: "KIND x = KIND a" if "x \<in> set (hm_decorators h')" for x
  proof -
    have "x = a \<or> x \<in> set (hm_decorators h)" using that add_decorator_adds [OF decorated_decorator.hyps(2)] by simp
    then show ?thesis using new [of x] by (elim disjE) simp_all
  qed
  show ?case using kind [OF decorated_decorator.prems(1)] kind [OF decorated_decorator.prems(2)] by simp
next
  case (decorated_check h a h')
  have "hm_decorators h' = hm_decorators h" using add_check_adds [OF decorated_check.hyps(2)] by simp
  then show ?case using decorated_check.prems by (intro decorated_check.IH) simp_all
qed (simp add: HandlerMeta_init_def)

lemma decorated_checks: "decorated h \<Longrightarrow> m \<in> set (hm_checkers h) \<Longrightarrow> ck_coroutine m \<Longrightarrow> hm_coroutine h"
proof (induction arbitrary: m rule: decorated.induct)
  case (decorated_check h a h')
  then show ?case using add_check_adds [OF decorated_check.hyps(2)] by auto
next
  case (decorated_decorator h a h')
  then show ?case using add_decorator_adds [OF decorated_decorator.hyps(2)] by simp
qed (simp add: HandlerMeta_init_def)

section \<open>Checks\<close>

text \<open>Operations that return, and those that return a value that satisfies a predicate.\<close>

definition returns :: "('s, 'e, 'a) op \<Rightarrow> ('a \<Rightarrow> bool) \<Rightarrow> bool" where
  "returns m P \<longleftrightarrow> (\<forall>s. \<exists>x s'. m s = (Inr x, s') \<and> P x)"

lemma returnsE: "returns m P \<Longrightarrow> (\<And>x s'. m s = (Inr x, s') \<Longrightarrow> P x \<Longrightarrow> thesis) \<Longrightarrow> thesis"
  unfolding returns_def by blast

lemma returnsD: "returns m P \<Longrightarrow> \<exists>x s'. m s = (Inr x, s') \<and> P x"
  unfolding returns_def by blast

lemma returns_Not: "returns m Not \<Longrightarrow> m s = (Inr b, s') \<Longrightarrow> \<not> b"
  using returnsD [of m Not s] by auto

lemma returns_weaken: "returns m P \<Longrightarrow> (\<And>x. P x \<Longrightarrow> Q x) \<Longrightarrow> returns m Q"
  unfolding returns_def by blast

lemma attempts_returns: "returns c P \<Longrightarrow> returns w (\<lambda>_. True) \<Longrightarrow> P = (\<lambda>_. True) \<or> P = Not \<Longrightarrow> returns (attempts c w n) P"
proof (induction n)
  case 0
  then show ?case by (auto simp: returns_def)
next
  case (Suc n)
  show ?case unfolding returns_def
  proof
    fix s
    obtain b s1 where b: "c s = (Inr b, s1)" "P b" using Suc.prems(1) by (rule returnsE)
    obtain u s2 where u: "w s1 = (Inr u, s2)" using Suc.prems(2) by (rule returnsE)
    obtain x s3 where "attempts c w n s2 = (Inr x, s3)" "P x" using Suc.IH [OF Suc.prems] by (rule returnsE)
    then show "\<exists>x s'. attempts c w (Suc n) s = (Inr x, s') \<and> P x"
      using b u by (cases b) (auto simp: bindE_apply thenE_apply)
  qed
qed

lemma run_check_returns:
  "returns (ck_func m q) P \<Longrightarrow> returns (sleep (ck_delay m)) (\<lambda>_. True) \<Longrightarrow> P = (\<lambda>_. True) \<or> P = Not \<Longrightarrow> returns (run_check sleep m q) P"
  unfolding run_check_def by (rule attempts_returns)

text \<open>Checks that return, one of which is never satisfied.\<close>

lemma run_sync_refuses:
  assumes "\<forall>m \<in> set ms. returns (run_check sleep m q) (\<lambda>_. True) \<and> \<not> ck_coroutine m"
    and "\<exists>m \<in> set ms. returns (run_check sleep m q) Not"
  shows "\<exists>s'. run_sync sleep ms q s = (Inl NotSatisfiedCheckerException, s')"
  using assms
proof (induction ms arbitrary: s)
  case (Cons m ms)
  have ret: "returns (run_check sleep m q) (\<lambda>_. True)" and sync: "\<not> ck_coroutine m" using Cons.prems(1) by simp_all
  obtain b s1 where b: "run_check sleep m q s = (Inr b, s1)" using ret by (rule returnsE)
  have step: "run_sync sleep (m # ms) q s = (if b then run_sync sleep ms q s1 else (Inl NotSatisfiedCheckerException, s1))"
    using b sync by (simp add: bindE_apply)
  show ?case
  proof (cases b)
    case True
    then have "\<not> returns (run_check sleep m q) Not" using returns_Not [where m = "run_check sleep m q", OF _ b] by auto
    then have "\<exists>n \<in> set ms. returns (run_check sleep n q) Not" using Cons.prems(2) by simp
    then obtain s' where "run_sync sleep ms q s1 = (Inl NotSatisfiedCheckerException, s')" using Cons.IH [of s1] Cons.prems(1) by force
    then show ?thesis using True by (simp only: step if_True) simp
  next
    case False
    then show ?thesis by (simp only: step if_False) simp
  qed
qed simp

lemma gather_total: "\<forall>m \<in> set ms. returns m (\<lambda>_. True) \<Longrightarrow> \<exists>bs s'. gather ms s = (Inr bs, s')"
proof (induction ms arbitrary: s)
  case (Cons m ms)
  have ret: "returns m (\<lambda>_. True)" and rest: "\<forall>m \<in> set ms. returns m (\<lambda>_. True)" using Cons.prems by simp_all
  obtain x s1 where "m s = (Inr x, s1)" using ret by (rule returnsE)
  moreover obtain xs s2 where "gather ms s1 = (Inr xs, s2)" using Cons.IH [OF rest] by blast
  ultimately show ?case by simp
qed simp

lemma gather_returns:
  "\<forall>m \<in> set ms. returns m (\<lambda>_. True) \<Longrightarrow> \<exists>m \<in> set ms. returns m Not \<Longrightarrow> \<exists>bs s'. gather ms s = (Inr bs, s') \<and> False \<in> set bs"
proof (induction ms arbitrary: s)
  case (Cons m ms)
  have ret: "returns m (\<lambda>_. True)" and rest: "\<forall>m \<in> set ms. returns m (\<lambda>_. True)" using Cons.prems(1) by simp_all
  obtain b s1 where b: "m s = (Inr b, s1)" using ret by (rule returnsE)
  show ?case
  proof (cases "returns m Not")
    case True
    then have "\<not> b" using returns_Not [OF True b] by simp
    moreover obtain bs s2 where "gather ms s1 = (Inr bs, s2)" using gather_total [OF rest] by blast
    ultimately show ?thesis using b by simp
  next
    case False
    then have "\<exists>n \<in> set ms. returns n Not" using Cons.prems(2) by simp
    then obtain bs s2 where "gather ms s1 = (Inr bs, s2)" "False \<in> set bs" using Cons.IH [OF rest, of s1] by blast
    then show ?thesis using b by simp
  qed
qed simp

lemma run_async_refuses:
  assumes "\<forall>m \<in> set ms. returns (run_check sleep m q) (\<lambda>_. True)" "\<exists>m \<in> set ms. returns (run_check sleep m q) Not"
  shows "\<exists>s'. run_async sleep ms q s = (Inl NotSatisfiedCheckerException, s')"
proof -
  obtain bs s' where "gather (map (\<lambda>m. run_check sleep m q) ms) s = (Inr bs, s')" "False \<in> set bs"
    using gather_returns [of "map (\<lambda>m. run_check sleep m q) ms" s] assms by auto
  then show ?thesis by (auto simp: run_async_def bindE_apply)
qed

lemma wrapper_refuses:
  assumes "decorated h" "\<forall>m \<in> set (hm_checkers h). returns (ck_func m q) (\<lambda>_. True)" "\<forall>n. returns (sleep n) (\<lambda>_. True)"
    and "m \<in> set (hm_checkers h)" "returns (ck_func m q) Not"
  shows "\<exists>s'. \<forall>f. wrapper sleep (h\<lparr>hm_func := f\<rparr>) q s = (Inl CheckResponseException, s')"
proof -
  have all: "\<forall>m \<in> set (hm_checkers h). returns (run_check sleep m q) (\<lambda>_. True)"
    using assms(2,3) by (auto intro: run_check_returns)
  have no: "\<exists>m \<in> set (hm_checkers h). returns (run_check sleep m q) Not"
    using assms(3-5) by (auto intro!: bexI [of _ m] run_check_returns)
  have "\<exists>s'. check_step sleep h q s = (Inl NotSatisfiedCheckerException, s')"
  proof (cases "hm_coroutine h")
    case True
    then show ?thesis using run_async_refuses [OF all no] by (simp add: check_step_def)
  next
    case False
    then have "\<forall>m \<in> set (hm_checkers h). \<not> ck_coroutine m" using decorated_checks [OF assms(1)] by blast
    then show ?thesis using run_sync_refuses [of "hm_checkers h" sleep q s] all no False by (simp add: check_step_def)
  qed
  then obtain s' where "check_step sleep h q s = (Inl NotSatisfiedCheckerException, s')" by blast
  moreover have "check_step sleep (h\<lparr>hm_func := f\<rparr>) q = check_step sleep h q" for f by (simp add: check_step_def)
  ultimately have "wrapper sleep (h\<lparr>hm_func := f\<rparr>) q s = (Inl CheckResponseException, s')" for f
    by (simp add: wrapper_def thenE_apply catchE_def raiseE_def)
  then show ?thesis by blast
qed

section \<open>The table\<close>

lemma add_handler_snoc:
  assumes "us = map fst ps" "t = map (\<lambda>d. (d, map snd (filter (\<lambda>p. fst p = d) ps))) (uniq us)"
  shows "add_handler d h t = map (\<lambda>e. (e, map snd (filter (\<lambda>p. fst p = e) (ps @ [(d, h)])))) (uniq (us @ [d]))"
proof -
  have keys: "distinct (dict_keys t)" by (simp add: assms(2) comp_def)
  show ?thesis
  proof (cases "d \<in> set us")
    case True
    then have get: "dict_get t d = Some (map snd (filter (\<lambda>p. fst p = d) ps))"
      by (simp add: assms(2) map_of_map_restrict)
    show ?thesis
      unfolding add_handler_def get option.case dict_set_upd [OF get keys]
      using True by (auto simp: assms(2) uniq_snoc)
  next
    case False
    then have "dict_get t d = None" "filter (\<lambda>p. fst p = d) ps = []"
      by (force simp: assms map_of_eq_None_iff filter_empty_conv)+
    then show ?thesis using False by (auto simp: add_handler_def dict_set_new assms(2) uniq_snoc)
  qed
qed

lemma fold_add_handler:
  "fold (\<lambda>p. add_handler (fst p) (snd p)) ps [] = map (\<lambda>d. (d, map snd (filter (\<lambda>p. fst p = d) ps))) (uniq (map fst ps))"
proof (induction ps rule: rev_induct)
  case (snoc p ps)
  then show ?case using add_handler_snoc [OF refl refl, of "fst p" "snd p" ps] by simp
qed simp

text \<open>The uses of a decorator twice, unless for an event, and of two decorators with the same tuple.\<close>

definition ambiguous :: "EnrouteDecorator list \<Rightarrow> bool" where
  "ambiguous ds \<longleftrightarrow> (\<exists>d \<in> set ds. KIND d \<noteq> Event_kind \<and> 1 < length (filter (\<lambda>e. e = d) ds))
     \<or> (\<exists>d \<in> set ds. \<exists>e \<in> set ds. d \<noteq> e \<and> tuple_of d = tuple_of e)"

definition answer_of :: "('s, 'e, 'q, 'r) handler list \<Rightarrow> 'q \<Rightarrow> ('s, 'e route_error, 'r answer) op" where
  "answer_of fns q = (case fns of
     [fn] \<Rightarrow> bindE (fn q) (\<lambda>r. retE (One r))
   | _ \<Rightarrow> bindE (gather (map (\<lambda>fn. fn q) fns)) (\<lambda>rs. retE (All rs)))"

lemma flatten_handlers_cases:
  "fns \<noteq> [] \<Longrightarrow> flatten_handlers d fns = (if KIND d \<noteq> Event_kind \<and> 1 < length fns then Inl MinosRedefinedEnrouteDecoratorException
     else Inr (answer_of fns))"
  by (auto simp: flatten_handlers_def answer_of_def [abs_def] split: list.split)

lemma flatten_all_cases:
  "\<forall>(d, fns) \<in> set t. fns \<noteq> [] \<Longrightarrow> flatten_all t = (if \<exists>(d, fns) \<in> set t. KIND d \<noteq> Event_kind \<and> 1 < length fns
     then Inl MinosRedefinedEnrouteDecoratorException else Inr (map (\<lambda>(d, fns). (d, answer_of fns)) t))"
  by (induction t rule: flatten_all.induct) (auto simp: flatten_handlers_cases)

lemma filter_two: "distinct ds \<Longrightarrow> (1 < length (filter P ds)) = (\<exists>d \<in> set ds. \<exists>e \<in> set ds. d \<noteq> e \<and> P d \<and> P e)"
proof (induction ds)
  case (Cons a ds)
  have "filter P ds = [] \<longleftrightarrow> (\<forall>d \<in> set ds. \<not> P d)" by (simp add: filter_empty_conv)
  with Cons show ?case by (auto simp: length_greater_0_conv [symmetric] simp del: length_greater_0_conv)
qed simp

lemma validate_iff:
  assumes "distinct ds"
  shows "validate_not_redefined ds \<longleftrightarrow> \<not> (\<exists>d \<in> set ds. \<exists>e \<in> set ds. d \<noteq> e \<and> tuple_of d = tuple_of e)"
proof -
  have "length (filter (\<lambda>d. tuple_of d = t) ds) \<le> 1 \<longleftrightarrow> \<not> (\<exists>d \<in> set ds. \<exists>e \<in> set ds. d \<noteq> e \<and> tuple_of d = t \<and> tuple_of e = t)" for t
    using filter_two [OF assms, of "\<lambda>d. tuple_of d = t"] by (simp add: not_less [symmetric])
  then have "validate_not_redefined ds \<longleftrightarrow>
      (\<forall>d' \<in> set ds. \<not> (\<exists>d \<in> set ds. \<exists>e \<in> set ds. d \<noteq> e \<and> tuple_of d = tuple_of d' \<and> tuple_of e = tuple_of d'))"
    unfolding validate_not_redefined_def by (simp only: set_map ball_simps)
  then show ?thesis by metis
qed

definition handlers_of :: "(nat \<Rightarrow> ('s, 'e route_error, unit) op) \<Rightarrow> ('s, 'e, 'q, 'r) middleware list
    \<Rightarrow> (EnrouteDecorator \<times> ('s, 'e, 'q, 'r) service \<times> ('s, 'e, 'q, 'r) HandlerMeta) list \<Rightarrow> EnrouteDecorator \<Rightarrow> ('s, 'e, 'q, 'r) handler list" where
  "handlers_of sleep ms us d = map (\<lambda>(d, c, h). build_one_method sleep ms c h d) (filter (\<lambda>u. fst u = d) us)"

lemma build_all_classes_groups:
  "build_all_classes sleep ms expected cs =
     map (\<lambda>d. (d, handlers_of sleep ms (uses expected cs) d)) (uniq (map fst (uses expected cs)))"
proof -
  let ?p = "\<lambda>(d, c, h). (d, build_one_method sleep ms c h d)"
  have "build_all_classes sleep ms expected cs = fold (\<lambda>p. add_handler (fst p) (snd p)) (map ?p (uses expected cs)) []"
    by (simp add: build_all_classes_def fold_map comp_def case_prod_unfold)
  then show ?thesis
    by (simp add: fold_add_handler handlers_of_def comp_def case_prod_unfold filter_map)
qed

lemma table_of_uses:
  "build_table sleep ms expected cs = (if ambiguous (map fst (uses expected cs)) then Inl MinosRedefinedEnrouteDecoratorException
     else Inr (map (\<lambda>d. (d, answer_of (handlers_of sleep ms (uses expected cs) d))) (uniq (map fst (uses expected cs)))))"
proof -
  let ?us = "uses expected cs" and ?ds = "uniq (map fst (uses expected cs))"
  have len: "length (handlers_of sleep ms ?us d) = length (filter (\<lambda>e. e = d) (map fst ?us))" for d
    by (simp add: handlers_of_def filter_map comp_def)
  have "handlers_of sleep ms ?us d \<noteq> []" if "d \<in> set ?ds" for d
    using that by (auto simp: handlers_of_def filter_empty_conv)
  then have flat: "flatten_all (build_all_classes sleep ms expected cs) =
      (if \<exists>d \<in> set ?ds. KIND d \<noteq> Event_kind \<and> 1 < length (handlers_of sleep ms ?us d) then Inl MinosRedefinedEnrouteDecoratorException
       else Inr (map (\<lambda>d. (d, answer_of (handlers_of sleep ms ?us d))) ?ds))"
    unfolding build_all_classes_groups by (subst flatten_all_cases) auto
  show ?thesis
  proof (cases "\<exists>d \<in> set ?ds. KIND d \<noteq> Event_kind \<and> 1 < length (handlers_of sleep ms ?us d)")
    case True
    then show ?thesis unfolding build_table_def flat by (auto simp: ambiguous_def len)
  next
    case False
    then have "ambiguous (map fst ?us) \<longleftrightarrow> (\<exists>d \<in> set ?ds. \<exists>e \<in> set ?ds. d \<noteq> e \<and> tuple_of d = tuple_of e)"
      by (auto simp: ambiguous_def len)
    moreover have "flatten_all (build_all_classes sleep ms expected cs) = Inr (map (\<lambda>d. (d, answer_of (handlers_of sleep ms ?us d))) ?ds)"
      unfolding flat using False by (simp only: if_False)
    ultimately show ?thesis by (simp add: build_table_def validate_iff comp_def)
  qed
qed

text \<open>Every entry of the table is one of exactly one router.\<close>

lemma routers_partition: "mset t = mset (rest_router t) + mset (broker_router t) + mset (periodic_router t)"
proof (induction t)
  case (Cons p t)
  obtain d f where "p = (d, f)" by (cases p)
  with Cons show ?case
    by (cases d) (simp_all add: rest_router_def broker_router_def periodic_router_def periodic_event_def)
qed (simp add: rest_router_def broker_router_def periodic_router_def)

section \<open>Claims\<close>

text \<open>C30: the table of handlers in terms of the uses of the decorators by the functions of all services: when a decorator that
  is not one of events is used twice, or two different decorators have the same topic or the same path and
  method, building it raises. Otherwise it has one entry for each decorator, in the order of their first uses, that
  answers with the only handler, or for an event that is handled several times with the answers of all its handlers.
\<close>

theorem routing_table:
  "build_table sleep ms expected cs = (if ambiguous (map fst (uses expected cs)) then Inl MinosRedefinedEnrouteDecoratorException
     else Inr (map (\<lambda>d. (d, answer_of (handlers_of sleep ms (uses expected cs) d))) (uniq (map fst (uses expected cs)))))"
  by (rule table_of_uses)

text \<open>C31: a decorated function with a check that is never satisfied, all of whose checks return, answers with the exception of
  the check step, whatever the function is and the state, which is left as the checks leave it: the function is not called. It does not matter whether
  the function is a coroutine, how many attempts the checks have and in which order they were added.
\<close>

theorem checks_guard:
  assumes "decorated h" "\<forall>m \<in> set (hm_checkers h). returns (ck_func m q) (\<lambda>_. True)" "\<forall>n. returns (sleep n) (\<lambda>_. True)"
    and "m \<in> set (hm_checkers h)" "returns (ck_func m q) Not"
  shows "\<exists>s'. \<forall>f. wrapper sleep (h\<lparr>hm_func := f\<rparr>) q s = (Inl CheckResponseException, s')"
  by (rule wrapper_refuses [OF assms])

definition positive_check :: "(nat, unit, nat) CheckerMeta" where
  "positive_check = \<lparr>ck_name = ''positive'', ck_func = (\<lambda>q. retE (0 < q)), ck_coroutine = False, ck_max_attempts = 3, ck_delay = 2\<rparr>"

definition guarded_handler :: "(nat, unit, nat, nat) HandlerMeta" where
  "guarded_handler = \<lparr>hm_func = (\<lambda>q. retE (q + 1)), hm_coroutine = True,
     hm_decorators = [BrokerCommandEnrouteDecorator ''AddOrder''], hm_checkers = [positive_check]\<rparr>"

definition wait_time :: "nat \<Rightarrow> (nat, unit route_error, unit) op" where
  "wait_time n = modifyE (\<lambda>t. t + n)"

lemma decorated_guarded: "decorated guarded_handler"
proof -
  let ?h = "HandlerMeta_init (\<lambda>q. retE (q + 1)) True :: (nat, unit, nat, nat) HandlerMeta"
  let ?d = "BrokerCommandEnrouteDecorator ''AddOrder''"
  have "add_decorator ?d ?h = Inr (?h\<lparr>hm_decorators := [?d]\<rparr>)" by (simp add: add_decorator_def HandlerMeta_init_def)
  then have "decorated (?h\<lparr>hm_decorators := [?d]\<rparr>)" by (rule decorated_decorator [OF decorated_new])
  moreover have "add_check positive_check (?h\<lparr>hm_decorators := [?d]\<rparr>) = Inr guarded_handler"
    by (simp add: add_check_def HandlerMeta_init_def guarded_handler_def)
  ultimately show ?thesis by (rule decorated_check)
qed

text \<open>The check passes for one and refuses zero, after three waits.\<close>

lemma guarded_runs: "wrapper wait_time guarded_handler 1 0 = (Inr 2, 0)" "wrapper wait_time guarded_handler 0 0 = (Inl CheckResponseException, 6)"
  by (simp_all add: wrapper_def check_step_def run_async_def run_check_def guarded_handler_def positive_check_def wait_time_def
      op_apply retE_def raiseE_def modifyE_def numeral_eq_Suc)

lemma checks_guard_witness:
  "\<exists>s'. \<forall>f. wrapper wait_time (guarded_handler\<lparr>hm_func := f\<rparr>) 0 0 = (Inl CheckResponseException, s')"
  by (rule checks_guard [OF decorated_guarded, of _ _ positive_check])
    (simp_all add: guarded_handler_def positive_check_def wait_time_def returns_def retE_def modifyE_def ex_bool_eq)

end
