(* ===== verification/Injections.thy ===== *)
theory Injections
  imports Prelude
begin

text \<open>
  How the parts of a service are built, connected and started: setting up and destroying
  (\<open>common/setup.py\<close>), dependency injection (\<open>common/injections\<close>) and the factory of pools
  (\<open>common/pools.py\<close>). Importing by name and the constructors of the classes are parameters.
\<close>

section \<open>Setup\<close>

text \<open>
  \<open>SetupMixin\<close>: objects, named by \<open>'k\<close>, with a flag each. What an object does in \<open>_setup\<close> (\<open>True\<close>) and
  \<open>_destroy\<close> (\<open>False\<close>) is a parameter that works on the state \<open>'s\<close>.
\<close>

record ('k, 's) lifecycle =
  lc_already_setup :: "'k \<Rightarrow> bool"
  lc_state :: 's

definition run_hook :: "('s, 'e, unit) op \<Rightarrow> (('k, 's) lifecycle, 'e, unit) op" where
  "run_hook m = (\<lambda>w. case m (lc_state w) of (r, s) \<Rightarrow> (r, w\<lparr>lc_state := s\<rparr>))"

definition mark_setup :: "'k \<Rightarrow> bool \<Rightarrow> ('k, 's) lifecycle \<Rightarrow> ('k, 's) lifecycle" where
  "mark_setup k b w = w\<lparr>lc_already_setup := (lc_already_setup w)(k := b)\<rparr>"

definition setup_object :: "(bool \<Rightarrow> 'k \<Rightarrow> ('s, 'e, unit) op) \<Rightarrow> 'k \<Rightarrow> (('k, 's) lifecycle, 'e, unit) op" where
  "setup_object hook k = bindE (getsE (\<lambda>w. lc_already_setup w k)) (\<lambda>already.
     if already then retE () else thenE (run_hook (hook True k)) (modifyE (mark_setup k True)))"

definition destroy_object :: "(bool \<Rightarrow> 'k \<Rightarrow> ('s, 'e, unit) op) \<Rightarrow> 'k \<Rightarrow> (('k, 's) lifecycle, 'e, unit) op" where
  "destroy_object hook k = bindE (getsE (\<lambda>w. lc_already_setup w k)) (\<lambda>already.
     if already then thenE (run_hook (hook False k)) (modifyE (mark_setup k False)) else retE ())"

text \<open>\<open>async with\<close> an object.\<close>

definition with_object :: "(bool \<Rightarrow> 'k \<Rightarrow> ('s, 'e, unit) op) \<Rightarrow> 'k \<Rightarrow> (('k, 's) lifecycle, 'e, unit) op \<Rightarrow> (('k, 's) lifecycle, 'e, unit) op" where
  "with_object hook k body = thenE (setup_object hook k) (finallyE body (destroy_object hook k))"

text \<open>\<open>gather\<close> of operations: all of them run, also after an exception, the first of which is raised at the end.\<close>

fun run_all :: "('s, 'e, unit) op list \<Rightarrow> ('s, 'e, unit) op" where
  "run_all [] = retE ()"
| "run_all (m # ms) = (\<lambda>s. case m s of
     (Inl e, s1) \<Rightarrow> (Inl e, snd (run_all ms s1))
   | (Inr _, s1) \<Rightarrow> run_all ms s1)"

definition setup_injections :: "(bool \<Rightarrow> 'k \<Rightarrow> ('s, 'e, unit) op) \<Rightarrow> (string, 'k) dict \<Rightarrow> (('k, 's) lifecycle, 'e, unit) op" where
  "setup_injections hook injections = run_all (map (setup_object hook) (dict_values injections))"

definition destroy_injections :: "(bool \<Rightarrow> 'k \<Rightarrow> ('s, 'e, unit) op) \<Rightarrow> (string, 'k) dict \<Rightarrow> (('k, 's) lifecycle, 'e, unit) op" where
  "destroy_injections hook injections = run_all (map (destroy_object hook) (dict_values injections))"

section \<open>The injector\<close>

datatype injection_error = NotProvidedException | Injection_type_error | Injection_attribute_error | Injection_value_error
  | PoolException | MinosConfigException | Other_error string

text \<open>
  What an injector is given: names to import, classes and instances. Importing gives a class or an instance; a
  class is built from the configuration and the injections so far.
\<close>

datatype ('c, 'i) raw_injection = Raw_name string | Raw_class 'c | Raw_instance 'i

record ('c, 'g, 'i) factory =
  fc_import :: "string \<Rightarrow> injection_error + ('c + 'i)"
  fc_from_config :: "'c \<Rightarrow> 'g \<Rightarrow> (string, 'i) dict \<Rightarrow> injection_error + 'i"
  fc_injectable_name :: "'i \<Rightarrow> injection_error + string"

definition build_raw :: "('c, 'g, 'i) factory \<Rightarrow> 'g \<Rightarrow> (string, 'i) dict \<Rightarrow> ('c, 'i) raw_injection \<Rightarrow> injection_error + 'i" where
  "build_raw F config injections raw =
     (case (case raw of Raw_name n \<Rightarrow> fc_import F n | Raw_class c \<Rightarrow> Inr (Inl c) | Raw_instance i \<Rightarrow> Inr (Inr i)) of
        Inl e \<Rightarrow> Inl e
      | Inr (Inl c) \<Rightarrow> fc_from_config F c config injections
      | Inr (Inr i) \<Rightarrow> Inr i)"

fun build_injections :: "('c, 'g, 'i) factory \<Rightarrow> 'g \<Rightarrow> ('c, 'i) raw_injection list \<Rightarrow> (string, 'i) dict \<Rightarrow> injection_error + (string, 'i) dict" where
  "build_injections F config [] injections = Inr injections"
| "build_injections F config (raw # raws) injections = (case build_raw F config injections raw of
     Inl _ \<Rightarrow> Inl Injection_value_error
   | Inr i \<Rightarrow> (case fc_injectable_name F i of Inl _ \<Rightarrow> Inl Injection_value_error
       | Inr n \<Rightarrow> build_injections F config raws (dict_set n i injections)))"

text \<open>The container: the configuration and the injections by name.\<close>

datatype ('g, 'i) provided = Provided_config 'g | Provided 'i

definition injection_container :: "'g \<Rightarrow> (string, 'i) dict \<Rightarrow> (string, ('g, 'i) provided) dict" where
  "injection_container config injections = fold (\<lambda>(n, i). dict_set n (Provided i)) injections [(''config'', Provided_config config)]"

section \<open>Injecting arguments\<close>

text \<open>
  The hint of a parameter: a class, injectable with its name if it has one, a class with arguments, a union,
  or what is not a class (\<open>Any\<close>, a type variable).
\<close>

datatype injection_hint = Plain_hint string | Injectable_hint string "string option" | Special_hint string
  | Generic_hint injection_hint "injection_hint list" | Union_hint "injection_hint list"

fun is_injectable :: "injection_hint \<Rightarrow> bool" where
  "is_injectable (Union_hint ts) = (\<exists>t \<in> set ts. is_injectable t)"
| "is_injectable (Injectable_hint _ _) = True"
| "is_injectable (Generic_hint (Injectable_hint _ _) _) = True"
| "is_injectable _ = False"

definition resolve_by_name :: "(string, 'v) dict \<Rightarrow> string \<Rightarrow> injection_error + 'v" where
  "resolve_by_name c n = (case dict_get c n of None \<Rightarrow> Inl NotProvidedException | Some v \<Rightarrow> Inr v)"

definition injectable_by_name :: "(string, 'v) dict \<Rightarrow> string option \<Rightarrow> injection_error + 'v" where
  "injectable_by_name c n = (case n of None \<Rightarrow> Inl Injection_attribute_error | Some n \<Rightarrow> resolve_by_name c n)"

text \<open>Of a union the first alternative that is provided; another exception than \<open>NotProvidedException\<close> passes.\<close>

fun resolve_hint :: "(string, 'v) dict \<Rightarrow> injection_hint \<Rightarrow> injection_error + 'v"
  and resolve_first :: "(string, 'v) dict \<Rightarrow> injection_hint list \<Rightarrow> injection_error + 'v" where
  "resolve_hint c (Union_hint ts) = resolve_first c ts"
| "resolve_hint c (Plain_hint _) = Inl NotProvidedException"
| "resolve_hint c (Injectable_hint _ n) = injectable_by_name c n"
| "resolve_hint c (Special_hint _) = Inl Injection_type_error"
| "resolve_hint c (Generic_hint t _) = (case t of Injectable_hint _ n \<Rightarrow> injectable_by_name c n | _ \<Rightarrow> Inl NotProvidedException)"
| "resolve_first c [] = Inl NotProvidedException"
| "resolve_first c (t # ts) = (case resolve_hint c t of
     Inl e \<Rightarrow> if e = NotProvidedException then resolve_first c ts else Inl e
   | Inr v \<Rightarrow> Inr v)"

record parameter =
  pm_name :: string
  pm_hint :: "injection_hint option"
  pm_default :: bool

text \<open>Position, hint and whether there is a default, of the parameters to inject; \<open>enumerate\<close> counts all parameters.\<close>

definition reserved_names :: "string list" where
  "reserved_names = [''return'', ''self'', ''cls'']"

fun injected_hints :: "nat \<Rightarrow> parameter list \<Rightarrow> (string \<times> nat \<times> injection_hint \<times> bool) list" where
  "injected_hints i [] = []"
| "injected_hints i (p # ps) = (case pm_hint p of
     Some t \<Rightarrow> if pm_name p \<notin> set reserved_names \<and> is_injectable t then (pm_name p, i, t, pm_default p) # injected_hints (Suc i) ps
       else injected_hints (Suc i) ps
   | None \<Rightarrow> injected_hints (Suc i) ps)"

text \<open>The loop over \<open>type_hints_.keys() - kwargs.keys()\<close>; \<open>n\<close> is the number of positional arguments.\<close>

fun inject_loop :: "(string, 'v) dict \<Rightarrow> nat \<Rightarrow> (string \<times> nat \<times> injection_hint \<times> bool) list \<Rightarrow> (string, 'v) dict
    \<Rightarrow> injection_error + (string, 'v) dict" where
  "inject_loop c n [] kwargs = Inr kwargs"
| "inject_loop c n ((name, i, t, optional) # hs) kwargs = (if i < n then inject_loop c n hs kwargs else
     (case resolve_hint c t of
        Inr v \<Rightarrow> inject_loop c n hs (dict_set name v kwargs)
      | Inl e \<Rightarrow> if e = NotProvidedException \<and> optional then inject_loop c n hs kwargs else Inl e))"

definition inject_on_kwargs :: "(string, 'v) dict \<Rightarrow> nat \<Rightarrow> (string \<times> nat \<times> injection_hint \<times> bool) list \<Rightarrow> (string, 'v) dict
    \<Rightarrow> injection_error + (string, 'v) dict" where
  "inject_on_kwargs c n hs kwargs = inject_loop c n (filter (\<lambda>(name, _). name \<notin> set (dict_keys kwargs)) hs) kwargs"

definition injected_call :: "(string, 'v) dict \<Rightarrow> parameter list \<Rightarrow> ('v list \<Rightarrow> (string, 'v) dict \<Rightarrow> injection_error + 'r)
    \<Rightarrow> 'v list \<Rightarrow> (string, 'v) dict \<Rightarrow> injection_error + 'r" where
  "injected_call c ps f args kwargs = (case inject_on_kwargs c (length args) (injected_hints 0 ps) kwargs of
     Inl e \<Rightarrow> Inl e | Inr kwargs \<Rightarrow> f args kwargs)"

section \<open>The factory of pools\<close>

text \<open>
  \<open>PoolFactory\<close>: pools by type and identifier. \<open>types\<close> are those of the configuration, \<open>build\<close> the constructor
  of a pool from the configuration.
\<close>

record ('c, 'p) pool_factory =
  pf_default_classes :: "(string, 'c) dict"
  pf_pools :: "(string \<times> string option, 'p) dict"

definition get_pool_cls :: "(injection_error + (string, 'c) dict) \<Rightarrow> string \<Rightarrow> (('c, 'p) pool_factory, injection_error, 'c) op" where
  "get_pool_cls types typ = (\<lambda>w. case dict_get (pf_default_classes w) typ of
     Some c \<Rightarrow> (Inr c, w)
   | None \<Rightarrow> (case types of Inl e \<Rightarrow> (Inl e, w)
       | Inr ts \<Rightarrow> (case dict_get ts typ of Some c \<Rightarrow> (Inr c, w) | None \<Rightarrow> (Inl PoolException, w))))"

definition create_pool :: "(injection_error + (string, 'c) dict) \<Rightarrow> ('c \<Rightarrow> string option \<Rightarrow> injection_error + 'p) \<Rightarrow> string \<Rightarrow> string option
    \<Rightarrow> (('c, 'p) pool_factory, injection_error, 'p) op" where
  "create_pool types build typ identifier = bindE (get_pool_cls types typ) (\<lambda>c.
     catchE (liftE (build c identifier)) (\<lambda>e. if e = MinosConfigException then Some (raiseE PoolException) else None))"

definition get_pool :: "(injection_error + (string, 'c) dict) \<Rightarrow> ('c \<Rightarrow> string option \<Rightarrow> injection_error + 'p) \<Rightarrow> string \<Rightarrow> string option
    \<Rightarrow> (('c, 'p) pool_factory, injection_error, 'p) op" where
  "get_pool types build typ identifier = bindE (getsE (\<lambda>w. dict_get (pf_pools w) (typ, identifier))) (\<lambda>known. case known of
     Some p \<Rightarrow> retE p
   | None \<Rightarrow> bindE (create_pool types build typ identifier) (\<lambda>p.
       thenE (modifyE (\<lambda>w. w\<lparr>pf_pools := dict_set (typ, identifier) p (pf_pools w)\<rparr>)) (retE p)))"

end
