(* ===== verification/Injection_Properties.thy ===== *)
theory Injection_Properties
  imports Injections
begin

text \<open>
  What the life cycle of objects guarantees, what a call of a function with injected parameters is bound to,
  what the container holds, and that pools are never replaced.
\<close>

section \<open>Life cycle\<close>

text \<open>Hooks that write down when they have returned; calls that set up or destroy a group of objects, in a row, with
  their exceptions ignored.\<close>

definition recorded :: "(bool \<Rightarrow> 'k \<Rightarrow> ('s, 'e, unit) op) \<Rightarrow> bool \<Rightarrow> 'k \<Rightarrow> ('s \<times> (bool \<times> 'k) list, 'e, unit) op" where
  "recorded hook b k = (\<lambda>(s, log). case hook b k s of
     (Inr u, s') \<Rightarrow> (Inr u, (s', log @ [(b, k)]))
   | (Inl e, s') \<Rightarrow> (Inl e, (s', log)))"

definition call :: "(bool \<Rightarrow> 'k \<Rightarrow> ('s, 'e, unit) op) \<Rightarrow> bool \<Rightarrow> 'k \<Rightarrow> (('k, 's) lifecycle, 'e, unit) op" where
  "call hook b k = (if b then setup_object hook k else destroy_object hook k)"

definition group :: "(bool \<Rightarrow> 'k \<Rightarrow> ('s, 'e, unit) op) \<Rightarrow> bool \<Rightarrow> 'k list \<Rightarrow> (('k, 's) lifecycle, 'e, unit) op" where
  "group hook b ks = run_all (map (call hook b) ks)"

definition calls :: "(bool \<Rightarrow> 'k \<Rightarrow> ('s, 'e, unit) op) \<Rightarrow> (bool \<times> 'k list) list \<Rightarrow> ('k, 's) lifecycle \<Rightarrow> ('k, 's) lifecycle" where
  "calls hook cs = fold (\<lambda>(b, ks) w. snd (group hook b ks w)) cs"

text \<open>Turns: \<open>b\<close>, its opposite, and so on.\<close>

fun turns :: "bool \<Rightarrow> bool list \<Rightarrow> bool" where
  "turns b [] = True"
| "turns b (x # xs) = (x = b \<and> turns (\<not> b) xs)"

lemma turns_snoc: "turns b (xs @ [x]) \<longleftrightarrow> turns b xs \<and> x = (b = even (length xs))"
  by (induction xs arbitrary: b) auto

definition hooks_of :: "'k \<Rightarrow> (bool \<times> 'k) list \<Rightarrow> bool list" where
  "hooks_of k log = map fst (filter (\<lambda>p. snd p = k) log)"

lemma hooks_of_simps [simp]: "hooks_of k [] = []" "hooks_of k (log @ [(b, k')]) = hooks_of k log @ (if k' = k then [b] else [])"
  by (simp_all add: hooks_of_def)

definition in_turns :: "('k, 's \<times> (bool \<times> 'k) list) lifecycle \<Rightarrow> bool" where
  "in_turns w \<longleftrightarrow> (\<forall>k. turns True (hooks_of k (snd (lc_state w))) \<and> lc_already_setup w k = odd (length (hooks_of k (snd (lc_state w)))))"

lemma call_outcomes:
  "snd (call (recorded hook) b k w) = (if lc_already_setup w k = b then w else
     (case hook b k (fst (lc_state w)) of
        (Inr _, s) \<Rightarrow> mark_setup k b (w\<lparr>lc_state := (s, snd (lc_state w) @ [(b, k)])\<rparr>)
      | (Inl _, s) \<Rightarrow> w\<lparr>lc_state := (s, snd (lc_state w))\<rparr>))"
  by (cases b) (auto simp: call_def setup_object_def destroy_object_def run_hook_def recorded_def op_apply case_prod_unfold
      split: prod.split sum.split)

lemma call_keeps_turns: "in_turns w \<Longrightarrow> in_turns (snd (call (recorded hook) b k w))"
  unfolding call_outcomes
  by (auto simp: in_turns_def mark_setup_def turns_snoc split: prod.split sum.split)

lemma run_all_fold: "snd (run_all ms s) = fold (\<lambda>m s. snd (m s)) ms s"
  by (induction ms arbitrary: s) (auto split: prod.split sum.split)

lemma group_keeps_turns: "in_turns w \<Longrightarrow> in_turns (snd (group (recorded hook) b ks w))"
  unfolding group_def run_all_fold by (induction ks arbitrary: w) (auto intro: call_keeps_turns)

lemma calls_keep_turns: "in_turns w \<Longrightarrow> in_turns (calls (recorded hook) cs w)"
  unfolding calls_def by (induction cs arbitrary: w) (auto intro: group_keeps_turns)

lemma injections_group:
  "setup_injections hook d = group hook True (dict_values d)" "destroy_injections hook d = group hook False (dict_values d)"
  by (simp_all add: setup_injections_def destroy_injections_def group_def call_def [abs_def])

text \<open>An object is not set up after \<open>async with\<close>, unless setting up or destroying it raised.\<close>

lemma with_object_closes:
  assumes "with_object hook k body w = (r, w')" "\<And>w. \<exists>w'. setup_object hook k w = (Inr (), w')" "\<And>s. \<exists>s'. hook False k s = (Inr (), s')"
  shows "\<not> lc_already_setup w' k"
proof -
  obtain w1 where w1: "setup_object hook k w = (Inr (), w1)" using assms(2) by blast
  obtain q w2 where w2: "body w1 = (q, w2)" by (cases "body w1") blast
  obtain s where s: "hook False k (lc_state w2) = (Inr (), s)" using assms(3) by blast
  show ?thesis
    using assms(1) w1 w2 s
    by (auto simp: with_object_def destroy_object_def run_hook_def mark_setup_def op_apply split: if_split_asm)
qed

section \<open>The injector\<close>

lemma build_injections_append:
  "build_injections F g (xs @ ys) d = (case build_injections F g xs d of Inl e \<Rightarrow> Inl e | Inr d' \<Rightarrow> build_injections F g ys d')"
  by (induction F g xs d rule: build_injections.induct) (auto split: sum.split)

lemma build_injections_distinct: "build_injections F g xs d = Inr d' \<Longrightarrow> distinct (dict_keys d) \<Longrightarrow> distinct (dict_keys d')"
  by (induction F g xs d rule: build_injections.induct) (auto simp: distinct_dict_set split: sum.split_asm)

lemma build_injections_raises: "build_injections F g xs d = Inl e \<Longrightarrow> e = Injection_value_error"
  by (induction F g xs d rule: build_injections.induct) (auto split: sum.split_asm)

lemma fold_provided:
  "distinct (dict_keys d) \<Longrightarrow> dict_get (fold (\<lambda>(n, i). dict_set n (Provided i)) d c) n =
     (case dict_get d n of Some i \<Rightarrow> Some (Provided i) | None \<Rightarrow> dict_get c n)"
proof (induction d arbitrary: c)
  case (Cons p d)
  obtain m j where p: "p = (m, j)" by (cases p)
  have "dict_get d m = None" using Cons.prems p by (simp add: map_of_eq_None_iff)
  then show ?case using Cons.IH [of "dict_set m (Provided j) c"] Cons.prems p by (auto split: option.split)
qed simp

lemma container_gets:
  "distinct (dict_keys d) \<Longrightarrow> dict_get (injection_container g d) n =
     (case dict_get d n of Some i \<Rightarrow> Some (Provided i) | None \<Rightarrow> if n = ''config'' then Some (Provided_config g) else None)"
  by (simp add: injection_container_def fold_provided split: option.split)

section \<open>Injected calls\<close>

text \<open>
  The parameters a call leaves to injection, with the outcomes of resolving them; the arguments added to the call,
  and the exceptions.
\<close>

definition left_open :: "nat \<Rightarrow> (string, 'v) dict \<Rightarrow> parameter list \<Rightarrow> parameter list" where
  "left_open n kwargs ps = filter (\<lambda>p. pm_name p \<notin> set reserved_names \<and> pm_name p \<notin> set (dict_keys kwargs)
     \<and> (case pm_hint p of None \<Rightarrow> False | Some t \<Rightarrow> is_injectable t)) (drop n ps)"

definition outcome_of :: "(string, 'v) dict \<Rightarrow> parameter \<Rightarrow> injection_error + 'v" where
  "outcome_of c p = resolve_hint c (the (pm_hint p))"

definition added :: "(string, 'v) dict \<Rightarrow> parameter list \<Rightarrow> (string, 'v) dict" where
  "added c ps = List.map_filter (\<lambda>p. case outcome_of c p of Inr v \<Rightarrow> Some (pm_name p, v) | Inl _ \<Rightarrow> None) ps"

definition refused :: "(string, 'v) dict \<Rightarrow> parameter list \<Rightarrow> injection_error list" where
  "refused c ps = List.map_filter (\<lambda>p. case outcome_of c p of
     Inl e \<Rightarrow> if e = NotProvidedException \<and> pm_default p then None else Some e | Inr _ \<Rightarrow> None) ps"

lemma injected_hints_drop:
  "filter (\<lambda>(name, i, _). n \<le> i) (injected_hints i ps) = injected_hints (max i n) (drop (n - i) ps)"
proof (induction i ps rule: injected_hints.induct)
  case (2 i p ps)
  then show ?case
    by (cases "i < n") (auto simp: Suc_diff_Suc [symmetric] max_def drop_Cons' split: option.split)
qed simp

lemma inject_loop_positional: "inject_loop c n hs kwargs = inject_loop c n (filter (\<lambda>(name, i, _). n \<le> i) hs) kwargs"
  by (induction c n hs kwargs rule: inject_loop.induct) (auto split: sum.split)

lemma injected_hints_filter:
  "n \<le> i \<Longrightarrow> inject_loop c n (filter (\<lambda>(name, _). name \<notin> set (dict_keys kw)) (injected_hints i ps)) kwargs =
     inject_loop c 0 (map (\<lambda>p. (pm_name p, 0, the (pm_hint p), pm_default p)) (left_open 0 kw ps)) kwargs"
  by (induction i ps arbitrary: kwargs rule: injected_hints.induct)
    (auto simp: left_open_def split: option.split sum.split)

lemma inject_loop_all:
  "distinct (map pm_name ps) \<Longrightarrow> set (map pm_name ps) \<inter> set (dict_keys kwargs) = {} \<Longrightarrow>
   inject_loop c 0 (map (\<lambda>p. (pm_name p, 0, the (pm_hint p), pm_default p)) ps) kwargs =
     (case refused c ps of e # _ \<Rightarrow> Inl e | [] \<Rightarrow> Inr (kwargs @ added c ps))"
proof (induction ps arbitrary: kwargs)
  case (Cons p ps)
  have new: "dict_set (pm_name p) v kwargs = kwargs @ [(pm_name p, v)]" for v
    using Cons.prems(2) by (intro dict_set_new) (auto simp: map_of_eq_None_iff)
  have IH: "inject_loop c 0 (map (\<lambda>p. (pm_name p, 0, the (pm_hint p), pm_default p)) ps) kw =
      (case refused c ps of e # _ \<Rightarrow> Inl e | [] \<Rightarrow> Inr (kw @ added c ps))"
    if "set (dict_keys kw) \<subseteq> insert (pm_name p) (set (dict_keys kwargs))" for kw
  proof (rule Cons.IH)
    show "distinct (map pm_name ps)" using Cons.prems(1) by simp
    have "set (map pm_name ps) \<inter> insert (pm_name p) (set (dict_keys kwargs)) = {}" using Cons.prems by auto
    then show "set (map pm_name ps) \<inter> set (dict_keys kw) = {}" using that by blast
  qed
  show ?case
  proof (cases "outcome_of c p")
    case (Inl e)
    have "set (dict_keys kwargs) \<subseteq> insert (pm_name p) (set (dict_keys kwargs))" by blast
    note IH = IH [OF this]
    show ?thesis
    proof (cases "e = NotProvidedException \<and> pm_default p")
      case True
      then have "refused c (p # ps) = refused c ps" "added c (p # ps) = added c ps"
        using Inl by (simp_all add: refused_def added_def map_filter_simps)
      moreover have "resolve_hint c (the (pm_hint p)) = Inl NotProvidedException" using Inl True by (simp add: outcome_of_def)
      ultimately show ?thesis using IH True by (simp split: list.split)
    next
      case False
      then have "refused c (p # ps) = e # refused c ps" using Inl by (simp add: refused_def map_filter_simps)
      moreover have "resolve_hint c (the (pm_hint p)) = Inl e" using Inl by (simp add: outcome_of_def)
      ultimately show ?thesis using False by auto
    qed
  next
    case (Inr v)
    have "set (dict_keys (kwargs @ [(pm_name p, v)])) \<subseteq> insert (pm_name p) (set (dict_keys kwargs))" by simp
    note IH = IH [OF this]
    have "refused c (p # ps) = refused c ps" "added c (p # ps) = (pm_name p, v) # added c ps"
      using Inr by (simp_all add: refused_def added_def map_filter_simps)
    moreover have "resolve_hint c (the (pm_hint p)) = Inr v" using Inr by (simp add: outcome_of_def)
    ultimately show ?thesis using IH new by (simp split: list.split)
  qed
qed (simp add: refused_def added_def map_filter_simps)

lemma injected_call_outcome:
  assumes "distinct (map pm_name ps)"
  shows "injected_call c ps f args kwargs = (let open = left_open (length args) kwargs ps in
     case refused c open of e # _ \<Rightarrow> Inl e | [] \<Rightarrow> f args (kwargs @ added c open))"
proof -
  let ?n = "length args" and ?open = "left_open (length args) kwargs ps"
  have "inject_on_kwargs c ?n (injected_hints 0 ps) kwargs =
      inject_loop c ?n (filter (\<lambda>(name, _). name \<notin> set (dict_keys kwargs)) (filter (\<lambda>(name, i, _). ?n \<le> i) (injected_hints 0 ps))) kwargs"
    unfolding inject_on_kwargs_def
    by (subst inject_loop_positional) (simp add: case_prod_unfold conj_commute)
  also have "\<dots> = inject_loop c 0 (map (\<lambda>p. (pm_name p, 0, the (pm_hint p), pm_default p)) ?open) kwargs"
    unfolding injected_hints_drop by (subst injected_hints_filter) (simp_all add: left_open_def)
  also have "\<dots> = (case refused c ?open of e # _ \<Rightarrow> Inl e | [] \<Rightarrow> Inr (kwargs @ added c ?open))"
  proof (rule inject_loop_all)
    show "distinct (map pm_name ?open)"
      using assms by (auto simp: left_open_def distinct_map intro: inj_on_subset dest: in_set_dropD)
  qed (auto simp: left_open_def)
  finally show ?thesis by (auto simp: injected_call_def Let_def split: list.split)
qed

section \<open>Pools\<close>

text \<open>A pool that was handed out is handed out again, whatever other pools were asked for since.\<close>

lemma get_pool_keeps:
  "dict_get (pf_pools w) key = Some p \<Longrightarrow> dict_get (pf_pools (snd (get_pool types build t i w))) key = Some p"
  by (auto simp: get_pool_def create_pool_def get_pool_cls_def op_apply split: option.split sum.split)

lemma get_pool_again:
  "get_pool types build t i w = (Inr p, w') \<Longrightarrow> dict_get (pf_pools w') (t, i) = Some p"
  by (auto simp: get_pool_def create_pool_def get_pool_cls_def op_apply split: option.split_asm sum.split_asm if_split_asm)

lemma get_pool_known: "dict_get (pf_pools w) (t, i) = Some p \<Longrightarrow> get_pool types build t i w = (Inr p, w)"
  by (simp add: get_pool_def)

section \<open>Claims\<close>

text \<open>C32: an object is set up and destroyed in turns: after any sequence of calls that set up or destroy groups of
  objects, as the injector does, where every hook may raise, the hooks of an object that have returned are a setup, a
  destroy, a setup and so on, and the object counts as set up exactly when the last of them is a setup.\<close>

theorem lifecycle_turns:
  "let w = calls (recorded hook) cs \<lparr>lc_already_setup = (\<lambda>_. False), lc_state = (s, [])\<rparr> in
     turns True (hooks_of k (snd (lc_state w))) \<and> lc_already_setup w k = odd (length (hooks_of k (snd (lc_state w))))"
  using calls_keep_turns [of "\<lparr>lc_already_setup = (\<lambda>_. False), lc_state = (s, [])\<rparr>" hook cs] by (simp add: in_turns_def Let_def)

text \<open>C33: a call of a function with injected parameters: those that have an injectable hint and are given neither by position nor
  by name are resolved from the container. The call raises the first exception of resolving them, where a parameter
  that has a default may be missing; otherwise the function is called with the given arguments, unchanged, and the resolved ones by name.\<close>

theorem injection_of_calls:
  assumes "distinct (map pm_name ps)"
  shows "injected_call c ps f args kwargs = (let open = left_open (length args) kwargs ps in
     case refused c open of e # _ \<Rightarrow> Inl e | [] \<Rightarrow> f args (kwargs @ added c open))"
  by (rule injected_call_outcome [OF assms])

text \<open>A constructor with a repository by name, a broker that may be missing, a pool that the union finds and a plain name.\<close>

definition demo_parameters :: "parameter list" where
  "demo_parameters = [
     \<lparr>pm_name = ''self'', pm_hint = None, pm_default = False\<rparr>,
     \<lparr>pm_name = ''name'', pm_hint = Some (Plain_hint ''str''), pm_default = False\<rparr>,
     \<lparr>pm_name = ''repository'', pm_hint = Some (Injectable_hint ''EventRepository'' (Some ''event_repository'')), pm_default = False\<rparr>,
     \<lparr>pm_name = ''broker'', pm_hint = Some (Union_hint [Injectable_hint ''BrokerPublisher'' (Some ''broker_publisher''), Plain_hint ''NoneType'']), pm_default = True\<rparr>,
     \<lparr>pm_name = ''pool'', pm_hint = Some (Union_hint [Plain_hint ''str'', Injectable_hint ''PoolFactory'' (Some ''pool_factory'')]), pm_default = True\<rparr>]"

definition demo_container :: "(string, nat) dict" where
  "demo_container = [(''event_repository'', 5), (''pool_factory'', 7)]"

lemma injection_of_calls_witness:
  "injected_call demo_container demo_parameters (\<lambda>args kwargs. Inr (args, kwargs)) [0] [(''name'', 1)]
     = Inr ([0], [(''name'', 1), (''repository'', 5), (''pool'', 7)])"
  by (subst injection_of_calls)
    (simp_all add: demo_parameters_def demo_container_def left_open_def refused_def added_def outcome_of_def reserved_names_def
      map_filter_simps injectable_by_name_def resolve_by_name_def Let_def)

lemma missing_repository_refused:
  "injected_call [] demo_parameters (\<lambda>args kwargs. Inr (args, kwargs)) [0] [(''name'', 1)] = Inl NotProvidedException"
  by (simp add: demo_parameters_def injected_call_def inject_on_kwargs_def reserved_names_def injectable_by_name_def resolve_by_name_def)

end
